(* ===== verification/GoStrings.thy ===== *)
theory GoStrings imports Prelude "HOL-Library.Char_ord" begin

text \<open>
  What the program uses of Go's \<open>strings\<close>, \<open>unicode\<close> and \<open>strconv\<close> packages, on byte
  strings: a Go string is a sequence of bytes, and so is \<open>string\<close> here. \<open>TrimSpace\<close> and
  \<open>Fields\<close> recognise every Unicode white-space rune in its UTF-8 encoding. \<open>ToLower\<close> and
  \<open>ToUpper\<close> map the ASCII letters only, which is what Go does on ASCII text; on other text
  the model leaves the bytes above 127 as they are.
\<close>

section \<open>Bytes\<close>

definition byte_val :: "char \<Rightarrow> nat" where
  "byte_val c = of_char c"

definition in_bytes :: "nat \<Rightarrow> nat \<Rightarrow> char \<Rightarrow> bool" where
  "in_bytes lo hi c \<longleftrightarrow> lo \<le> byte_val c \<and> byte_val c \<le> hi"

definition is_digit :: "char \<Rightarrow> bool" where
  "is_digit c \<longleftrightarrow> in_bytes 48 57 c"

definition lower_char :: "char \<Rightarrow> char" where
  "lower_char c = (if in_bytes 65 90 c then char_of (byte_val c + 32) else c)"

definition upper_char :: "char \<Rightarrow> char" where
  "upper_char c = (if in_bytes 97 122 c then char_of (byte_val c - 32) else c)"

definition to_lower :: "string \<Rightarrow> string" where
  "to_lower s = map lower_char s"

definition to_upper :: "string \<Rightarrow> string" where
  "to_upper s = map upper_char s"

lemma byte_val_lt [simp]: "byte_val c < 256"
  by (simp add: byte_val_def)

lemma byte_val_char_of [simp]: "n < 256 \<Longrightarrow> byte_val (char_of n) = n"
  by (simp add: byte_val_def)

lemma byte_val_inject [simp]: "byte_val c = byte_val d \<longleftrightarrow> c = d"
  by (simp add: byte_val_def)

lemma char_of_byte_val [simp]: "char_of (byte_val c) = c"
  by (simp add: byte_val_def)

lemma lower_char_idem [simp]: "lower_char (lower_char c) = lower_char c"
  by (auto simp: lower_char_def in_bytes_def)

lemma to_lower_idem [simp]: "to_lower (to_lower s) = to_lower s"
  by (simp add: to_lower_def)

lemma to_lower_append [simp]: "to_lower (s @ t) = to_lower s @ to_lower t"
  by (simp add: to_lower_def)

lemma to_lower_Nil [simp]: "to_lower [] = []"
  by (simp add: to_lower_def)

lemma to_lower_Nil_iff [simp]: "to_lower s = [] \<longleftrightarrow> s = []"
  by (simp add: to_lower_def)

lemma length_to_lower [simp]: "length (to_lower s) = length s"
  by (simp add: to_lower_def)

lemma length_to_upper [simp]: "length (to_upper s) = length s"
  by (simp add: to_upper_def)

lemma to_upper_append [simp]: "to_upper (s @ t) = to_upper s @ to_upper t"
  by (simp add: to_upper_def)

section \<open>White space\<close>

text \<open>
  The number of bytes of the white-space rune a string starts with, 0 if it starts with none:
  the ASCII spaces, U+0085 and U+00A0, U+1680, U+2000 to U+200A, U+2028, U+2029, U+202F,
  U+205F and U+3000.
\<close>

definition ascii_space :: "char \<Rightarrow> bool" where
  "ascii_space c \<longleftrightarrow> in_bytes 9 13 c \<or> byte_val c = 32"

definition space2 :: "nat \<Rightarrow> nat \<Rightarrow> bool" where
  "space2 a b \<longleftrightarrow> a = 194 \<and> (b = 133 \<or> b = 160)"

definition space3 :: "nat \<Rightarrow> nat \<Rightarrow> nat \<Rightarrow> bool" where
  "space3 a b c \<longleftrightarrow>
     (a = 225 \<and> b = 154 \<and> c = 128) \<or>
     (a = 226 \<and> b = 128 \<and> (128 \<le> c \<and> c \<le> 138 \<or> c = 168 \<or> c = 169 \<or> c = 175)) \<or>
     (a = 226 \<and> b = 129 \<and> c = 159) \<or>
     (a = 227 \<and> b = 128 \<and> c = 128)"

fun space_len :: "string \<Rightarrow> nat" where
  "space_len [] = 0"
| "space_len (a # s) =
     (if ascii_space a then 1
      else case s of
        [] \<Rightarrow> 0
      | b # t \<Rightarrow>
          if space2 (byte_val a) (byte_val b) then 2
          else case t of
            [] \<Rightarrow> 0
          | c # _ \<Rightarrow> if space3 (byte_val a) (byte_val b) (byte_val c) then 3 else 0)"

text \<open>The same for the rune a reversed string ends with.\<close>

fun space_len_rev :: "string \<Rightarrow> nat" where
  "space_len_rev [] = 0"
| "space_len_rev (c # s) =
     (if ascii_space c then 1
      else case s of
        [] \<Rightarrow> 0
      | b # t \<Rightarrow>
          if space2 (byte_val b) (byte_val c) then 2
          else case t of
            [] \<Rightarrow> 0
          | a # _ \<Rightarrow> if space3 (byte_val a) (byte_val b) (byte_val c) then 3 else 0)"

lemma space_len_le: "space_len s \<le> length s"
  by (cases s rule: space_len.cases) (auto split: list.splits)

lemma space_len_rev_le: "space_len_rev s \<le> length s"
  by (cases s rule: space_len_rev.cases) (auto split: list.splits)

function trim_left :: "string \<Rightarrow> string" where
  "trim_left s = (if space_len s = 0 then s else trim_left (drop (space_len s) s))"
  by pat_completeness auto
termination
proof (relation "measure length")
  fix s :: string
  assume "space_len s \<noteq> 0"
  then have "s \<noteq> []" by auto
  with \<open>space_len s \<noteq> 0\<close> show "(drop (space_len s) s, s) \<in> measure length" by simp
qed simp

function trim_right_rev :: "string \<Rightarrow> string" where
  "trim_right_rev s =
     (if space_len_rev s = 0 then s else trim_right_rev (drop (space_len_rev s) s))"
  by pat_completeness auto
termination
proof (relation "measure length")
  fix s :: string
  assume "space_len_rev s \<noteq> 0"
  then have "s \<noteq> []" by auto
  with \<open>space_len_rev s \<noteq> 0\<close> show "(drop (space_len_rev s) s, s) \<in> measure length" by simp
qed simp

declare trim_left.simps [simp del] trim_right_rev.simps [simp del]

text \<open>\<open>strings.TrimSpace\<close>: first the front, then the back.\<close>

definition trim_space :: "string \<Rightarrow> string" where
  "trim_space s = rev (trim_right_rev (rev (trim_left s)))"

lemma trim_left_suffix: "suffix (trim_left s) s"
proof (induction s rule: trim_left.induct)
  case (1 s)
  show ?case
  proof (cases "space_len s = 0")
    case True
    then show ?thesis by (subst trim_left.simps) simp
  next
    case False
    with 1 have "suffix (trim_left (drop (space_len s) s)) (drop (space_len s) s)" by simp
    with False show ?thesis
      by (subst trim_left.simps) (auto intro: suffix_order.trans suffix_drop)
  qed
qed

lemma trim_right_rev_suffix: "suffix (trim_right_rev s) s"
proof (induction s rule: trim_right_rev.induct)
  case (1 s)
  show ?case
  proof (cases "space_len_rev s = 0")
    case True
    then show ?thesis by (subst trim_right_rev.simps) simp
  next
    case False
    with 1 have "suffix (trim_right_rev (drop (space_len_rev s) s)) (drop (space_len_rev s) s)"
      by simp
    with False show ?thesis
      by (subst trim_right_rev.simps) (auto intro: suffix_order.trans suffix_drop)
  qed
qed

lemma trim_space_sublist: "sublist (trim_space s) s"
proof -
  have "prefix (trim_space s) (trim_left s)"
    using trim_right_rev_suffix [of "rev (trim_left s)"]
    by (simp add: trim_space_def suffix_to_prefix)
  then show ?thesis
    using trim_left_suffix [of s]
    by (meson prefix_imp_sublist sublist_order.order.trans suffix_imp_sublist)
qed

lemma trim_left_Nil [simp]: "trim_left [] = []"
  by (simp add: trim_left.simps)

lemma trim_right_rev_Nil [simp]: "trim_right_rev [] = []"
  by (simp add: trim_right_rev.simps)

lemma trim_space_Nil [simp]: "trim_space [] = []"
  by (simp add: trim_space_def)

lemma trim_left_no_space: "space_len s = 0 \<Longrightarrow> trim_left s = s"
  by (simp add: trim_left.simps)

lemma trim_space_no_space:
  "space_len s = 0 \<Longrightarrow> space_len_rev (rev s) = 0 \<Longrightarrow> trim_space s = s"
  by (simp add: trim_space_def trim_left.simps trim_right_rev.simps)

lemma trim_left_result: "space_len (trim_left s) = 0"
proof (induction s rule: trim_left.induct)
  case (1 s)
  then show ?case by (cases "space_len s = 0") (simp_all add: trim_left.simps [of s])
qed

lemma trim_right_rev_result: "space_len_rev (trim_right_rev s) = 0"
proof (induction s rule: trim_right_rev.induct)
  case (1 s)
  then show ?case by (cases "space_len_rev s = 0") (simp_all add: trim_right_rev.simps [of s])
qed


text \<open>\<open>strings.Fields\<close>: the maximal runs without white space, in order.\<close>

function split_fields_aux :: "string \<Rightarrow> string \<Rightarrow> string list" where
  "split_fields_aux acc s =
     (if s = [] then (if acc = [] then [] else [rev acc])
      else if space_len s = 0 then split_fields_aux (hd s # acc) (tl s)
      else (if acc = [] then [] else [rev acc]) @ split_fields_aux [] (drop (space_len s) s))"
  by pat_completeness auto
termination
  by (relation "measure (\<lambda>(acc, s). length s)") auto

declare split_fields_aux.simps [simp del]

definition split_fields :: "string \<Rightarrow> string list" where
  "split_fields s = split_fields_aux [] s"

lemma split_fields_aux_nonempty: "w \<in> set (split_fields_aux acc s) \<Longrightarrow> w \<noteq> []"
proof (induction acc s rule: split_fields_aux.induct)
  case (1 acc s)
  show ?case
    using 1 by (subst (asm) (2) split_fields_aux.simps) (auto split: if_splits)
qed

lemma split_fields_nonempty: "w \<in> set (split_fields s) \<Longrightarrow> w \<noteq> []"
  unfolding split_fields_def by (rule split_fields_aux_nonempty)

section \<open>Searching and cutting\<close>

text \<open>\<open>strings.Contains\<close>, \<open>strings.Cut\<close> (\<open>None\<close>: not found), \<open>strings.IndexByte\<close>.\<close>

fun contains :: "'a list \<Rightarrow> 'a list \<Rightarrow> bool" where
  "contains s sub =
     (prefix sub s \<or> (case s of [] \<Rightarrow> False | _ # t \<Rightarrow> contains t sub))"

declare contains.simps [simp del]

lemma contains_Nil [simp]: "contains [] sub \<longleftrightarrow> sub = []"
  by (simp add: contains.simps)

lemma contains_Cons: "contains (c # s) sub \<longleftrightarrow> prefix sub (c # s) \<or> contains s sub"
  by (subst contains.simps) simp

lemma contains_sublist: "contains s sub \<longleftrightarrow> sublist sub s"
proof (induction s)
  case Nil
  then show ?case by simp
next
  case (Cons c s)
  then show ?case by (simp only: contains_Cons sublist_Cons_right)
qed

fun cut_at :: "'a list \<Rightarrow> 'a list \<Rightarrow> ('a list \<times> 'a list) option" where
  "cut_at s sep =
     (if prefix sep s then Some ([], drop (length sep) s)
      else case s of
        [] \<Rightarrow> None
      | c # t \<Rightarrow> map_option (\<lambda>(a, b). (c # a, b)) (cut_at t sep))"

declare cut_at.simps [simp del]

lemma cut_at_Nil: "cut_at [] sep = (if sep = [] then Some ([], []) else None)"
  by (simp add: cut_at.simps)

lemma cut_at_Cons: "cut_at (c # s) sep =
    (if prefix sep (c # s) then Some ([], drop (length sep) (c # s))
     else map_option (\<lambda>(a, b). (c # a, b)) (cut_at s sep))"
  by (subst cut_at.simps) simp

lemma cut_at_Some_append: "cut_at s sep = Some (a, b) \<Longrightarrow> s = a @ sep @ b"
proof (induction s arbitrary: a)
  case Nil
  then show ?case by (auto simp: cut_at_Nil split: if_splits)
next
  case (Cons c s)
  show ?case
  proof (cases "prefix sep (c # s)")
    case True
    with Cons.prems show ?thesis by (auto simp: cut_at_Cons prefix_def)
  next
    case False
    with Cons.prems obtain a' where "cut_at s sep = Some (a', b)" "a = c # a'"
      by (auto simp: cut_at_Cons)
    with Cons.IH show ?thesis by simp
  qed
qed

lemma cut_at_Some_sublist:
  assumes "cut_at s sep = Some (a, b)"
  shows "sublist a s" and "sublist b s"
proof -
  have s: "s = a @ sep @ b" using assms by (rule cut_at_Some_append)
  then show "sublist a s" by simp
  have "s = (a @ sep) @ b" using s by simp
  then show "sublist b s" by (metis sublist_appendI append_Nil2)
qed

lemma cut_at_None_iff: "cut_at s sep = None \<longleftrightarrow> \<not> contains s sep"
  by (induction s) (auto simp: cut_at_Nil cut_at_Cons contains_Cons)

lemma cut_at_char_absent: "c \<notin> set a \<Longrightarrow> cut_at (a @ c # b) [c] = Some (a, b)"
  by (induction a) (auto simp: cut_at_Cons)

lemma cut_at_char_None [simp]: "c \<notin> set a \<Longrightarrow> cut_at a [c] = None"
  by (induction a) (auto simp: cut_at_Nil cut_at_Cons)

text \<open>\<open>strings.TrimSuffix\<close>, \<open>strings.Trim\<close> with a set of ASCII characters, \<open>strings.Repeat\<close>.\<close>

definition trim_suffix :: "string \<Rightarrow> string \<Rightarrow> string" where
  "trim_suffix s suf = (if suffix suf s then take (length s - length suf) s else s)"

definition trim_cutset :: "string \<Rightarrow> string \<Rightarrow> string" where
  "trim_cutset s cs =
     rev (dropWhile (\<lambda>c. c \<in> set cs) (rev (dropWhile (\<lambda>c. c \<in> set cs) s)))"

definition repeat_str :: "string \<Rightarrow> nat \<Rightarrow> string" where
  "repeat_str s n = concat (replicate n s)"

lemma trim_suffix_append [simp]: "trim_suffix (s @ suf) suf = s"
  by (simp add: trim_suffix_def suffix_def)

section \<open>Integers in text\<close>

text \<open>\<open>strconv.Itoa\<close>, and \<open>strconv.Atoi\<close> (\<open>None\<close>: a syntax or range error).\<close>

definition digit_char :: "nat \<Rightarrow> char" where
  "digit_char d = char_of (48 + d)"

fun show_nat :: "nat \<Rightarrow> string" where
  "show_nat n = (if n < 10 then [digit_char n] else show_nat (n div 10) @ [digit_char (n mod 10)])"

declare show_nat.simps [simp del]

definition itoa :: "int \<Rightarrow> string" where
  "itoa n = (if n < 0 then CHR ''-'' # show_nat (nat (- n)) else show_nat (nat n))"

definition digits_val :: "string \<Rightarrow> nat" where
  "digits_val s = foldl (\<lambda>a c. 10 * a + (byte_val c - 48)) 0 s"

definition parse_digits :: "string \<Rightarrow> nat option" where
  "parse_digits s = (if s \<noteq> [] \<and> list_all is_digit s then Some (digits_val s) else None)"

definition atoi :: "string \<Rightarrow> int option" where
  "atoi s =
     (case s of
        [] \<Rightarrow> None
      | c # t \<Rightarrow>
          let neg = (c = CHR ''-'');
              body = (if neg \<or> c = CHR ''+'' then t else s)
          in case parse_digits body of
               None \<Rightarrow> None
             | Some n \<Rightarrow>
                 let v = (if neg then - int n else int n)
                 in if int64_range v then Some v else None)"

lemma digit_char_props:
  assumes "d < 10"
  shows "is_digit (digit_char d)" and "byte_val (digit_char d) = 48 + d"
  using assms by (simp_all add: is_digit_def in_bytes_def digit_char_def)

lemma show_nat_props:
  "show_nat n \<noteq> [] \<and> list_all is_digit (show_nat n) \<and> digits_val (show_nat n) = n"
proof (induction n rule: show_nat.induct)
  case (1 n)
  show ?case
  proof (cases "n < 10")
    case True
    then show ?thesis
      by (simp add: show_nat.simps [of n] digit_char_props digits_val_def)
  next
    case False
    with 1 show ?thesis
      by (simp add: show_nat.simps [of n] digit_char_props digits_val_def)
  qed
qed

lemma digit_not_sign: "is_digit c \<Longrightarrow> c \<noteq> CHR ''-'' \<and> c \<noteq> CHR ''+''"
  by (auto simp: is_digit_def in_bytes_def byte_val_def)

lemma parse_digits_show_nat [simp]: "parse_digits (show_nat n) = Some n"
  using show_nat_props [of n] by (simp add: parse_digits_def)

lemma atoi_itoa [simp]: "int64_range n \<Longrightarrow> atoi (itoa n) = Some n"
proof (cases "n < 0")
  case True
  assume "int64_range n"
  with True show ?thesis by (simp add: atoi_def itoa_def)
next
  case False
  assume r: "int64_range n"
  obtain c t where ct: "show_nat (nat n) = c # t"
    using show_nat_props [of "nat n"] by (cases "show_nat (nat n)") auto
  have "is_digit c" using show_nat_props [of "nat n"] ct by simp
  then have "c \<noteq> CHR ''-''" "c \<noteq> CHR ''+''" using digit_not_sign by auto
  with False r ct parse_digits_show_nat [of "nat n"] show ?thesis
    by (simp add: atoi_def itoa_def)
qed

lemma itoa_nonempty [simp]: "itoa n \<noteq> []"
  using show_nat_props by (auto simp: itoa_def)

lemma itoa_chars: "c \<in> set (itoa n) \<Longrightarrow> is_digit c \<or> c = CHR ''-''"
  using show_nat_props by (auto simp: itoa_def list_all_iff split: if_splits)

lemma itoa_inject:
  assumes "int64_range m" and "int64_range n"
  shows "itoa m = itoa n \<longleftrightarrow> m = n"
proof
  assume "itoa m = itoa n"
  then have "atoi (itoa m) = atoi (itoa n)" by simp
  with assms show "m = n" by simp
qed simp

text \<open>\<open>strconv.ParseBool\<close> (\<open>None\<close>: a syntax error).\<close>

definition parse_bool :: "string \<Rightarrow> bool option" where
  "parse_bool s =
     (if s \<in> set [''1'', ''t'', ''T'', ''true'', ''TRUE'', ''True''] then Some True
      else if s \<in> set [''0'', ''f'', ''F'', ''false'', ''FALSE'', ''False''] then Some False
      else None)"


text \<open>
  \<open>%q\<close> of \<open>fmt\<close> (\<open>strconv.Quote\<close>) on ASCII text: the short escapes, two hexadecimal digits
  for the other control characters.
\<close>

definition hex_char :: "nat \<Rightarrow> char" where
  "hex_char d = (if d < 10 then char_of (48 + d) else char_of (87 + d))"

definition quote_char :: "char \<Rightarrow> string" where
  "quote_char c =
     (let n = byte_val c in
      if n = 34 then [CHR 0x5C, c]
      else if n = 92 then [CHR 0x5C, c]
      else if n = 7 then [CHR 0x5C, CHR ''a'']
      else if n = 8 then [CHR 0x5C, CHR ''b'']
      else if n = 12 then [CHR 0x5C, CHR ''f'']
      else if n = 10 then [CHR 0x5C, CHR ''n'']
      else if n = 13 then [CHR 0x5C, CHR ''r'']
      else if n = 9 then [CHR 0x5C, CHR ''t'']
      else if n = 11 then [CHR 0x5C, CHR ''v'']
      else if n < 32 \<or> n = 127 then
        [CHR 0x5C, CHR ''x'', hex_char (n div 16), hex_char (n mod 16)]
      else [c])"

definition quote_go :: "string \<Rightarrow> string" where
  "quote_go s = [CHR 0x22] @ concat (map quote_char s) @ [CHR 0x22]"

section \<open>More on trimming\<close>

text \<open>The \<open>*NumError\<close> of \<open>strconv\<close>: a syntax error or, for well-formed digits, a range error.\<close>

definition int_syntax :: "string \<Rightarrow> bool" where
  "int_syntax s =
     (let body = (if s \<noteq> [] \<and> (hd s = CHR ''-'' \<or> hd s = CHR ''+'') then tl s else s)
      in body \<noteq> [] \<and> list_all is_digit body)"

definition num_error :: "string \<Rightarrow> string \<Rightarrow> go_error" where
  "num_error func s = Err (''strconv.'' @ func @ '': parsing '' @ quote_go s @
     (if int_syntax s then '': value out of range'' else '': invalid syntax''))"

text \<open>\<open>%-*s\<close> of \<open>fmt\<close> on ASCII text.\<close>

definition pad_right :: "nat \<Rightarrow> string \<Rightarrow> string" where
  "pad_right w s = s @ replicate (w - length s) CHR '' ''"

lemma space_len_prefix: "prefix p t \<Longrightarrow> space_len t = 0 \<Longrightarrow> space_len p = 0"
proof -
  assume "prefix p t" and t: "space_len t = 0"
  then obtain r where r: "t = p @ r" by (auto simp: prefix_def)
  show "space_len p = 0"
  proof (cases p)
    case Nil
    then show ?thesis by simp
  next
    case p1: (Cons a p')
    show ?thesis
    proof (cases p')
      case Nil
      with p1 t r show ?thesis by (auto split: list.splits if_splits)
    next
      case p2: (Cons b p'')
      with p1 t r show ?thesis by (cases p'') (auto split: list.splits if_splits)
    qed
  qed
qed

lemma trim_space_prefix: "prefix (trim_space s) (trim_left s)"
  using trim_right_rev_suffix [of "rev (trim_left s)"]
  by (simp add: trim_space_def suffix_to_prefix)

lemma space_len_trim_space [simp]: "space_len (trim_space s) = 0"
  by (rule space_len_prefix [OF trim_space_prefix trim_left_result])

lemma space_len_rev_trim_space [simp]: "space_len_rev (rev (trim_space s)) = 0"
  by (simp add: trim_space_def trim_right_rev_result)

lemma trim_space_idem [simp]: "trim_space (trim_space s) = trim_space s"
  by (rule trim_space_no_space) simp_all

lemma split_fields_aux_acc: "acc \<noteq> [] \<Longrightarrow> split_fields_aux acc s \<noteq> []"
proof (induction acc s rule: split_fields_aux.induct)
  case (1 acc s)
  then show ?case
    by (subst split_fields_aux.simps) (auto split: if_splits)
qed

lemma split_fields_trim_space: "trim_space s \<noteq> [] \<Longrightarrow> split_fields (trim_space s) \<noteq> []"
  unfolding split_fields_def by (subst split_fields_aux.simps) (simp add: split_fields_aux_acc)


text \<open>Trimming removes bytes of white-space runes only.\<close>

definition space_byte :: "char \<Rightarrow> bool" where
  "space_byte c \<longleftrightarrow> ascii_space c \<or> 128 \<le> byte_val c"

lemma space_len_bytes: "c \<in> set (take (space_len s) s) \<Longrightarrow> space_byte c"
  by (cases s rule: space_len.cases)
    (auto simp: space_byte_def space2_def space3_def split: if_splits list.splits)

lemma space_len_rev_bytes: "c \<in> set (take (space_len_rev s) s) \<Longrightarrow> space_byte c"
  by (cases s rule: space_len_rev.cases)
    (auto simp: space_byte_def space2_def space3_def split: if_splits list.splits)

lemma trim_left_keeps: "c \<in> set s \<Longrightarrow> \<not> space_byte c \<Longrightarrow> c \<in> set (trim_left s)"
proof (induction s rule: trim_left.induct)
  case (1 s)
  have "c \<in> set (take (space_len s) s) \<or> c \<in> set (drop (space_len s) s)"
    using 1(2) by (metis Un_iff append_take_drop_id set_append)
  with 1 space_len_bytes show ?case by (subst trim_left.simps) auto
qed

lemma trim_right_rev_keeps: "c \<in> set s \<Longrightarrow> \<not> space_byte c \<Longrightarrow> c \<in> set (trim_right_rev s)"
proof (induction s rule: trim_right_rev.induct)
  case (1 s)
  have "c \<in> set (take (space_len_rev s) s) \<or> c \<in> set (drop (space_len_rev s) s)"
    using 1(2) by (metis Un_iff append_take_drop_id set_append)
  with 1 space_len_rev_bytes show ?case by (subst trim_right_rev.simps) auto
qed

lemma trim_space_keeps: "c \<in> set s \<Longrightarrow> \<not> space_byte c \<Longrightarrow> c \<in> set (trim_space s)"
  using trim_right_rev_keeps [of c "rev (trim_left s)"] trim_left_keeps [of c s]
  by (simp add: trim_space_def)

lemma space_len_solid: "\<not> space_byte c \<Longrightarrow> space_len (c # s) = 0"
  by (auto simp: space_byte_def space2_def space3_def split: list.splits)

lemma space_len_rev_solid: "\<not> space_byte c \<Longrightarrow> space_len_rev (c # s) = 0"
  by (auto simp: space_byte_def space2_def space3_def split: list.splits)

text \<open>Nothing is trimmed between two bytes that are not of white space.\<close>

lemma trim_space_solid:
  "\<not> space_byte (hd s) \<Longrightarrow> \<not> space_byte (last s) \<Longrightarrow> s \<noteq> [] \<Longrightarrow> trim_space s = s"
  by (metis trim_space_no_space space_len_solid space_len_rev_solid list.collapse hd_rev rev_is_Nil_conv)

lemma trim_space_snoc_ascii:
  assumes "trim_space s = s" and "s \<noteq> []" and "\<not> space_byte (hd s)" and "ascii_space c"
  shows "trim_space (s @ [c]) = s"
proof -
  have "space_len (s @ [c]) = 0"
    using assms(2,3) space_len_solid [of "hd s" "tl s @ [c]"] by (cases s) auto
  moreover have "space_len_rev (rev s) = 0" using space_len_rev_trim_space [of s] assms(1) by simp
  ultimately show ?thesis
    using assms(4)
    by (simp add: trim_space_def trim_left_no_space trim_right_rev.simps [of "c # rev s"]
        trim_right_rev.simps [of "rev s"])
qed

text \<open>\<open>strings.Cut\<close> finds a separator where it stands if none stands before.\<close>

lemma cut_at_first:
  assumes "c \<notin> set sep" and "\<not> contains s sep"
  shows "cut_at (s @ c # sep @ r) sep = Some (s @ [c], r)"
  using assms(2)
proof (induction s)
  case Nil
  then obtain x xs where sep: "sep = x # xs" by (cases sep) auto
  have "cut_at (sep @ r) sep = Some ([], r)" by (simp add: cut_at.simps)
  with sep assms(1) show ?case by (auto simp: cut_at_Cons)
next
  case (Cons a s)
  have "\<not> prefix sep (a # s @ c # sep @ r)"
  proof
    assume p: "prefix sep (a # s @ c # sep @ r)"
    then have "prefix sep (a # s) \<or> prefix (a # s) sep"
      by (rule prefix_same_cases) simp
    then obtain ys where ys: "sep = (a # s) @ ys"
      using Cons.prems by (auto simp: contains_Cons prefix_def)
    show False
    proof (cases ys)
      case Nil
      with ys Cons.prems show False by (auto simp: contains_Cons)
    next
      case (Cons y zs)
      with p ys assms(1) show False by simp
    qed
  qed
  with Cons show ?case by (auto simp: cut_at_Cons contains_Cons)
qed

lemma cut_at_absent: "\<not> contains s sep \<Longrightarrow> cut_at s sep = None"
  by (simp add: cut_at_None_iff)

end
