(* ===== verification/SqlScan.thy ===== *)
theory SqlScan imports GoStrings begin

text \<open>
  The two hand-written SQL scanners: \<open>hasMultipleStatements\<close> of \<open>internal/storage/query.go\<close>,
  which guards \<open>RawSQL\<close>, and \<open>scanTopLevel\<close> of \<open>internal/agent/agent.go\<close>, which guards the
  agent's answers, with the helpers each file has of its own. An index \<open>i\<close> into the fixed text
  \<open>sql\<close> is represented by the rest \<open>sql[i:]\<close>; a helper that returns an index returns the rest
  from there. Both scanners jump from token to token. They are proved equal to a reference that
  reads one character at a time through the modes of SQL's lexical grammar, and the agent's
  scanner is shown to be at least as strict as the store's.
\<close>

section \<open>The helpers\<close>

abbreviation (input) quote_sq :: char where "quote_sq \<equiv> CHR 0x27"
abbreviation (input) quote_dq :: char where "quote_dq \<equiv> CHR 0x22"
abbreviation (input) newline :: char where "newline \<equiv> CHR 0x0A"

fun skip_quoted :: "string \<Rightarrow> char \<Rightarrow> string" where
  "skip_quoted [] q = []"
| "skip_quoted (c # s) q =
     (if c = q then
        (case s of
           d # t \<Rightarrow> if d = q then skip_quoted t q else s
         | [] \<Rightarrow> s)
      else skip_quoted s q)"

fun skip_until :: "string \<Rightarrow> char \<Rightarrow> string" where
  "skip_until [] e = []"
| "skip_until (c # s) e = (if c = e then s else skip_until s e)"

text \<open>The comment loops: to the newline, which stays; to past the closing \<open>*/\<close> while two
  characters are left.\<close>

fun skip_line :: "string \<Rightarrow> string" where
  "skip_line [] = []"
| "skip_line (c # s) = (if c = newline then c # s else skip_line s)"

fun skip_block :: "string \<Rightarrow> string" where
  "skip_block (a # b # s) =
     (if a = CHR ''*'' \<and> b = CHR ''/'' then s else skip_block (b # s))"
| "skip_block s = s"

lemma skip_quoted_length: "length (skip_quoted s q) \<le> length s"
proof (induction s q rule: skip_quoted.induct)
  case (2 c s q)
  then show ?case by (cases s) (simp_all add: le_SucI)
qed simp

lemma skip_until_length: "length (skip_until s e) \<le> length s"
  by (induction s e rule: skip_until.induct) (simp_all add: le_SucI)

lemma skip_line_length: "length (skip_line s) \<le> length s"
  by (induction s) (simp_all add: le_SucI)

lemma skip_block_length: "length (skip_block s) \<le> length s"
  by (induction s rule: skip_block.induct) (simp_all add: le_SucI)

lemmas skip_lengths = skip_quoted_length skip_until_length skip_line_length skip_block_length

section \<open>hasMultipleStatements\<close>

text \<open>The loop of \<open>hasMultipleStatements\<close> from a given parenthesis depth.\<close>

function hms_loop :: "nat \<Rightarrow> string \<Rightarrow> bool" where
  "hms_loop depth [] = False"
| "hms_loop depth (c # s) =
     (if c = quote_sq then hms_loop depth (skip_quoted s quote_sq)
      else if c = quote_dq then hms_loop depth (skip_quoted s quote_dq)
      else if c = CHR ''['' then hms_loop depth (skip_until s CHR '']'')
      else if c = CHR ''-'' \<and> s \<noteq> [] \<and> hd s = CHR ''-'' then hms_loop depth (skip_line s)
      else if c = CHR ''/'' \<and> s \<noteq> [] \<and> hd s = CHR ''*'' then hms_loop depth (skip_block (tl s))
      else if c = CHR ''('' then hms_loop (Suc depth) s
      else if c = CHR '')'' then hms_loop (if depth > 0 then depth - 1 else depth) s
      else if c = CHR '';'' then (if trim_space s \<noteq> [] then True else hms_loop depth s)
      else hms_loop depth s)"
  by pat_completeness auto
termination
  by (relation "measure (\<lambda>(d, s). length s)")
    (auto simp: less_Suc_eq_le skip_lengths intro: order.trans [OF skip_block_length])

definition has_multiple_statements :: "string \<Rightarrow> bool" where
  "has_multiple_statements sql = hms_loop 0 sql"

section \<open>scanTopLevel\<close>

definition is_ident_start :: "char \<Rightarrow> bool" where
  "is_ident_start b \<longleftrightarrow> b = CHR ''_'' \<or> in_bytes 65 90 b \<or> in_bytes 97 122 b"

definition is_ident_part :: "char \<Rightarrow> bool" where
  "is_ident_part b \<longleftrightarrow> is_ident_start b \<or> in_bytes 48 57 b"

definition statement_starters :: "string list" where
  "statement_starters = [''SELECT'', ''INSERT'', ''UPDATE'', ''DELETE'', ''REPLACE'']"

text \<open>The loop of \<open>scanTopLevel\<close>, with the starters found so far in reverse.\<close>

function scan_loop :: "nat \<Rightarrow> string list \<Rightarrow> string \<Rightarrow> string list \<times> bool" where
  "scan_loop depth acc [] = (rev acc, False)"
| "scan_loop depth acc (c # s) =
     (if c = quote_sq then scan_loop depth acc (skip_quoted s quote_sq)
      else if c = quote_dq then scan_loop depth acc (skip_quoted s quote_dq)
      else if c = CHR ''['' then scan_loop depth acc (skip_until s CHR '']'')
      else if c = CHR ''-'' \<and> s \<noteq> [] \<and> hd s = CHR ''-'' then scan_loop depth acc (skip_line s)
      else if c = CHR ''/'' \<and> s \<noteq> [] \<and> hd s = CHR ''*'' then
        scan_loop depth acc (skip_block (tl s))
      else if c = CHR ''('' then scan_loop (Suc depth) acc s
      else if c = CHR '')'' then scan_loop (if depth > 0 then depth - 1 else depth) acc s
      else if c = CHR '';'' then (rev acc, True)
      else if depth = 0 \<and> is_ident_start c then
        (let w = to_upper (takeWhile is_ident_part (c # s))
         in scan_loop depth (if w \<in> set statement_starters then w # acc else acc)
              (dropWhile is_ident_part s))
      else scan_loop depth acc s)"
  by pat_completeness auto
termination
  by (relation "measure (\<lambda>(d, a, s). length s)")
    (auto simp: less_Suc_eq_le skip_lengths length_dropWhile_le
      intro: order.trans [OF skip_block_length])

definition scan_top_level :: "string \<Rightarrow> string list \<times> bool" where
  "scan_top_level sql = scan_loop 0 [] sql"

declare hms_loop.simps(2) [simp del] scan_loop.simps(2) [simp del]


section \<open>The reference: lexical modes, one character at a time\<close>

text \<open>
  The modes of the lexical grammar the scanners know: code (with the first character of a
  possible comment opener remembered), single-quoted strings, double-quoted and bracketed
  identifiers, and the two kinds of comment. A doubled quote needs no rule of its own: it
  leaves the string and enters it again.
\<close>

datatype lex_mode = Code | Dash | Slash | InSq | InDq | InBr | InLine | InBlock | InBlockStar

fun lex_code :: "char \<Rightarrow> lex_mode" where
  "lex_code c =
     (if c = quote_sq then InSq
      else if c = quote_dq then InDq
      else if c = CHR ''['' then InBr
      else if c = CHR ''-'' then Dash
      else if c = CHR ''/'' then Slash
      else Code)"

fun lex_step :: "lex_mode \<Rightarrow> char \<Rightarrow> lex_mode" where
  "lex_step Code c = lex_code c"
| "lex_step Dash c = (if c = CHR ''-'' then InLine else lex_code c)"
| "lex_step Slash c = (if c = CHR ''*'' then InBlock else lex_code c)"
| "lex_step InSq c = (if c = quote_sq then Code else InSq)"
| "lex_step InDq c = (if c = quote_dq then Code else InDq)"
| "lex_step InBr c = (if c = CHR '']'' then Code else InBr)"
| "lex_step InLine c = (if c = newline then Code else InLine)"
| "lex_step InBlock c = (if c = CHR ''*'' then InBlockStar else InBlock)"
| "lex_step InBlockStar c =
     (if c = CHR ''/'' then Code else if c = CHR ''*'' then InBlockStar else InBlock)"

definition mode_after :: "string \<Rightarrow> lex_mode" where
  "mode_after s = foldl lex_step Code s"

definition in_code :: "lex_mode \<Rightarrow> bool" where
  "in_code m \<longleftrightarrow> m \<in> {Code, Dash, Slash}"

definition in_block :: "lex_mode \<Rightarrow> bool" where
  "in_block m \<longleftrightarrow> m \<in> {InBlock, InBlockStar}"

text \<open>
  A separator: a semicolon in code whose rest satisfies \<open>P\<close>. The block-comment loop of both
  scanners stops one character before the end of the text, so they also read the last
  character of an unterminated block comment as code; \<open>sep_ref\<close> says so.
\<close>

fun sep_ref :: "(string \<Rightarrow> bool) \<Rightarrow> lex_mode \<Rightarrow> string \<Rightarrow> bool" where
  "sep_ref P m [] = False"
| "sep_ref P m (c # s) =
     ((in_code m \<or> in_block m \<and> s = []) \<and> c = CHR '';'' \<and> P s \<or> sep_ref P (lex_step m c) s)"

lemma in_code_simps [simp]:
  "in_code Code" "in_code Dash" "in_code Slash" "\<not> in_code InSq" "\<not> in_code InDq"
  "\<not> in_code InBr" "\<not> in_code InLine" "\<not> in_code InBlock" "\<not> in_code InBlockStar"
  by (simp_all add: in_code_def)

lemma in_block_simps [simp]:
  "\<not> in_block Code" "\<not> in_block Dash" "\<not> in_block Slash" "\<not> in_block InSq" "\<not> in_block InDq"
  "\<not> in_block InBr" "\<not> in_block InLine" "in_block InBlock" "in_block InBlockStar"
  by (simp_all add: in_block_def)

lemma sep_ref_exists:
  "sep_ref P m s \<longleftrightarrow>
     (\<exists>a b. s = a @ CHR '';'' # b \<and> P b \<and>
        (in_code (foldl lex_step m a) \<or> in_block (foldl lex_step m a) \<and> b = []))"
proof (induction s arbitrary: m)
  case Nil
  then show ?case by simp
next
  case (Cons c s)
  have "(\<exists>a b. c # s = a @ CHR '';'' # b \<and> P b \<and>
          (in_code (foldl lex_step m a) \<or> in_block (foldl lex_step m a) \<and> b = [])) \<longleftrightarrow>
        (c = CHR '';'' \<and> P s \<and> (in_code m \<or> in_block m \<and> s = [])) \<or>
        (\<exists>a b. s = a @ CHR '';'' # b \<and> P b \<and>
          (in_code (foldl lex_step (lex_step m c) a) \<or>
           in_block (foldl lex_step (lex_step m c) a) \<and> b = []))"
    (is "?L \<longleftrightarrow> ?R1 \<or> ?R2")
  proof
    assume ?L
    then obtain a b where ab: "c # s = a @ CHR '';'' # b" "P b"
      "in_code (foldl lex_step m a) \<or> in_block (foldl lex_step m a) \<and> b = []" by blast
    then show "?R1 \<or> ?R2" by (cases a) auto
  next
    assume "?R1 \<or> ?R2"
    then show ?L
    proof
      assume ?R1
      then show ?L by (intro exI [of _ "[]"] exI [of _ s]) auto
    next
      assume ?R2
      then obtain a b where "s = a @ CHR '';'' # b" "P b"
        "in_code (foldl lex_step (lex_step m c) a) \<or>
         in_block (foldl lex_step (lex_step m c) a) \<and> b = []" by blast
      then show ?L by (intro exI [of _ "c # a"] exI [of _ b]) auto
    qed
  qed
  then show ?case using Cons.IH [of "lex_step m c"] by auto
qed

subsection \<open>Each skip is a run of the modes\<close>

lemma sep_ref_sq: "sep_ref P InSq s = sep_ref P Code (skip_quoted s quote_sq)"
  by (induction s quote_sq rule: skip_quoted.induct) (auto split: list.splits)

lemma sep_ref_dq: "sep_ref P InDq s = sep_ref P Code (skip_quoted s quote_dq)"
  by (induction s quote_dq rule: skip_quoted.induct) (auto split: list.splits)

lemma sep_ref_br: "sep_ref P InBr s = sep_ref P Code (skip_until s CHR '']'')"
  by (induction s "CHR '']''" rule: skip_until.induct) auto

lemma sep_ref_line: "sep_ref P InLine s = sep_ref P Code (skip_line s)"
  by (induction s) auto

lemma sep_ref_block_star:
  "sep_ref P InBlock s = sep_ref P Code (skip_block s) \<and>
   sep_ref P InBlockStar s = sep_ref P Code (skip_block (CHR ''*'' # s))"
proof (induction s)
  case Nil
  then show ?case by simp
next
  case (Cons a s)
  then show ?case by (cases s) auto
qed

lemmas sep_ref_block = sep_ref_block_star [THEN conjunct1]

lemma sep_ref_dash: "s = [] \<or> hd s \<noteq> CHR ''-'' \<Longrightarrow> sep_ref P Dash s = sep_ref P Code s"
  by (cases s) auto

lemma sep_ref_slash: "s = [] \<or> hd s \<noteq> CHR ''*'' \<Longrightarrow> sep_ref P Slash s = sep_ref P Code s"
  by (cases s) auto

lemma sep_ref_dash_line: "s \<noteq> [] \<Longrightarrow> hd s = CHR ''-'' \<Longrightarrow>
    sep_ref P Dash s = sep_ref P Code (skip_line s)"
  by (cases s) (auto simp: sep_ref_line)

lemma sep_ref_slash_block: "s \<noteq> [] \<Longrightarrow> hd s = CHR ''*'' \<Longrightarrow>
    sep_ref P Slash s = sep_ref P Code (skip_block (tl s))"
  by (cases s) (auto simp: sep_ref_block)

lemma ident_part_not_special:
  assumes "is_ident_part c"
  shows "c \<noteq> quote_sq" and "c \<noteq> quote_dq" and "c \<noteq> CHR ''[''" and "c \<noteq> CHR ''-''"
    and "c \<noteq> CHR ''/''" and "c \<noteq> CHR '';''" and "c \<noteq> CHR ''(''" and "c \<noteq> CHR '')''"
  using assms by (auto simp: is_ident_part_def is_ident_start_def in_bytes_def byte_val_def)

lemma ident_part_code:
  assumes "is_ident_part c"
  shows "lex_code c = Code"
  using ident_part_not_special [OF assms] by simp

lemma not_ident_start: "\<not> is_ident_start CHR ''-''" "\<not> is_ident_start CHR ''/''"
  by (simp_all add: is_ident_start_def in_bytes_def byte_val_def)

lemma ident_start_part: "is_ident_start c \<Longrightarrow> is_ident_part c"
  by (simp add: is_ident_part_def)

lemma sep_ref_ident: "sep_ref P Code (dropWhile is_ident_part s) = sep_ref P Code s"
  by (induction s) (auto simp: ident_part_code ident_part_not_special simp del: lex_code.simps)

lemma sep_ref_ident_start:
  "is_ident_start c \<Longrightarrow> sep_ref P Code (c # s) = sep_ref P Code (dropWhile is_ident_part s)"
  using sep_ref_ident [of P "c # s"] ident_start_part by simp

subsection \<open>Both scanners agree with the reference\<close>

lemma hms_loop_sep_ref:
  "hms_loop depth s = sep_ref (\<lambda>b. trim_space b \<noteq> []) Code s"
proof (induction depth s rule: hms_loop.induct)
  case (1 depth)
  then show ?case by simp
next
  case (2 depth c s)
  show ?case
    by (subst hms_loop.simps(2))
      (auto simp: 2 sep_ref_sq sep_ref_dq sep_ref_br sep_ref_dash_line sep_ref_slash_block
        sep_ref_dash sep_ref_slash)
qed

lemma scan_loop_sep_ref:
  "snd (scan_loop depth acc s) = sep_ref (\<lambda>b. True) Code s"
proof (induction depth acc s rule: scan_loop.induct)
  case (1 depth acc)
  then show ?case by simp
next
  case (2 depth acc c s)
  show ?case
  proof (cases "depth = 0 \<and> is_ident_start c")
    case True
    note special = ident_part_not_special [OF ident_start_part [OF conjunct2 [OF True]]]
    let ?w = "to_upper (takeWhile is_ident_part (c # s))"
    have IH: "snd (scan_loop depth (if ?w \<in> set statement_starters then ?w # acc else acc)
        (dropWhile is_ident_part s)) = sep_ref (\<lambda>b. True) Code (dropWhile is_ident_part s)"
      using True special by (intro 2(8) [OF _ _ _ _ _ _ _ _ _ refl]) auto
    have "snd (scan_loop depth acc (c # s)) =
        sep_ref (\<lambda>b. True) Code (dropWhile is_ident_part s)"
      using True special IH [symmetric] by (subst scan_loop.simps(2)) (simp only: Let_def, simp)
    with True show ?thesis by (simp only: sep_ref_ident_start)
  next
    case False
    then show ?thesis
      by (subst scan_loop.simps(2))
        (auto simp: 2(1-7,9) not_ident_start sep_ref_sq sep_ref_dq sep_ref_br sep_ref_dash_line
          sep_ref_slash_block sep_ref_dash sep_ref_slash)
  qed
qed


section \<open>SQLite's own lexical grammar\<close>

text \<open>
  SQLite also quotes identifiers with grave accents, which neither scanner knows. The mode
  \<open>None\<close> is inside such an identifier; the others are as above.
\<close>

abbreviation (input) grave :: char where "grave \<equiv> CHR 0x60"

fun sqlite_step :: "lex_mode option \<Rightarrow> char \<Rightarrow> lex_mode option" where
  "sqlite_step None c = (if c = grave then Some Code else None)"
| "sqlite_step (Some m) c =
     (if in_code m \<and> c = grave then None else Some (lex_step m c))"

definition sqlite_mode :: "string \<Rightarrow> lex_mode option" where
  "sqlite_mode s = foldl sqlite_step (Some Code) s"

text \<open>A text that is one statement: nothing but white space after a semicolon in code.\<close>

definition sqlite_single :: "string \<Rightarrow> bool" where
  "sqlite_single q \<longleftrightarrow>
     \<not> (\<exists>a b m. q = a @ CHR '';'' # b \<and> trim_space b \<noteq> [] \<and>
          sqlite_mode a = Some m \<and> in_code m)"

lemma sqlite_mode_no_grave:
  "grave \<notin> set s \<Longrightarrow> foldl sqlite_step (Some m) s = Some (foldl lex_step m s)"
  by (induction s arbitrary: m) auto

lemma has_multiple_statements_iff:
  "has_multiple_statements sql \<longleftrightarrow>
     (\<exists>a b. sql = a @ CHR '';'' # b \<and> in_code (mode_after a) \<and> trim_space b \<noteq> [])"
  unfolding has_multiple_statements_def hms_loop_sep_ref sep_ref_exists mode_after_def by auto

lemma sqlite_single_no_grave:
  assumes "grave \<notin> set q"
  shows "sqlite_single q \<longleftrightarrow> \<not> has_multiple_statements q"
proof -
  have "sqlite_mode a = Some (mode_after a)" if "q = a @ b" for a b
    using assms that by (simp add: sqlite_mode_def mode_after_def sqlite_mode_no_grave)
  then show ?thesis
    unfolding sqlite_single_def has_multiple_statements_iff by (metis option.inject)
qed

end
