(* ===== verification/Agent.thy ===== *)
theory Agent imports SqlScan begin

text \<open>
  The agent bridge, \<open>internal/agent/agent.go\<close>: resolving an agent command, building its
  prompt, and taking one read-only \<open>SELECT\<close> out of its answer. Looking a command up on PATH
  and running it belong to the operating system and are the parameters \<open>look_path\<close> and
  \<open>run_cmd\<close>; \<open>schema_doc\<close> is the generated schema text the prompt embeds.
\<close>

section \<open>Agents\<close>

record agent =
  agent_name :: string
  agent_argv :: "string list"

definition known_agents :: "string \<rightharpoonup> string list" where
  "known_agents =
     [''claude'' \<mapsto> [''claude'', ''-p''],
      ''codex'' \<mapsto> [''codex'', ''exec''],
      ''cursor'' \<mapsto> [''cursor-agent'', ''-p''],
      ''gemini'' \<mapsto> [''gemini'', ''-p'']]"

definition auto_order :: "string list" where
  "auto_order = [''claude'', ''codex'', ''cursor'', ''gemini'']"

text \<open>The loop of \<open>Resolve("auto")\<close>: the first name of the order whose command is found.\<close>

fun resolve_auto :: "(string \<Rightarrow> bool) \<Rightarrow> string list \<Rightarrow> agent option result" where
  "resolve_auto look_path [] =
     Inl (Err (''no known agent CLI found on PATH (looked for: '' @ join '', '' auto_order @ '')''))"
| "resolve_auto look_path (name # names) =
     (case known_agents name of
        None \<Rightarrow> Inl (Panic ''index out of range'')
      | Some argv \<Rightarrow>
          if look_path (hd argv) then Inr (Some \<lparr>agent_name = name, agent_argv = argv\<rparr>)
          else resolve_auto look_path names)"

definition resolve :: "(string \<Rightarrow> bool) \<Rightarrow> string \<Rightarrow> agent option result" where
  "resolve look_path spec0 =
     (let spec = trim_space spec0 in
      if spec = [] then Inr None
      else if spec = ''auto'' then resolve_auto look_path auto_order
      else case known_agents spec of
        Some argv \<Rightarrow>
          if look_path (hd argv) then Inr (Some \<lparr>agent_name = spec, agent_argv = argv\<rparr>)
          else Inl (Err (''agent '' @ quote_go spec @ '': '' @ quote_go (hd argv) @
                 '' not found on PATH''))
      | None \<Rightarrow>
          (case split_fields spec of
             [] \<Rightarrow> Inl (Panic ''index out of range'')
           | cmd # args \<Rightarrow>
               if look_path cmd
               then Inr (Some \<lparr>agent_name = cmd, agent_argv = cmd # args\<rparr>)
               else Inl (Err (''agent command '' @ quote_go cmd @ '' not found on PATH''))))"

section \<open>Extracting the statement\<close>

abbreviation (input) fence :: string where
  "fence \<equiv> [CHR 0x60, CHR 0x60, CHR 0x60]"

text \<open>
  \<open>reSQLStart\<close>, \<open>(?is)\b(select|with)\b\<close>: the rest of the text from the first \<open>select\<close> or
  \<open>with\<close> in any case that no word character precedes or follows. \<open>prev\<close> says whether a word
  character precedes.
\<close>

definition word_ends :: "string \<Rightarrow> bool" where
  "word_ends s \<longleftrightarrow> s = [] \<or> \<not> is_ident_part (hd s)"

definition starts_word :: "string \<Rightarrow> string \<Rightarrow> bool" where
  "starts_word kw s \<longleftrightarrow> prefix kw (to_lower s) \<and> word_ends (drop (length kw) s)"

fun find_sql_start :: "bool \<Rightarrow> string \<Rightarrow> string option" where
  "find_sql_start prev [] = None"
| "find_sql_start prev (c # s) =
     (if \<not> prev \<and> (starts_word ''select'' (c # s) \<or> starts_word ''with'' (c # s))
      then Some (c # s)
      else find_sql_start (is_ident_part c) s)"

definition validate_read_only_sql :: "string \<Rightarrow> go_error option" where
  "validate_read_only_sql sql =
     (let upper = to_upper (trim_left sql);
          (starters, multi) = scan_top_level sql
      in if multi then Some (Err (''agent output contains multiple statements: '' @ take 200 sql))
         else if prefix ''SELECT'' upper then None
         else if prefix ''WITH'' upper then
           (if starters = [] \<or> hd starters \<noteq> ''SELECT''
            then Some (Err (''agent output contains a non-SELECT statement: '' @ take 200 sql))
            else None)
         else Some (Err (''agent output is not a SELECT statement: '' @ take 200 sql)))"

text \<open>The fence handling of \<open>ExtractSQL\<close>: what lies between the first two fences, without a
  language tag on the first line.\<close>

definition unfence :: "string \<Rightarrow> string" where
  "unfence s =
     (case cut_at s fence of
        None \<Rightarrow> s
      | Some (before, rest) \<Rightarrow>
          let rest' =
            (case cut_at rest [newline] of
               None \<Rightarrow> rest
             | Some (tag_line, body) \<Rightarrow>
                 let tag = to_lower (trim_space tag_line)
                 in if tag = [] \<or> tag = ''sql'' \<or> tag = ''sqlite'' then body else rest)
          in case cut_at rest' fence of
               None \<Rightarrow> s
             | Some (fenced, after) \<Rightarrow> trim_space fenced)"

definition extract_sql :: "string \<Rightarrow> string result" where
  "extract_sql out =
     (let s = unfence (trim_space out) in
      case find_sql_start False s of
        None \<Rightarrow> Inl (Err (''no SELECT statement in agent output: '' @ take 200 s))
      | Some start \<Rightarrow>
          let sql1 = trim_suffix (trim_space start) fence;
              sql = trim_space (trim_suffix (trim_space sql1) '';'')
          in case validate_read_only_sql sql of
               Some e \<Rightarrow> Inl e
             | None \<Rightarrow> Inr sql)"

section \<open>Asking the agent\<close>

definition build_prompt :: "string \<Rightarrow> string \<Rightarrow> string" where
  "build_prompt schema_doc question =
     ''Translate the question below into exactly one SQLite SELECT statement over this schema:'' @
     [newline, newline] @ schema_doc @ [newline, newline] @
     ''Rules:'' @ [newline] @
     ''- Output only the SQL statement. No markdown fences, no explanation, no commentary.'' @
     [newline] @
     ''- It must be a single SELECT (or WITH ... SELECT). The database is read-only.'' @ [newline] @
     ''- ts is unix nanoseconds; the current time is (unixepoch()*1000000000).'' @ [newline] @
     ''- Prefer ORDER BY ts DESC and add LIMIT 200 unless the question implies otherwise.'' @
     [newline, newline] @
     ''Question: '' @ question"

text \<open>
  \<open>GenerateSQL\<close>; \<open>run_cmd\<close> gives the error of the command run with an argument vector, if any,
  and what it wrote to its standard output and error.
\<close>

definition generate_sql ::
    "(string list \<Rightarrow> go_error option \<times> string \<times> string) \<Rightarrow> string \<Rightarrow> agent \<Rightarrow> string \<Rightarrow> string result"
  where
  "generate_sql run_cmd schema_doc a question =
     (let prompt = build_prompt schema_doc question;
          (err, stdout, stderr) = run_cmd (agent_argv a @ [prompt])
      in case err of
           Some e \<Rightarrow>
             let msg0 = trim_space stderr;
                 msg1 = (if msg0 = [] then trim_space stdout else msg0);
                 msg = (if length msg1 > 300 then take 300 msg1 @ ''...'' else msg1)
             in Inl (Err (''agent '' @ agent_name a @ '' failed: '' @ err_text e @ '': '' @ msg))
         | None \<Rightarrow>
             (case extract_sql stdout of
                Inl e \<Rightarrow> Inl (Err (''agent '' @ agent_name a @ '': '' @ err_text e))
              | Inr sql \<Rightarrow> Inr sql))"


section \<open>What is resolved\<close>

lemma known_agents_nonempty: "known_agents n = Some argv \<Longrightarrow> argv \<noteq> []"
  by (auto simp: known_agents_def split: if_splits)

lemma auto_order_known: "n \<in> set auto_order \<Longrightarrow> known_agents n \<noteq> None"
  by (auto simp: auto_order_def known_agents_def)

lemma resolve_auto_cases:
  assumes "set names \<subseteq> dom known_agents"
  shows "resolve_auto look_path names =
    (case find (\<lambda>n. look_path (hd (the (known_agents n)))) names of
       None \<Rightarrow> Inl (Err (''no known agent CLI found on PATH (looked for: '' @
                 join '', '' auto_order @ '')''))
     | Some n \<Rightarrow> Inr (Some \<lparr>agent_name = n, agent_argv = the (known_agents n)\<rparr>))"
  using assms by (induction names) auto

lemma resolve_auto_order:
  "resolve_auto look_path auto_order =
    (case find (\<lambda>n. look_path (hd (the (known_agents n)))) auto_order of
       None \<Rightarrow> Inl (Err (''no known agent CLI found on PATH (looked for: '' @
                 join '', '' auto_order @ '')''))
     | Some n \<Rightarrow> Inr (Some \<lparr>agent_name = n, agent_argv = the (known_agents n)\<rparr>))"
  by (rule resolve_auto_cases) (use auto_order_known in auto)

section \<open>What is extracted\<close>

lemma trim_left_trim_space [simp]: "trim_left (trim_space s) = trim_space s"
  by (simp add: trim_left_no_space)

lemma extract_sql_validated:
  assumes "extract_sql out = Inr sql"
  shows "validate_read_only_sql sql = None" and "trim_space sql = sql"
  using assms by (auto simp: extract_sql_def Let_def split: option.splits)

lemma validate_None_cases:
  assumes "validate_read_only_sql sql = None" and "trim_left sql = sql"
  shows "\<not> snd (scan_top_level sql)"
    and "prefix ''SELECT'' (to_upper sql) \<or>
      prefix ''WITH'' (to_upper sql) \<and> fst (scan_top_level sql) \<noteq> [] \<and>
      hd (fst (scan_top_level sql)) = ''SELECT''"
  using assms by (auto simp: validate_read_only_sql_def Let_def split: prod.splits if_splits)

lemma unfence_sublist: "sublist (unfence s) s"
proof (cases "cut_at s fence")
  case None
  then show ?thesis by (simp add: unfence_def)
next
  case (Some p)
  obtain before rest where p: "p = (before, rest)" by (cases p)
  have rest: "sublist rest s"
    using Some p cut_at_Some_sublist(2) by fast
  have sub: "sublist (trim_space fenced) s"
    if "sublist r rest" "cut_at r fence = Some (fenced, after)" for r fenced after
    using cut_at_Some_sublist(1) [OF that(2)] that(1) rest trim_space_sublist
    by (meson sublist_order.order.trans)
  have body: "sublist b rest" if "cut_at rest [newline] = Some (t, b)" for t b
    using that by (rule cut_at_Some_sublist(2))
  show ?thesis
    using Some p sub body
    by (auto simp: unfence_def Let_def split: option.splits)
qed

lemma find_sql_start_suffix: "find_sql_start prev s = Some t \<Longrightarrow> suffix t s"
  by (induction prev s rule: find_sql_start.induct) (auto split: if_splits intro: suffix_ConsI)

lemma trim_suffix_prefix: "prefix (trim_suffix s suf) s"
  by (simp add: trim_suffix_def take_is_prefix)

lemma extract_sql_sublist:
  assumes "extract_sql out = Inr sql"
  shows "sublist sql out"
proof -
  note trans = sublist_order.order.trans
  let ?s = "unfence (trim_space out)"
  obtain start where start: "find_sql_start False ?s = Some start"
    and sql: "sql = trim_space (trim_suffix (trim_space (trim_suffix (trim_space start) fence)) '';'')"
    using assms by (auto simp: extract_sql_def Let_def split: option.splits)
  have "sublist sql start"
    unfolding sql
    by (meson trans trim_space_sublist trim_suffix_prefix prefix_imp_sublist)
  also have "sublist start ?s" using find_sql_start_suffix [OF start] by (rule suffix_imp_sublist)
  also have "sublist ?s (trim_space out)" by (rule unfence_sublist)
  also have "sublist (trim_space out) out" by (rule trim_space_sublist)
  finally show ?thesis .
qed

text \<open>The agent's scanner is at least as strict as the store's.\<close>

lemma scan_single_hms_single:
  "\<not> snd (scan_top_level s) \<Longrightarrow> \<not> has_multiple_statements s"
  unfolding scan_top_level_def has_multiple_statements_def hms_loop_sep_ref scan_loop_sep_ref
    sep_ref_exists by auto


lemma extract_sql_not_multiple:
  assumes "extract_sql out = Inr sql"
  shows "\<not> snd (scan_top_level sql)" and "\<not> has_multiple_statements sql"
proof -
  note v = extract_sql_validated [OF assms]
  have "trim_left sql = sql" using v(2) trim_left_trim_space [of sql] by simp
  from validate_None_cases(1) [OF v(1) this] show "\<not> snd (scan_top_level sql)" .
  then show "\<not> has_multiple_statements sql" by (rule scan_single_hms_single)
qed

end
