(* ===== verification/AgentProps.thy ===== *)
theory AgentProps imports Agent begin

text \<open>
  The properties of the two SQL scanners and of the agent bridge: the scanners against the
  reference lexer, what \<open>ExtractSQL\<close> accepts and returns, which command \<open>Resolve\<close> gives.
\<close>

section \<open>The scanners\<close>


text \<open>
  \<open>scanTopLevel\<close> reports a statement separator exactly when the reference lexer meets a
  semicolon in code; the one exception is a semicolon that is the last character of an
  unterminated block comment, which it also reports.
\<close>

theorem top_level_scan_matches_lexer:
  "snd (scan_top_level sql) \<longleftrightarrow>
     (\<exists>a b. sql = a @ CHR '';'' # b \<and>
       (in_code (mode_after a) \<or> in_block (mode_after a) \<and> b = []))"
  unfolding scan_top_level_def scan_loop_sep_ref sep_ref_exists mode_after_def by auto

text \<open>A quoted identifier that is an apostrophe, the payload, and the closing apostrophe.\<close>

definition grave_payload :: "string \<Rightarrow> string" where
  "grave_payload p =
     ''SELECT 1 AS '' @ [grave, quote_sq, grave] @ ''; '' @ p @ '' --'' @ [quote_sq]"

lemma sep_ref_InSq: "quote_sq \<notin> set p \<Longrightarrow> sep_ref P InSq (p @ s) = sep_ref P InSq s"
  by (induction p) auto

text \<open>
  Grave accents are quotes of SQLite's that \<open>hasMultipleStatements\<close> does not know: behind an
  identifier that is a quoted apostrophe, any further statements pass the check as part of a
  string literal, while SQLite runs them.
\<close>

theorem grave_accent_hides_statements:
  assumes "quote_sq \<notin> set p"
  shows "\<not> has_multiple_statements (grave_payload p) \<and> \<not> sqlite_single (grave_payload p)"
proof
  show "\<not> has_multiple_statements (grave_payload p)"
    using assms
    by (simp add: has_multiple_statements_def hms_loop_sep_ref grave_payload_def sep_ref_InSq)
  let ?a = "''SELECT 1 AS '' @ [grave, quote_sq, grave]"
  let ?b = "'' '' @ p @ '' --'' @ [quote_sq]"
  have "sqlite_mode ?a = Some Code" by (simp add: sqlite_mode_def)
  have "quote_sq \<in> set (trim_space ?b)"
    by (rule trim_space_keeps) (simp_all add: space_byte_def ascii_space_def in_bytes_def byte_val_def)
  then have "trim_space ?b \<noteq> []" by auto
  moreover note \<open>sqlite_mode ?a = Some Code\<close>
  moreover have "grave_payload p = ?a @ CHR '';'' # ?b" by (simp add: grave_payload_def)
  ultimately show "\<not> sqlite_single (grave_payload p)"
    unfolding sqlite_single_def using in_code_simps(1) by blast
qed

theorem grave_accent_hides_statements_witness:
  "\<not> has_multiple_statements (grave_payload ''PRAGMA query_only=OFF; DELETE FROM events;'')"
  using grave_accent_hides_statements [of "''PRAGMA query_only=OFF; DELETE FROM events;''"] by simp

section \<open>What the agent may answer\<close>



text \<open>A single \<open>SELECT\<close> without white space around it, fences or a final semicolon.\<close>

definition clean_select :: "string \<Rightarrow> bool" where
  "clean_select s \<longleftrightarrow>
     trim_space s = s \<and> starts_word ''select'' s \<and> \<not> contains s fence \<and> \<not> suffix '';'' s \<and>
     \<not> snd (scan_top_level s)"

lemma starts_word_append:
  "starts_word kw s \<Longrightarrow> length kw \<le> length s \<Longrightarrow> \<not> is_ident_part c \<Longrightarrow> starts_word kw (s @ c # r)"
  by (cases "drop (length kw) s") (auto simp: starts_word_def word_ends_def intro: prefix_prefix)

lemma starts_word_length: "starts_word kw s \<Longrightarrow> length kw \<le> length s"
  using prefix_length_le by (fastforce simp: starts_word_def)

lemma upper_of_lower: "in_bytes 97 122 (lower_char c) \<Longrightarrow> upper_char (lower_char c) = upper_char c"
  by (auto simp: lower_char_def upper_char_def in_bytes_def split: if_splits)

lemma clean_select_upper:
  assumes "starts_word ''select'' s"
  shows "prefix ''SELECT'' (to_upper s)"
proof -
  have "prefix (map upper_char kw) (to_upper s)"
    if "prefix kw (to_lower s)" "list_all (in_bytes 97 122) kw" for kw
    using that
  proof (induction kw arbitrary: s)
    case (Cons k kw)
    then show ?case by (cases s) (auto simp: to_lower_def to_upper_def upper_of_lower)
  qed simp
  moreover have "map upper_char ''select'' = ''SELECT''" and "list_all (in_bytes 97 122) ''select''"
    by code_simp+
  ultimately show ?thesis using assms by (metis starts_word_def)
qed

lemma clean_select_valid: "clean_select s \<Longrightarrow> validate_read_only_sql s = None"
  using clean_select_upper trim_left_trim_space [of s]
  by (auto simp: clean_select_def validate_read_only_sql_def Let_def split: prod.splits)

text \<open>From the start of the statement on, all three answers are treated alike.\<close>

lemma extract_from_start:
  assumes "clean_select s" and "unfence (trim_space out) = u" and "find_sql_start False u = Some u"
    and "trim_space u = u" and "u = s \<or> u = s @ '';''"
  shows "extract_sql out = Inr s"
proof -
  have "\<not> suffix fence s" "\<not> suffix '';'' s" "trim_space s = s"
    using assms(1) by (auto simp: clean_select_def contains_sublist suffix_imp_sublist)
  moreover have "\<not> suffix fence (s @ '';'')" by simp
  ultimately have "trim_suffix (trim_space u) fence = u"
    and "trim_space (trim_suffix (trim_space u) '';'') = s"
    using assms(4,5) trim_suffix_append [of s "'';''"] by (auto simp: trim_suffix_def)
  with clean_select_valid [OF assms(1)] assms(2-4) show ?thesis by (simp add: extract_sql_def)
qed

lemma clean_select_hd:
  assumes "clean_select s"
  shows "s \<noteq> []" and "\<not> space_byte (hd s)"
proof -
  have "prefix ''select'' (to_lower s)" using assms by (simp add: clean_select_def starts_word_def)
  then obtain c t where s: "s = c # t" and c: "lower_char c = CHR ''s''"
    by (cases s) (auto simp: to_lower_def)
  show "s \<noteq> []" by (simp add: s)
  show "\<not> space_byte (hd s)" using c
    by (auto simp: s lower_char_def space_byte_def ascii_space_def in_bytes_def byte_val_def
        split: if_splits)
qed

lemma find_at_start: "starts_word ''select'' s \<Longrightarrow> s \<noteq> [] \<Longrightarrow> find_sql_start False s = Some s"
  by (cases s) auto

lemma contains_snoc_other:
  "\<not> contains s sep \<Longrightarrow> c \<notin> set sep \<Longrightarrow> \<not> contains (s @ [c]) sep"
proof (induction s)
  case (Cons a s)
  have "prefix sep (a # s @ [c]) \<Longrightarrow> prefix sep (a # s)"
    using Cons.prems by (metis append_Cons in_set_conv_decomp prefix_snoc)
  with Cons show ?case by (auto simp: contains_Cons)
qed (auto simp: contains_Cons prefix_Cons)

text \<open>
  The answers the prompt asks for and the fenced ones agents give anyway are both understood:
  a clean single \<open>SELECT\<close> comes back as it is, with a semicolon after it, or inside a fence with
  the language tag.
\<close>

theorem clean_answers_are_understood:
  assumes "clean_select s"
  shows "extract_sql s = Inr s \<and> extract_sql (s @ '';'') = Inr s \<and>
    extract_sql (fence @ ''sql'' @ [newline] @ s @ [newline] @ fence) = Inr s"
proof (intro conjI)
  note ne = clean_select_hd [OF assms]
  have s: "trim_space s = s" "starts_word ''select'' s" "\<not> contains s fence"
    using assms by (simp_all add: clean_select_def)
  have start: "find_sql_start False s = Some s" by (rule find_at_start [OF s(2) ne(1)])
  have plain: "unfence s = s" using s(3) by (simp add: unfence_def cut_at_absent)
  show "extract_sql s = Inr s"
    by (rule extract_from_start [OF assms, of s s]) (simp_all add: s plain start)
  have semi: "starts_word ''select'' (s @ '';'')"
    by (rule starts_word_append [OF s(2) starts_word_length [OF s(2)]])
      (simp add: is_ident_part_def is_ident_start_def in_bytes_def byte_val_def is_digit_def)
  have trim_semi: "trim_space (s @ '';'') = s @ '';''"
    using ne by (intro trim_space_solid) (simp_all add: space_byte_def ascii_space_def in_bytes_def byte_val_def)
  have "unfence (s @ '';'') = s @ '';''"
    using contains_snoc_other [OF s(3), of "CHR '';''"] by (simp add: unfence_def cut_at_absent)
  then show "extract_sql (s @ '';'') = Inr s"
    by (intro extract_from_start [OF assms, of _ "s @ '';''"])
      (simp_all add: trim_semi find_at_start [OF semi])
  let ?out = "fence @ ''sql'' @ [newline] @ s @ [newline] @ fence"
  have out: "trim_space ?out = ?out"
    by (intro trim_space_solid) (simp_all add: space_byte_def ascii_space_def in_bytes_def byte_val_def)
  have cut1: "cut_at ?out fence = Some ([], ''sql'' @ newline # s @ newline # fence)"
    by (simp add: cut_at.simps)
  have cut2: "cut_at (''sql'' @ newline # s @ newline # fence) [newline] = Some (''sql'', s @ newline # fence)"
    by (rule cut_at_char_absent) simp
  have cut3: "cut_at (s @ newline # fence) fence = Some (s @ [newline], [])"
    using cut_at_first [of newline fence s "[]"] s(3) by simp
  have tag: "to_lower (trim_space ''sql'') = ''sql''" by code_simp
  have nl: "trim_space (s @ [newline]) = s"
    by (rule trim_space_snoc_ascii [OF s(1) ne]) (simp add: ascii_space_def in_bytes_def byte_val_def)
  have "unfence ?out = s"
    unfolding unfence_def cut1 option.case prod.case cut2 Let_def tag
    using cut3 nl by simp
  then show "extract_sql ?out = Inr s"
    using out start s(1) by (intro extract_from_start [OF assms, of _ s]) simp_all
qed

theorem clean_answers_are_understood_witness:
  "extract_sql (''SELECT comm FROM events LIMIT 5'' @ '';'') = Inr ''SELECT comm FROM events LIMIT 5''"
proof -
  have "clean_select ''SELECT comm FROM events LIMIT 5''" by code_simp
  from clean_answers_are_understood [OF this] show ?thesis by blast
qed

text \<open>
  The check's one known gap: a common table whose name is a quoted keyword stands for the
  statement keyword, so a \<open>WITH ... DELETE\<close> is accepted. (The connection is still read-only.)
\<close>

lemma with_delete_accepted:
  "extract_sql (''WITH '' @ [grave] @ ''select'' @ [grave] @ '' AS (SELECT 1) DELETE FROM events'') =
     Inr (''WITH '' @ [grave] @ ''select'' @ [grave] @ '' AS (SELECT 1) DELETE FROM events'')"
  by code_simp

section \<open>Which agent runs\<close>

lemma resolve_auto_found:
  assumes "set names \<subseteq> dom known_agents"
  shows "(\<forall>m. resolve_auto look_path names \<noteq> Inl (Panic m)) \<and>
    (\<forall>a. resolve_auto look_path names = Inr (Some a) \<longrightarrow>
      agent_argv a \<noteq> [] \<and> look_path (hd (agent_argv a)))"
proof -
  have "agent_argv a \<noteq> [] \<and> look_path (hd (agent_argv a))"
    if "find (\<lambda>n. look_path (hd (the (known_agents n)))) names = Some n"
      "a = \<lparr>agent_name = n, agent_argv = the (known_agents n)\<rparr>" for a n
  proof -
    have "n \<in> set names" "look_path (hd (the (known_agents n)))"
      using that(1) by (auto simp: find_Some_iff)
    with that(2) assms known_agents_nonempty show ?thesis by auto
  qed
  then show ?thesis
    unfolding resolve_auto_cases [OF assms] by (auto split: option.splits)
qed

text \<open>
  \<open>Resolve\<close> never panics, and an agent it returns has a command that was found on PATH.
\<close>

theorem resolve_is_safe:
  "(\<nexists>m. resolve look_path spec = Inl (Panic m)) \<and>
   (case resolve look_path spec of
      Inr (Some a) \<Rightarrow> agent_argv a \<noteq> [] \<and> look_path (hd (agent_argv a))
    | _ \<Rightarrow> True)"
proof -
  have auto: "set auto_order \<subseteq> dom known_agents" using auto_order_known by blast
  have "split_fields (trim_space spec) \<noteq> []" if "trim_space spec \<noteq> []"
    using that by (rule split_fields_trim_space)
  with resolve_auto_found [OF auto, of look_path] known_agents_nonempty show ?thesis
    by (auto simp: resolve_def Let_def split: option.splits list.splits sum.splits if_splits)
qed
end
