(* ===== verification/Types.thy ===== *)
theory Types imports GoStrings begin

text \<open>
  The data model of \<open>internal/storage/types.go\<close>, the contract every stage of the program
  shares: \<open>Event\<close>, \<open>SocketRecord\<close>, \<open>Status\<close>, \<open>InsertStats\<close> and \<open>Filter\<close> with its
  \<open>Validate\<close>, and the schema constants \<open>internal/abi\<close> and \<open>internal/storage/schema_gen.go\<close>
  generate. A \<open>time.Time\<close> is its instant in nanoseconds since the Unix epoch; \<open>zero_time\<close> is
  the zero \<open>Time\<close>, 1 January of year 1. \<open>UnixNano\<close> wraps to 64 bits, as it does in Go.
\<close>

section \<open>Time\<close>

type_synonym gotime = int

definition zero_time :: gotime where
  "zero_time = - 62135596800 * 10 ^ 9"

definition is_zero_time :: "gotime \<Rightarrow> bool" where
  "is_zero_time t \<longleftrightarrow> t = zero_time"

definition unix_nano :: "gotime \<Rightarrow> int" where
  "unix_nano t = wrap64 t"

lemma unix_nano_range [simp]: "int64_range (unix_nano t)"
  by (simp add: unix_nano_def)

lemma unix_nano_id [simp]: "int64_range t \<Longrightarrow> unix_nano t = t"
  by (simp add: unix_nano_def)

section \<open>Events\<close>

text \<open>
  The values a \<open>map[string]any\<close> of metadata holds here: strings, the integers the decoder and
  the demo generator store, and the floating-point numbers integers come back as from JSON
  (\<open>AFloat n\<close> is the float with the integral value \<open>n\<close>). \<open>None\<close> is the nil map.
\<close>

datatype any_value = AString string | AInt int | AFloat int

type_synonym metadata = "(string \<times> any_value) list option"

record event =
  ev_id :: int
  ev_schema_version :: int
  ev_timestamp :: gotime
  ev_category :: string
  ev_action :: string
  ev_pid :: int
  ev_ppid :: int
  ev_uid :: int
  ev_comm :: string
  ev_exe :: string
  ev_container_id :: string
  ev_cgroup_path :: string
  ev_path :: string
  ev_old_path :: string
  ev_local_addr :: string
  ev_local_port :: int
  ev_remote_addr :: string
  ev_remote_port :: int
  ev_remote_host :: string
  ev_target_pid :: int
  ev_exit_code :: int
  ev_dropped_before :: int
  ev_metadata :: metadata
  ev_raw :: string

text \<open>The zero \<open>Event{}\<close>.\<close>

definition empty_event :: event where
  "empty_event = \<lparr>
     ev_id = 0, ev_schema_version = 0, ev_timestamp = zero_time,
     ev_category = [], ev_action = [], ev_pid = 0, ev_ppid = 0, ev_uid = 0,
     ev_comm = [], ev_exe = [], ev_container_id = [], ev_cgroup_path = [],
     ev_path = [], ev_old_path = [], ev_local_addr = [], ev_local_port = 0,
     ev_remote_addr = [], ev_remote_port = 0, ev_remote_host = [],
     ev_target_pid = 0, ev_exit_code = 0, ev_dropped_before = 0,
     ev_metadata = None, ev_raw = []\<rparr>"

record socket_record =
  sr_pid :: int
  sr_comm :: string
  sr_local_port :: int
  sr_state :: string
  sr_seen_at :: gotime

record status =
  status_event_count :: int
  status_dropped_events :: int
  status_last_event_time :: gotime
  status_started_at :: gotime

definition empty_status :: status where
  "empty_status = \<lparr>status_event_count = 0, status_dropped_events = 0,
     status_last_event_time = zero_time, status_started_at = zero_time\<rparr>"

record insert_stats =
  is_dropped :: int
  is_write_latency :: int

definition empty_stats :: insert_stats where
  "empty_stats = \<lparr>is_dropped = 0, is_write_latency = 0\<rparr>"

section \<open>Filters\<close>

record event_filter =
  f_from :: gotime
  f_to :: gotime
  f_pids :: "int list"
  f_uids :: "int list"
  f_categories :: "string list"
  f_actions :: "string list"
  f_comms :: "string list"
  f_path_like :: string
  f_exe_like :: string
  f_exact_path :: string
  f_order_asc :: bool
  f_limit :: int

definition empty_filter :: event_filter where
  "empty_filter = \<lparr>f_from = zero_time, f_to = zero_time, f_pids = [], f_uids = [],
     f_categories = [], f_actions = [], f_comms = [], f_path_like = [], f_exe_like = [],
     f_exact_path = [], f_order_asc = False, f_limit = 0\<rparr>"

definition validate_filter :: "event_filter \<Rightarrow> go_error option" where
  "validate_filter f =
     (if \<not> is_zero_time (f_from f) \<and> \<not> is_zero_time (f_to f) \<and> f_to f < f_from f
      then Some (Err ''filter: From must not be after To'')
      else if f_limit f < 0 then Some (Err ''filter: Limit must not be negative'')
      else None)"

section \<open>The generated schema\<close>

definition schema_version :: int where
  "schema_version = 1"

text \<open>\<open>eventColumns\<close>, \<open>insertColumns\<close> and \<open>insertPlaceholders\<close>, with the names they list.\<close>

definition event_column_names :: "string list" where
  "event_column_names =
     [''id'', ''ts'', ''category'', ''action'', ''pid'', ''ppid'', ''uid'', ''comm'', ''exe'',
      ''container_id'', ''cgroup_path'', ''path'', ''old_path'', ''local_addr'', ''local_port'',
      ''remote_addr'', ''remote_port'', ''remote_host'', ''target_pid'', ''exit_code'',
      ''dropped_before'', ''metadata'', ''raw'']"

definition insert_column_names :: "string list" where
  "insert_column_names = tl event_column_names"

definition event_columns :: string where
  "event_columns =
     ''id, ts, category, action, pid, ppid, uid, comm, exe, container_id, cgroup_path, path, old_path, local_addr, local_port, remote_addr, remote_port, remote_host, target_pid, exit_code, dropped_before, metadata, raw''"

definition insert_columns :: string where
  "insert_columns =
     ''ts, category, action, pid, ppid, uid, comm, exe, container_id, cgroup_path, path, old_path, local_addr, local_port, remote_addr, remote_port, remote_host, target_pid, exit_code, dropped_before, metadata, raw''"

definition insert_placeholders :: string where
  "insert_placeholders = ''?, ?, ?, ?, ?, ?, ?, ?, ?, ?, ?, ?, ?, ?, ?, ?, ?, ?, ?, ?, ?, ?''"

lemma event_columns_join: "event_columns = join '', '' event_column_names"
  by (simp add: event_columns_def event_column_names_def)

lemma insert_columns_join: "insert_columns = join '', '' insert_column_names"
  by (simp add: insert_columns_def insert_column_names_def event_column_names_def)

lemma insert_placeholders_join:
  "insert_placeholders = join '', '' (replicate (length insert_column_names) ''?'')"
  by (simp add: insert_placeholders_def insert_column_names_def event_column_names_def)

lemma distinct_event_columns: "distinct event_column_names"
  by (simp add: event_column_names_def)

lemma length_event_columns [simp]:
  "length event_column_names = 23" "length insert_column_names = 22"
  by (simp_all add: event_column_names_def insert_column_names_def)

end
