(* ===== verification/Sql.thy ===== *)
theory Sql imports Types "HOL-Library.List_Lexorder" begin

text \<open>
  The fragment of SQL the program's statements are written in. The Go code builds SQL as text
  and hands it to the SQLite driver, which is not part of the repository. So the model keeps
  the text as the code builds it; this theory gives the fragment's abstract syntax, a reader
  from text to syntax (tokens, then a grammar that ignores layout), and the meaning SQLite
  documents for each statement on a table. What the store relies on is the locale
  \<open>sql_engine\<close>: an engine that succeeds on a text of the fragment does what the text means.
\<close>

section \<open>Values\<close>

datatype sqlval = VInt int | VText string

text \<open>SQLite orders integers before text, integers by value, text byte by byte.\<close>

instantiation sqlval :: linorder
begin

fun less_eq_sqlval :: "sqlval \<Rightarrow> sqlval \<Rightarrow> bool" where
  "less_eq_sqlval (VInt a) (VInt b) = (a \<le> b)"
| "less_eq_sqlval (VInt a) (VText t) = True"
| "less_eq_sqlval (VText s) (VInt b) = False"
| "less_eq_sqlval (VText s) (VText t) = (s \<le> t)"

definition less_sqlval :: "sqlval \<Rightarrow> sqlval \<Rightarrow> bool" where
  "less_sqlval a b \<longleftrightarrow> a \<le> b \<and> \<not> b \<le> (a :: sqlval)"

instance
proof
  fix x y z :: sqlval
  show "x < y \<longleftrightarrow> x \<le> y \<and> \<not> y \<le> x" by (simp add: less_sqlval_def)
  show "x \<le> x" by (cases x) simp_all
  show "x \<le> y \<Longrightarrow> y \<le> z \<Longrightarrow> x \<le> z" by (cases x; cases y; cases z) simp_all
  show "x \<le> y \<Longrightarrow> y \<le> x \<Longrightarrow> x = y" by (cases x; cases y) simp_all
  show "x \<le> y \<or> y \<le> x" by (cases x; cases y) (simp_all add: linear)
qed

end

lemma less_VInt [simp]: "VInt a < VInt b \<longleftrightarrow> a < b"
  by (auto simp: less_sqlval_def)

type_synonym row = "sqlval list"

record sql_table =
  t_rows :: "row list"
  t_seq :: int

record sqldb =
  db_table :: "sql_table option"
  db_query_only :: bool

text \<open>A column of a row, by the schema's column order.\<close>

definition field_of :: "row \<Rightarrow> string \<Rightarrow> sqlval" where
  "field_of r c = (case map_of (zip event_column_names r) c of Some v \<Rightarrow> v | None \<Rightarrow> VText [])"

section \<open>LIKE\<close>

text \<open>
  SQLite's \<open>LIKE\<close>: \<open>%\<close> stands for any sequence, \<open>_\<close> for one character, other characters
  match themselves without regard to the case of ASCII letters; with an \<open>ESCAPE\<close> character the
  character after it stands for itself.
\<close>

fun sql_like :: "char option \<Rightarrow> string \<Rightarrow> string \<Rightarrow> bool" where
  "sql_like e [] s = (s = [])"
| "sql_like e (p # ps) s =
     (if e = Some p then
        (case ps of
           [] \<Rightarrow> False
         | q # qs \<Rightarrow> (case s of [] \<Rightarrow> False | c # t \<Rightarrow> lower_char q = lower_char c \<and> sql_like e qs t))
      else if p = CHR ''%'' then
        sql_like e ps s \<or> (case s of [] \<Rightarrow> False | c # t \<Rightarrow> sql_like e (p # ps) t)
      else
        (case s of
           [] \<Rightarrow> False
         | c # t \<Rightarrow> (p = CHR ''_'' \<or> lower_char p = lower_char c) \<and> sql_like e ps t))"

declare sql_like.simps(2) [simp del]

section \<open>Syntax\<close>

datatype cmp = CmpEq | CmpGe | CmpLe | CmpGt | CmpLt

datatype atom =
    Cmp string cmp            \<comment> \<open>\<open>col op ?\<close>\<close>
  | InList string nat         \<comment> \<open>\<open>col IN (?,...,?)\<close>\<close>
  | Like string               \<comment> \<open>\<open>col LIKE ?\<close>\<close>
  | LowerLike string char     \<comment> \<open>\<open>lower(col) LIKE ? ESCAPE 'c'\<close>\<close>
  | EqLit string string       \<comment> \<open>\<open>col = 'text'\<close>\<close>
  | NeLit string string       \<comment> \<open>\<open>col != 'text'\<close>\<close>

datatype clause = Single atom | AnyOf "atom list"

datatype agg = CountAll | MinOf string | MaxOf string | SumOf string

type_synonym order_term = "string \<times> bool"

datatype stmt =
    Select "string list" "clause list" "order_term list"
  | Aggregate "agg list"
  | Insert "string list"
  | Delete atom
  | Vacuum
  | CreateTable
  | CreateIndex

section \<open>Meaning\<close>

fun cmp_holds :: "cmp \<Rightarrow> sqlval \<Rightarrow> sqlval \<Rightarrow> bool" where
  "cmp_holds CmpEq a b = (a = b)"
| "cmp_holds CmpGe a b = (a \<ge> b)"
| "cmp_holds CmpLe a b = (a \<le> b)"
| "cmp_holds CmpGt a b = (a > b)"
| "cmp_holds CmpLt a b = (a < b)"

fun text_of :: "sqlval \<Rightarrow> string" where
  "text_of (VText s) = s"
| "text_of (VInt n) = itoa n"

fun atom_params :: "atom \<Rightarrow> nat" where
  "atom_params (Cmp c op) = 1"
| "atom_params (InList c n) = n"
| "atom_params (Like c) = 1"
| "atom_params (LowerLike c e) = 1"
| "atom_params (EqLit c s) = 0"
| "atom_params (NeLit c s) = 0"

fun atom_holds :: "atom \<Rightarrow> sqlval list \<Rightarrow> row \<Rightarrow> bool" where
  "atom_holds (Cmp c op) args r = (\<exists>v \<in> set (take 1 args). cmp_holds op (field_of r c) v)"
| "atom_holds (InList c n) args r = (field_of r c \<in> set (take n args))"
| "atom_holds (Like c) args r =
     (\<exists>v \<in> set (take 1 args). sql_like None (text_of v) (text_of (field_of r c)))"
| "atom_holds (LowerLike c e) args r =
     (\<exists>v \<in> set (take 1 args). sql_like (Some e) (text_of v) (to_lower (text_of (field_of r c))))"
| "atom_holds (EqLit c s) args r = (field_of r c = VText s)"
| "atom_holds (NeLit c s) args r = (field_of r c \<noteq> VText s)"

text \<open>Positional parameters: each condition takes its own from the front of the list.\<close>

fun any_params :: "atom list \<Rightarrow> nat" where
  "any_params [] = 0"
| "any_params (a # as) = atom_params a + any_params as"

fun any_holds :: "atom list \<Rightarrow> sqlval list \<Rightarrow> row \<Rightarrow> bool" where
  "any_holds [] args r = False"
| "any_holds (a # as) args r =
     (atom_holds a args r \<or> any_holds as (drop (atom_params a) args) r)"

fun clause_params :: "clause \<Rightarrow> nat" where
  "clause_params (Single a) = atom_params a"
| "clause_params (AnyOf as) = any_params as"

fun clause_holds :: "clause \<Rightarrow> sqlval list \<Rightarrow> row \<Rightarrow> bool" where
  "clause_holds (Single a) args r = atom_holds a args r"
| "clause_holds (AnyOf as) args r = any_holds as args r"

fun where_params :: "clause list \<Rightarrow> nat" where
  "where_params [] = 0"
| "where_params (c # cs) = clause_params c + where_params cs"

fun where_holds :: "clause list \<Rightarrow> sqlval list \<Rightarrow> row \<Rightarrow> bool" where
  "where_holds [] args r = True"
| "where_holds (c # cs) args r =
     (clause_holds c args r \<and> where_holds cs (drop (clause_params c) args) r)"

text \<open>\<open>ORDER BY\<close>: stable sorts, the last term first; \<open>True\<close> is ascending.\<close>

fun order_rows :: "order_term list \<Rightarrow> row list \<Rightarrow> row list" where
  "order_rows [] rs = rs"
| "order_rows ((c, asc) # os) rs =
     (if asc then sort_key (\<lambda>r. field_of r c) (order_rows os rs)
      else rev (sort_key (\<lambda>r. field_of r c) (rev (order_rows os rs))))"

definition limit_rows :: "sqlval \<Rightarrow> row list \<Rightarrow> row list" where
  "limit_rows v rs = (case v of VInt n \<Rightarrow> if n < 0 then rs else take (nat n) rs | VText t \<Rightarrow> rs)"

text \<open>\<open>SUM\<close> raises an error as soon as a partial sum leaves the 64-bit range.\<close>

fun sum_checked :: "int \<Rightarrow> int list \<Rightarrow> int option" where
  "sum_checked acc [] = Some acc"
| "sum_checked acc (x # xs) =
     (if int64_range (acc + x) then sum_checked (acc + x) xs else None)"

fun int_of_val :: "sqlval \<Rightarrow> int" where
  "int_of_val (VInt n) = n"
| "int_of_val (VText s) = 0"

text \<open>The aggregates, each but \<open>COUNT\<close> under \<open>COALESCE(..., 0)\<close>.\<close>

fun agg_eval :: "agg \<Rightarrow> row list \<Rightarrow> go_error + sqlval" where
  "agg_eval CountAll rs = Inr (VInt (int (length rs)))"
| "agg_eval (MinOf c) rs =
     Inr (if rs = [] then VInt 0 else Min ((\<lambda>r. field_of r c) ` set rs))"
| "agg_eval (MaxOf c) rs =
     Inr (if rs = [] then VInt 0 else Max ((\<lambda>r. field_of r c) ` set rs))"
| "agg_eval (SumOf c) rs =
     (case sum_checked 0 (map (\<lambda>r. int_of_val (field_of r c)) rs) of
        Some n \<Rightarrow> Inr (VInt n)
      | None \<Rightarrow> Inl (Err ''integer overflow''))"

text \<open>The column defaults of the schema, for columns an \<open>INSERT\<close> leaves out.\<close>

definition int_columns :: "string list" where
  "int_columns = [''id'', ''ts'', ''pid'', ''ppid'', ''uid'', ''local_port'', ''remote_port'',
     ''target_pid'', ''exit_code'', ''dropped_before'']"

definition column_default :: "string \<Rightarrow> sqlval" where
  "column_default c =
     (if c \<in> set int_columns then VInt 0
      else if c = ''metadata'' \<or> c = ''raw'' then VText ''{}''
      else VText [])"

definition insert_row :: "string list \<Rightarrow> sqlval list \<Rightarrow> int \<Rightarrow> row" where
  "insert_row cols args new_id =
     map (\<lambda>c. if c = ''id'' then VInt new_id
              else case map_of (zip cols args) c of Some v \<Rightarrow> v | None \<Rightarrow> column_default c)
       event_column_names"

type_synonym sql_result = "sqldb \<times> row list \<times> int"

abbreviation (input) no_such_table :: "go_error + 'a" where
  "no_such_table \<equiv> Inl (Err ''no such table: events'')"

abbreviation (input) readonly_database :: "go_error + 'a" where
  "readonly_database \<equiv> Inl (Err ''attempt to write a readonly database'')"

fun sql_eval :: "stmt \<Rightarrow> sqlval list \<Rightarrow> sqldb \<Rightarrow> go_error + sql_result" where
  "sql_eval (Select cols wh ord) args db =
     (case db_table db of
        None \<Rightarrow> no_such_table
      | Some t \<Rightarrow>
          (case drop (where_params wh) args of
             [lim] \<Rightarrow>
               Inr (db,
                 map (\<lambda>r. map (field_of r) cols)
                   (limit_rows lim (order_rows ord (filter (where_holds wh args) (t_rows t)))),
                 0)
           | _ \<Rightarrow> Inl (Err ''wrong number of arguments'')))"
| "sql_eval (Aggregate aggs) args db =
     (case db_table db of
        None \<Rightarrow> no_such_table
      | Some t \<Rightarrow> rbind (rmap (\<lambda>a. agg_eval a (t_rows t)) aggs) (\<lambda>vs. Inr (db, [vs], 0)))"
| "sql_eval (Insert cols) args db =
     (case db_table db of
        None \<Rightarrow> no_such_table
      | Some t \<Rightarrow>
          if db_query_only db then readonly_database
          else if length args \<noteq> length cols then Inl (Err ''wrong number of arguments'')
          else
            let n = t_seq t + 1;
                t' = t\<lparr>t_rows := t_rows t @ [insert_row cols args n], t_seq := n\<rparr>
            in Inr (db\<lparr>db_table := Some t'\<rparr>, [], 1))"
| "sql_eval (Delete a) args db =
     (case db_table db of
        None \<Rightarrow> no_such_table
      | Some t \<Rightarrow>
          if db_query_only db then readonly_database
          else if length args \<noteq> atom_params a then Inl (Err ''wrong number of arguments'')
          else
            let gone = filter (atom_holds a args) (t_rows t);
                t' = t\<lparr>t_rows := filter (\<lambda>r. \<not> atom_holds a args r) (t_rows t)\<rparr>
            in Inr (db\<lparr>db_table := Some t'\<rparr>, [], int (length gone)))"
| "sql_eval Vacuum args db = (if db_query_only db then readonly_database else Inr (db, [], 0))"
| "sql_eval CreateTable args db =
     (case db_table db of
        Some t \<Rightarrow> Inr (db, [], 0)
      | None \<Rightarrow>
          if db_query_only db then readonly_database
          else Inr (db\<lparr>db_table := Some \<lparr>t_rows = [], t_seq = 0\<rparr>\<rparr>, [], 0))"
| "sql_eval CreateIndex args db =
     (case db_table db of None \<Rightarrow> no_such_table | Some t \<Rightarrow> Inr (db, [], 0))"

end
