(* ===== verification/SqlText.thy ===== *)
theory SqlText imports Sql SqlScan begin

text \<open>
  From SQL text to the syntax of theory Sql: a lexer that runs over the characters as a fold,
  a grammar over its tokens, the texts of the schema, and the interface to the engine. The
  lexer's fold makes the tokens of a concatenation the tokens of its pieces, which is how the
  texts the store puts together are read back.
\<close>

section \<open>Tokens\<close>

datatype token = Word string | Lit string | Sym char

datatype scan_mode = InWord | InLit

fun flush_word :: "string \<Rightarrow> token list \<Rightarrow> token list" where
  "flush_word [] ts = ts"
| "flush_word (c # cs) ts = Word (rev (c # cs)) # ts"

type_synonym scan_state = "scan_mode \<times> string \<times> token list"

fun token_step :: "scan_state \<Rightarrow> char \<Rightarrow> scan_state" where
  "token_step (InWord, cur, ts) c =
     (if is_ident_part c then (InWord, c # cur, ts)
      else if ascii_space c then (InWord, [], flush_word cur ts)
      else if c = quote_sq then (InLit, [], flush_word cur ts)
      else (InWord, [], Sym c # flush_word cur ts))"
| "token_step (InLit, cur, ts) c =
     (if c = quote_sq then (InWord, [], Lit (rev cur) # ts) else (InLit, c # cur, ts))"

fun finish_tokens :: "scan_state \<Rightarrow> token list option" where
  "finish_tokens (InWord, cur, ts) = Some (rev (flush_word cur ts))"
| "finish_tokens (InLit, cur, ts) = None"

definition tokens :: "string \<Rightarrow> token list option" where
  "tokens q = finish_tokens (foldl token_step (InWord, [], []) q)"

text \<open>A piece of text that leaves the lexer between two tokens, and the tokens it adds.\<close>

definition piece :: "string \<Rightarrow> token list \<Rightarrow> bool" where
  "piece s ts \<longleftrightarrow>
     (\<forall>acc. foldl token_step (InWord, [], acc) s = (InWord, [], rev ts @ acc))"

lemma piece_append: "piece s ts \<Longrightarrow> piece s' ts' \<Longrightarrow> piece (s @ s') (ts @ ts')"
  by (simp add: piece_def)

lemma piece_Nil: "piece [] []"
  by (simp add: piece_def)

lemma tokens_piece: "piece s ts \<Longrightarrow> tokens s = Some ts"
  by (simp add: piece_def tokens_def)

lemma piece_join:
  assumes "list_all2 piece ss tss" and "piece sep tsep"
  shows "piece (join sep ss) (join tsep tss)"
  using assms(1)
proof (induction ss tss rule: list_all2_induct)
  case Nil
  then show ?case by (simp add: piece_Nil)
next
  case (Cons s ss ts tss)
  then show ?case
    using assms(2) by (auto simp: join_Cons intro!: piece_append)
qed

lemmas lexical = is_ident_part_def is_ident_start_def in_bytes_def byte_val_def ascii_space_def

section \<open>The grammar\<close>

text \<open>One or more of something with a separator, on at most \<open>n\<close> rounds.\<close>

fun parse_sep ::
    "nat \<Rightarrow> (token list \<Rightarrow> ('a \<times> token list) option) \<Rightarrow> token \<Rightarrow> token list \<Rightarrow>
      ('a list \<times> token list) option" where
  "parse_sep 0 p sep ts = None"
| "parse_sep (Suc n) p sep ts =
     (case p ts of
        None \<Rightarrow> None
      | Some (a, ts1) \<Rightarrow>
          (case ts1 of
             [] \<Rightarrow> Some ([a], [])
           | t # ts2 \<Rightarrow>
               if t = sep then map_option (\<lambda>(as, r). (a # as, r)) (parse_sep n p sep ts2)
               else Some ([a], ts1)))"

lemma parse_sep_join:
  assumes "\<And>a r. a \<in> set as \<Longrightarrow> p (tk a @ r) = Some (a, r)"
    and "as \<noteq> []" and "length as \<le> n" and "r = [] \<or> hd r \<noteq> sep"
  shows "parse_sep n p sep (join [sep] (map tk as) @ r) = Some (as, r)"
  using assms
proof (induction as arbitrary: n)
  case Nil
  then show ?case by simp
next
  case (Cons a as)
  from Cons.prems(3) obtain m where n: "n = Suc m" by (cases n) auto
  show ?case
  proof (cases "as = []")
    case True
    with Cons.prems(1) [of a r] Cons.prems(4) n show ?thesis by (cases r) simp_all
  next
    case False
    then have "parse_sep m p sep (join [sep] (map tk as) @ r) = Some (as, r)"
      using Cons n by simp
    with False n Cons.prems(1) [of a] show ?thesis by (simp add: join_Cons)
  qed
qed

fun parse_col :: "token list \<Rightarrow> (string \<times> token list) option" where
  "parse_col (Word c # ts) = (if c \<in> set event_column_names then Some (c, ts) else None)"
| "parse_col ts = None"

fun parse_mark :: "token list \<Rightarrow> (unit \<times> token list) option" where
  "parse_mark (Sym m # ts) = (if m = CHR ''?'' then Some ((), ts) else None)"
| "parse_mark ts = None"

fun expect :: "token list \<Rightarrow> token list \<Rightarrow> token list option" where
  "expect [] ts = Some ts"
| "expect (x # xs) [] = None"
| "expect (x # xs) (t # ts) = (if x = t then expect xs ts else None)"

lemma expect_append [simp]: "expect xs (xs @ ts) = Some ts"
  by (induction xs) auto

definition cmp_tokens :: "cmp \<Rightarrow> token list" where
  "cmp_tokens op =
     (case op of
        CmpEq \<Rightarrow> [Sym CHR ''=''] | CmpGe \<Rightarrow> [Sym CHR ''>'', Sym CHR ''='']
      | CmpLe \<Rightarrow> [Sym CHR ''<'', Sym CHR ''=''] | CmpGt \<Rightarrow> [Sym CHR ''>'']
      | CmpLt \<Rightarrow> [Sym CHR ''<''])"

text \<open>What can follow a column in a condition.\<close>

fun parse_cond :: "string \<Rightarrow> token list \<Rightarrow> (atom \<times> token list) option" where
  "parse_cond c (Sym a # Sym b # ts) =
     (if b = CHR ''?'' then
        (if a = CHR ''='' then Some (Cmp c CmpEq, ts)
         else if a = CHR ''>'' then Some (Cmp c CmpGt, ts)
         else if a = CHR ''<'' then Some (Cmp c CmpLt, ts)
         else None)
      else if b = CHR ''='' then
        (case ts of
           Sym m # ts' \<Rightarrow>
             if m = CHR ''?'' \<and> a = CHR ''>'' then Some (Cmp c CmpGe, ts')
             else if m = CHR ''?'' \<and> a = CHR ''<'' then Some (Cmp c CmpLe, ts')
             else None
         | Lit s # ts' \<Rightarrow> if a = CHR ''!'' then Some (NeLit c s, ts') else None
         | _ \<Rightarrow> None)
      else None)"
| "parse_cond c (Sym a # Lit s # ts) = (if a = CHR ''='' then Some (EqLit c s, ts) else None)"
| "parse_cond c (Word w # Sym b # ts) =
     (if w = ''LIKE'' \<and> b = CHR ''?'' then Some (Like c, ts)
      else if w = ''IN'' \<and> b = CHR ''('' then
        (case parse_sep (length ts) parse_mark (Sym CHR '','') ts of
           Some (ms, Sym d # ts') \<Rightarrow>
             if d = CHR '')'' then Some (InList c (length ms), ts') else None
         | _ \<Rightarrow> None)
      else None)"
| "parse_cond c ts = None"

fun parse_atom :: "token list \<Rightarrow> (atom \<times> token list) option" where
  "parse_atom (Word w # ts) =
     (if w = ''lower'' then
        (case ts of
           Sym p # Word c # ts1 \<Rightarrow>
             if p = CHR ''('' \<and> c \<in> set event_column_names then
               (case expect [Sym CHR '')'', Word ''LIKE'', Sym CHR ''?'', Word ''ESCAPE''] ts1 of
                  Some (Lit [e] # ts2) \<Rightarrow> Some (LowerLike c e, ts2)
                | _ \<Rightarrow> None)
             else None
         | _ \<Rightarrow> None)
      else if w \<in> set event_column_names then parse_cond w ts
      else None)"
| "parse_atom ts = None"

fun parse_clause :: "token list \<Rightarrow> (clause \<times> token list) option" where
  "parse_clause (Sym p # ts) =
     (if p = CHR ''('' then
        (case parse_sep (length ts) parse_atom (Word ''OR'') ts of
           Some (as, Sym d # ts') \<Rightarrow> if d = CHR '')'' then Some (AnyOf as, ts') else None
         | _ \<Rightarrow> None)
      else None)"
| "parse_clause ts = map_option (\<lambda>(a, r). (Single a, r)) (parse_atom ts)"

fun parse_order_term :: "token list \<Rightarrow> (order_term \<times> token list) option" where
  "parse_order_term (Word c # Word d # ts) =
     (if c \<in> set event_column_names \<and> d \<in> {''ASC'', ''DESC''} then Some ((c, d = ''ASC''), ts)
      else None)"
| "parse_order_term ts = None"

definition parse_tail :: "string list \<Rightarrow> clause list \<Rightarrow> token list \<Rightarrow> stmt option" where
  "parse_tail cols wh ts =
     (case expect [Word ''ORDER'', Word ''BY''] ts of
        None \<Rightarrow> None
      | Some ts1 \<Rightarrow>
          (case parse_sep (length ts1) parse_order_term (Sym CHR '','') ts1 of
             None \<Rightarrow> None
           | Some (ord, ts2) \<Rightarrow>
               if ts2 = [Word ''LIMIT'', Sym CHR ''?''] then Some (Select cols wh ord) else None))"

definition parse_where :: "string list \<Rightarrow> token list \<Rightarrow> stmt option" where
  "parse_where cols ts =
     (if ts \<noteq> [] \<and> hd ts = Word ''WHERE'' then
        (case parse_sep (length ts) parse_clause (Word ''AND'') (tl ts) of
           None \<Rightarrow> None
         | Some (wh, ts1) \<Rightarrow> parse_tail cols wh ts1)
      else parse_tail cols [] ts)"

fun parse_agg :: "token list \<Rightarrow> (agg \<times> token list) option" where
  "parse_agg (Word w # ts) =
     (if w = ''COUNT'' then
        map_option (Pair CountAll) (expect [Sym CHR ''('', Sym CHR ''*'', Sym CHR '')''] ts)
      else if w = ''COALESCE'' then
        (case ts of
           Sym p # Word f # Sym q # Word c # ts1 \<Rightarrow>
             (case expect [Sym CHR '')'', Sym CHR '','', Word ''0'', Sym CHR '')''] ts1 of
                None \<Rightarrow> None
              | Some ts2 \<Rightarrow>
                  if p = CHR ''('' \<and> q = CHR ''('' \<and> c \<in> set event_column_names then
                    (if f = ''MIN'' then Some (MinOf c, ts2)
                     else if f = ''MAX'' then Some (MaxOf c, ts2)
                     else if f = ''SUM'' then Some (SumOf c, ts2)
                     else None)
                  else None)
         | _ \<Rightarrow> None)
      else None)"
| "parse_agg ts = None"

definition parse_select :: "token list \<Rightarrow> stmt option" where
  "parse_select ts =
     (case parse_sep (length ts) parse_agg (Sym CHR '','') ts of
        Some (aggs, r) \<Rightarrow>
          if r = [Word ''FROM'', Word ''events''] then Some (Aggregate aggs) else None
      | None \<Rightarrow>
          (case parse_sep (length ts) parse_col (Sym CHR '','') ts of
             None \<Rightarrow> None
           | Some (cols, ts1) \<Rightarrow>
               (case expect [Word ''FROM'', Word ''events''] ts1 of
                  None \<Rightarrow> None
                | Some ts2 \<Rightarrow> parse_where cols ts2)))"

definition parse_insert :: "token list \<Rightarrow> stmt option" where
  "parse_insert ts =
     (case parse_sep (length ts) parse_col (Sym CHR '','') ts of
        None \<Rightarrow> None
      | Some (cols, ts1) \<Rightarrow>
          (case expect [Sym CHR '')'', Word ''VALUES'', Sym CHR ''(''] ts1 of
             None \<Rightarrow> None
           | Some ts2 \<Rightarrow>
               (case parse_sep (length ts2) parse_mark (Sym CHR '','') ts2 of
                  Some (ms, r) \<Rightarrow>
                    if r = [Sym CHR '')''] \<and> length ms = length cols then Some (Insert cols)
                    else None
                | None \<Rightarrow> None)))"

definition parse_delete :: "token list \<Rightarrow> stmt option" where
  "parse_delete ts =
     (case parse_atom ts of Some (a, []) \<Rightarrow> Some (Delete a) | _ \<Rightarrow> None)"

definition parse_tokens :: "token list \<Rightarrow> stmt option" where
  "parse_tokens ts =
     (case expect [Word ''SELECT''] ts of
        Some r \<Rightarrow> parse_select r
      | None \<Rightarrow>
     (case expect [Word ''INSERT'', Word ''INTO'', Word ''events'', Sym CHR ''(''] ts of
        Some r \<Rightarrow> parse_insert r
      | None \<Rightarrow>
     (case expect [Word ''DELETE'', Word ''FROM'', Word ''events'', Word ''WHERE''] ts of
        Some r \<Rightarrow> parse_delete r
      | None \<Rightarrow> if ts = [Word ''VACUUM''] then Some Vacuum else None)))"


section \<open>The schema's own statements\<close>

text \<open>\<open>schemaStatements\<close> of \<open>internal/storage/schema_gen.go\<close>, character by character.\<close>

definition create_table_sql :: string where
  "create_table_sql = join [newline]
     [''CREATE TABLE IF NOT EXISTS events ('',
      [CHR 0x09] @ ''id INTEGER PRIMARY KEY AUTOINCREMENT,'',
      [CHR 0x09] @ ''ts INTEGER NOT NULL,'',
      [CHR 0x09] @ ''category TEXT NOT NULL DEFAULT '' @ [quote_sq] @ [quote_sq] @ '','',
      [CHR 0x09] @ ''action TEXT NOT NULL DEFAULT '' @ [quote_sq] @ [quote_sq] @ '','',
      [CHR 0x09] @ ''pid INTEGER NOT NULL DEFAULT 0,'',
      [CHR 0x09] @ ''ppid INTEGER NOT NULL DEFAULT 0,'',
      [CHR 0x09] @ ''uid INTEGER NOT NULL DEFAULT 0,'',
      [CHR 0x09] @ ''comm TEXT NOT NULL DEFAULT '' @ [quote_sq] @ [quote_sq] @ '','',
      [CHR 0x09] @ ''exe TEXT NOT NULL DEFAULT '' @ [quote_sq] @ [quote_sq] @ '','',
      [CHR 0x09] @ ''container_id TEXT NOT NULL DEFAULT '' @ [quote_sq] @ [quote_sq] @ '','',
      [CHR 0x09] @ ''cgroup_path TEXT NOT NULL DEFAULT '' @ [quote_sq] @ [quote_sq] @ '','',
      [CHR 0x09] @ ''path TEXT NOT NULL DEFAULT '' @ [quote_sq] @ [quote_sq] @ '','',
      [CHR 0x09] @ ''old_path TEXT NOT NULL DEFAULT '' @ [quote_sq] @ [quote_sq] @ '','',
      [CHR 0x09] @ ''local_addr TEXT NOT NULL DEFAULT '' @ [quote_sq] @ [quote_sq] @ '','',
      [CHR 0x09] @ ''local_port INTEGER NOT NULL DEFAULT 0,'',
      [CHR 0x09] @ ''remote_addr TEXT NOT NULL DEFAULT '' @ [quote_sq] @ [quote_sq] @ '','',
      [CHR 0x09] @ ''remote_port INTEGER NOT NULL DEFAULT 0,'',
      [CHR 0x09] @ ''remote_host TEXT NOT NULL DEFAULT '' @ [quote_sq] @ [quote_sq] @ '','',
      [CHR 0x09] @ ''target_pid INTEGER NOT NULL DEFAULT 0,'',
      [CHR 0x09] @ ''exit_code INTEGER NOT NULL DEFAULT 0,'',
      [CHR 0x09] @ ''dropped_before INTEGER NOT NULL DEFAULT 0,'',
      [CHR 0x09] @ ''metadata TEXT NOT NULL DEFAULT '' @ [quote_sq] @ ''{}'' @ [quote_sq] @ '','',
      [CHR 0x09] @ ''raw TEXT NOT NULL DEFAULT '' @ [quote_sq] @ ''{}'' @ [quote_sq],
      '')'']"

definition schema_statements :: "string list" where
  "schema_statements =
     [create_table_sql,
      ''CREATE INDEX IF NOT EXISTS idx_events_ts ON events(ts)'',
      ''CREATE INDEX IF NOT EXISTS idx_events_pid_ts ON events(pid, ts)'',
      ''CREATE INDEX IF NOT EXISTS idx_events_path ON events(path)'',
      ''CREATE INDEX IF NOT EXISTS idx_events_cat_action_ts ON events(category, action, ts)'']"

definition parse_sql :: "string \<Rightarrow> stmt option" where
  "parse_sql q =
     (if q = create_table_sql then Some CreateTable
      else if q \<in> set (tl schema_statements) then Some CreateIndex
      else case tokens q of None \<Rightarrow> None | Some ts \<Rightarrow> parse_tokens ts)"

lemma create_table_sql_hd: "hd create_table_sql = CHR ''C''"
  by (simp add: create_table_sql_def)

lemma schema_statements_hd: "q \<in> set schema_statements \<Longrightarrow> hd q = CHR ''C''"
  by (auto simp: schema_statements_def create_table_sql_hd)

lemma parse_sql_tokens:
  "tokens q = Some ts \<Longrightarrow> hd q \<noteq> CHR ''C'' \<Longrightarrow> parse_sql q = parse_tokens ts"
  using schema_statements_hd create_table_sql_hd
  by (auto simp: parse_sql_def schema_statements_def)

section \<open>The engine\<close>

text \<open>
  What the store relies on of the SQLite driver: an engine runs a text with its arguments on
  a database and gives an error or the new database, the rows and the number of rows changed.
  If it succeeds on a text of the fragment, the outcome is the text's meaning (\<open>engine_sound\<close>);
  a connection with \<open>query_only\<close> set never changes the table on a text SQLite reads as one
  statement (\<open>engine_query_only\<close>). \<open>sql_engine_total\<close> is the engine in the absence of I/O
  errors: it also succeeds whenever the meaning is not an error.
\<close>

type_synonym engine = "sqldb \<Rightarrow> string \<Rightarrow> sqlval list \<Rightarrow> go_error + sql_result"

locale sql_engine =
  fixes exec :: engine
  assumes engine_sound:
      "parse_sql q = Some s \<Longrightarrow> exec db q args = Inr r \<Longrightarrow> sql_eval s args db = Inr r"
    and engine_query_only:
      "db_query_only db \<Longrightarrow> sqlite_single q \<Longrightarrow> exec db q args = Inr (db', rows, n) \<Longrightarrow>
        db_table db' = db_table db"

locale sql_engine_total = sql_engine +
  assumes engine_total:
    "parse_sql q = Some s \<Longrightarrow> sql_eval s args db = Inr r \<Longrightarrow> exec db q args = Inr r"

text \<open>The fragment's own meaning, run on texts, is such an engine.\<close>

definition fragment_exec :: engine where
  "fragment_exec db q args =
     (case parse_sql q of
        None \<Rightarrow> Inl (Err ''not in the fragment'')
      | Some s \<Rightarrow> sql_eval s args db)"

lemma sql_eval_query_only:
  "sql_eval s args db = Inr (db', rows, n) \<Longrightarrow> db_query_only db \<Longrightarrow> db' = db"
  by (cases s) (auto split: option.splits list.splits if_splits)

interpretation frag: sql_engine_total fragment_exec
  by unfold_locales
    (auto simp: fragment_exec_def split: option.splits dest: sql_eval_query_only)

end
