(* ===== verification/Store.thy ===== *)
theory Store imports SqlText begin

text \<open>
  \<open>internal/storage\<close>: the \<open>Store\<close> and its operations (open.go, write.go, query.go and
  maintenance.go). A \<open>*sql.DB\<close> is the database it is connected to, \<open>None\<close> after \<open>Close\<close>. Each
  operation builds the SQL text and the arguments the Go code builds and runs them with \<open>exec\<close>,
  the driver. \<open>marshal\<close> and \<open>unmarshal\<close> are the JSON conversions of the metadata map. A failed
  operation gives the error the Go code returns; a dereference of the closed handle is a panic.
\<close>

record store =
  st_db :: "sqldb option"
  st_read_only :: bool

type_synonym marshaller = "metadata \<Rightarrow> string result"
type_synonym unmarshaller = "string \<Rightarrow> metadata result"

definition nil_db :: "'a result" where
  "nil_db = Inl (Panic ''invalid memory address or nil pointer dereference'')"

section \<open>Opening and closing\<close>

text \<open>
  What the operating system and the driver answer while a store is opened: the absolute path,
  the errors of \<open>MkdirAll\<close>, \<open>Stat\<close>, \<open>sql.Open\<close> and \<open>Ping\<close>, and the database found there.
\<close>

record open_env =
  oe_abs :: "string \<Rightarrow> string result"
  oe_mkdir :: "string \<Rightarrow> go_error option"
  oe_exists :: "string \<Rightarrow> bool result"
  oe_open :: "string \<Rightarrow> go_error option"
  oe_ping :: "string \<Rightarrow> go_error option"
  oe_file :: "string \<Rightarrow> sql_table option"

text \<open>\<open>dsn\<close>: the pragmas of the connection, \<open>query_only\<close> last.\<close>

definition dsn_pragmas :: "bool \<Rightarrow> string list" where
  "dsn_pragmas read_only =
     [''busy_timeout(5000)'', ''journal_mode(wal)'', ''synchronous(normal)''] @
     (if read_only then [''query_only(true)''] else [])"

fun run_schema :: "engine \<Rightarrow> sqldb \<Rightarrow> string list \<Rightarrow> sqldb result" where
  "run_schema exec db [] = Inr db"
| "run_schema exec db (q # qs) =
     (case exec db q [] of
        Inl e \<Rightarrow> Inl (wrap_err ''init schema'' e)
      | Inr (db', _, _) \<Rightarrow> run_schema exec db' qs)"

definition connect :: "open_env \<Rightarrow> string \<Rightarrow> bool \<Rightarrow> sqldb result" where
  "connect env path read_only =
     (case oe_open env path of
        Some e \<Rightarrow> Inl e
      | None \<Rightarrow>
          (case oe_ping env path of
             Some e \<Rightarrow> Inl (wrap_err ''open database'' e)
           | None \<Rightarrow>
               Inr \<lparr>db_table = oe_file env path,
                    db_query_only = (''query_only(true)'' \<in> set (dsn_pragmas read_only))\<rparr>))"

definition open_store :: "engine \<Rightarrow> open_env \<Rightarrow> string \<Rightarrow> store result" where
  "open_store exec env path0 =
     (if path0 = [] then Inl (Err ''empty storage path'')
      else case oe_abs env path0 of
        Inl e \<Rightarrow> Inl (wrap_err ''resolve storage path'' e)
      | Inr path \<Rightarrow>
          (case oe_mkdir env path of
             Some e \<Rightarrow> Inl e
           | None \<Rightarrow>
               rbind (connect env path False) (\<lambda>db.
               rbind (run_schema exec db schema_statements) (\<lambda>db'.
               Inr \<lparr>st_db = Some db', st_read_only = False\<rparr>))))"

definition open_read_only :: "open_env \<Rightarrow> string \<Rightarrow> store result" where
  "open_read_only env path0 =
     (if path0 = [] then Inl (Err ''empty storage path'')
      else case oe_abs env path0 of
        Inl e \<Rightarrow> Inl (wrap_err ''resolve storage path'' e)
      | Inr path \<Rightarrow>
          (case oe_exists env path of
             Inl e \<Rightarrow> Inl e
           | Inr ex \<Rightarrow>
               if \<not> ex then
                 Inl (Err (''no ltm database at '' @ path @ ''; run '' @ quote_go ''ltm start'' @
                   '' first''))
               else
                 rbind (connect env path True) (\<lambda>db.
                 Inr \<lparr>st_db = Some db, st_read_only = True\<rparr>)))"

text \<open>\<open>Close\<close> with the error closing the handle gives, if any.\<close>

definition close_store :: "go_error option \<Rightarrow> store \<Rightarrow> store \<times> go_error option" where
  "close_store err st =
     (case st_db st of
        None \<Rightarrow> (st, None)
      | Some db \<Rightarrow> (st\<lparr>st_db := None\<rparr>, err))"

section \<open>Writing\<close>

definition insert_sql :: string where
  "insert_sql = ''INSERT INTO events ('' @ insert_columns @ '') VALUES ('' @ insert_placeholders @ '')''"

text \<open>The arguments of one \<open>ExecContext\<close>, in the order of the insert columns.\<close>

definition event_args :: "event \<Rightarrow> string \<Rightarrow> string \<Rightarrow> sqlval list" where
  "event_args ev md raw =
     [VInt (unix_nano (ev_timestamp ev)), VText (ev_category ev), VText (ev_action ev),
      VInt (ev_pid ev), VInt (ev_ppid ev), VInt (ev_uid ev), VText (ev_comm ev),
      VText (ev_exe ev), VText (ev_container_id ev), VText (ev_cgroup_path ev),
      VText (ev_path ev), VText (ev_old_path ev), VText (ev_local_addr ev),
      VInt (ev_local_port ev), VText (ev_remote_addr ev), VInt (ev_remote_port ev),
      VText (ev_remote_host ev), VInt (ev_target_pid ev), VInt (ev_exit_code ev),
      VInt (ev_dropped_before ev), VText md, VText raw]"

text \<open>
  What happens around one \<open>InsertEvents\<close>: the errors of \<open>BeginTx\<close>, \<open>PrepareContext\<close> and
  \<open>Commit\<close>, the context's error and the clock when the loop reaches event \<open>i\<close>, and the time the
  write took.
\<close>

record tx_env =
  tx_begin :: "go_error option"
  tx_prepare :: "go_error option"
  tx_ctx :: "nat \<Rightarrow> go_error option"
  tx_now :: "nat \<Rightarrow> gotime"
  tx_commit :: "go_error option"
  tx_latency :: int

definition stamp :: "gotime \<Rightarrow> event \<Rightarrow> event" where
  "stamp now ev = (if is_zero_time (ev_timestamp ev) then ev\<lparr>ev_timestamp := now\<rparr> else ev)"

definition raw_or_empty :: "string \<Rightarrow> string" where
  "raw_or_empty raw = (if length raw = 0 then ''{}'' else raw)"

text \<open>The loop over the batch inside the transaction: the working copy of the database, the
  drops summed so far and the error that ended it.\<close>

fun insert_loop ::
    "engine \<Rightarrow> marshaller \<Rightarrow> tx_env \<Rightarrow> nat \<Rightarrow> sqldb \<Rightarrow> int \<Rightarrow> event list \<Rightarrow>
      sqldb \<times> int \<times> go_error option" where
  "insert_loop exec marshal env i db dropped [] = (db, dropped, None)"
| "insert_loop exec marshal env i db dropped (ev0 # evs) =
     (case tx_ctx env i of
        Some e \<Rightarrow> (db, dropped, Some e)
      | None \<Rightarrow>
          let ev = stamp (tx_now env i) ev0 in
          (case marshal (ev_metadata ev) of
             Inl e \<Rightarrow> (db, dropped, Some e)
           | Inr md \<Rightarrow>
               (case exec db insert_sql (event_args ev md (raw_or_empty (ev_raw ev))) of
                  Inl e \<Rightarrow> (db, dropped, Some e)
                | Inr (db', _, _) \<Rightarrow>
                    insert_loop exec marshal env (Suc i) db'
                      (wrap64 (dropped + ev_dropped_before ev)) evs)))"

text \<open>\<open>InsertEvents\<close>: without a commit the deferred \<open>Rollback\<close> restores the database.\<close>

definition insert_events ::
    "engine \<Rightarrow> marshaller \<Rightarrow> tx_env \<Rightarrow> store \<Rightarrow> event list \<Rightarrow>
      store \<times> insert_stats \<times> go_error option" where
  "insert_events exec marshal env st events =
     (if length events = 0 then (st, empty_stats, None)
      else case st_db st of
        None \<Rightarrow> (st, empty_stats, Some (Err ''store closed''))
      | Some db \<Rightarrow>
          if st_read_only st then (st, empty_stats, Some (Err ''store opened read-only''))
          else case tx_begin env of
            Some e \<Rightarrow> (st, empty_stats, Some e)
          | None \<Rightarrow>
              (case tx_prepare env of
                 Some e \<Rightarrow> (st, empty_stats, Some e)
               | None \<Rightarrow>
                   (case insert_loop exec marshal env 0 db 0 events of
                      (db', dropped, Some e) \<Rightarrow>
                        (st, \<lparr>is_dropped = dropped, is_write_latency = tx_latency env\<rparr>, Some e)
                    | (db', dropped, None) \<Rightarrow>
                        (case tx_commit env of
                           Some e \<Rightarrow>
                             (st, \<lparr>is_dropped = dropped, is_write_latency = tx_latency env\<rparr>, Some e)
                         | None \<Rightarrow>
                             (st\<lparr>st_db := Some db'\<rparr>,
                              \<lparr>is_dropped = dropped, is_write_latency = tx_latency env\<rparr>, None)))))"

section \<open>Reading rows back\<close>

fun scan_int :: "sqlval \<Rightarrow> int option" where
  "scan_int (VInt n) = Some n"
| "scan_int (VText s) = atoi s"

text \<open>The positions of the integer columns among those \<open>rows.Scan\<close> fills.\<close>

definition int_positions :: "nat list" where
  "int_positions = [0, 1, 4, 5, 6, 14, 16, 18, 19, 20]"

definition scan_event :: "unmarshaller \<Rightarrow> row \<Rightarrow> event result" where
  "scan_event unmarshal r =
     (if length r \<noteq> 23 \<or> (\<exists>k \<in> set int_positions. scan_int (r ! k) = None)
      then Inl (Err ''sql: Scan error'')
      else
        let int_at = (\<lambda>k. the (scan_int (r ! k)));
            str_at = (\<lambda>k. text_of (r ! k));
            md = str_at 21;
            ev = \<lparr>
              ev_id = int_at 0, ev_schema_version = schema_version, ev_timestamp = int_at 1,
              ev_category = str_at 2, ev_action = str_at 3, ev_pid = int_at 4,
              ev_ppid = int_at 5, ev_uid = int_at 6, ev_comm = str_at 7, ev_exe = str_at 8,
              ev_container_id = str_at 9, ev_cgroup_path = str_at 10, ev_path = str_at 11,
              ev_old_path = str_at 12, ev_local_addr = str_at 13, ev_local_port = int_at 14,
              ev_remote_addr = str_at 15, ev_remote_port = int_at 16, ev_remote_host = str_at 17,
              ev_target_pid = int_at 18, ev_exit_code = int_at 19, ev_dropped_before = int_at 20,
              ev_metadata = None, ev_raw = str_at 22\<rparr>
        in if md \<noteq> [] \<and> md \<noteq> ''{}'' then
             (case unmarshal md of
                Inl e \<Rightarrow> Inl e
              | Inr m \<Rightarrow> Inr (ev\<lparr>ev_metadata := m\<rparr>))
           else Inr ev)"

definition query_events ::
    "engine \<Rightarrow> unmarshaller \<Rightarrow> store \<Rightarrow> string \<Rightarrow> sqlval list \<Rightarrow> event list result" where
  "query_events exec unmarshal st q args =
     (case st_db st of
        None \<Rightarrow> nil_db
      | Some db \<Rightarrow>
          rbind (exec db q args) (\<lambda>(db', rows, n). rmap (scan_event unmarshal) rows))"


section \<open>Queries\<close>

definition status_sql :: string where
  "status_sql =
     ''SELECT COUNT('' @ ''*), COALESCE(MIN(ts), 0), COALESCE(MAX(ts), 0), COALESCE(SUM(dropped_before), 0) FROM events''"

definition store_status :: "engine \<Rightarrow> store \<Rightarrow> status result" where
  "store_status exec st =
     (case st_db st of
        None \<Rightarrow> nil_db
      | Some db \<Rightarrow>
          (case exec db status_sql [] of
             Inl e \<Rightarrow> Inl e
           | Inr (db', rows, n) \<Rightarrow>
               (case rows of
                  [[c, mi, ma, d]] \<Rightarrow>
                    (case (scan_int c, scan_int mi, scan_int ma, scan_int d) of
                       (Some count, Some min_ts, Some max_ts, Some dropped) \<Rightarrow>
                         Inr \<lparr>status_event_count = count, status_dropped_events = dropped,
                              status_last_event_time = (if max_ts \<noteq> 0 then max_ts else zero_time),
                              status_started_at = (if min_ts \<noteq> 0 then min_ts else zero_time)\<rparr>
                     | _ \<Rightarrow> Inl (Err ''sql: Scan error''))
                | _ \<Rightarrow> Inl (Err ''sql: no rows in result set''))))"

definition latest_id_sql :: string where
  "latest_id_sql = ''SELECT COALESCE(MAX(id), 0) FROM events''"

definition latest_event_id :: "engine \<Rightarrow> store \<Rightarrow> int result" where
  "latest_event_id exec st =
     (case st_db st of
        None \<Rightarrow> nil_db
      | Some db \<Rightarrow>
          (case exec db latest_id_sql [] of
             Inl e \<Rightarrow> Inl e
           | Inr (db', rows, n) \<Rightarrow>
               (case rows of
                  [[v]] \<Rightarrow>
                    (case scan_int v of Some i \<Rightarrow> Inr i | None \<Rightarrow> Inl (Err ''sql: Scan error''))
                | _ \<Rightarrow> Inl (Err ''sql: no rows in result set''))))"

definition events_after_sql :: string where
  "events_after_sql =
     ''SELECT '' @ event_columns @ '' FROM events WHERE id > ? ORDER BY id ASC LIMIT ?''"

definition events_after_id ::
    "engine \<Rightarrow> unmarshaller \<Rightarrow> store \<Rightarrow> int \<Rightarrow> int \<Rightarrow> event list result" where
  "events_after_id exec unmarshal st after_id limit0 =
     (let limit = (if limit0 \<le> 0 then 500 else limit0)
      in query_events exec unmarshal st events_after_sql [VInt after_id, VInt limit])"

definition placeholders :: "nat \<Rightarrow> string" where
  "placeholders n = trim_suffix (repeat_str ''?,'' n) '',''"

text \<open>
  The \<open>where\<close> and \<open>args\<close> slices of \<open>Query\<close>, which grow together: each condition with the
  arguments appended for it, in the order of the code.
\<close>

type_synonym sql_cond = "string \<times> sqlval list"

definition cond_if :: "bool \<Rightarrow> string \<Rightarrow> sqlval list \<Rightarrow> sql_cond list" where
  "cond_if b text args = (if b then [(text, args)] else [])"

definition in_cond :: "string \<Rightarrow> sqlval list \<Rightarrow> sql_cond list" where
  "in_cond c vs =
     cond_if (length vs > 0) (c @ '' IN ('' @ placeholders (length vs) @ '')'') vs"

definition query_conds :: "event_filter \<Rightarrow> sql_cond list" where
  "query_conds f =
     cond_if (\<not> is_zero_time (f_from f)) ''ts >= ?'' [VInt (unix_nano (f_from f))] @
     cond_if (\<not> is_zero_time (f_to f)) ''ts <= ?'' [VInt (unix_nano (f_to f))] @
     in_cond ''pid'' (map VInt (f_pids f)) @
     in_cond ''uid'' (map VInt (f_uids f)) @
     in_cond ''category'' (map VText (f_categories f)) @
     in_cond ''action'' (map VText (f_actions f)) @
     in_cond ''comm'' (map VText (f_comms f)) @
     cond_if (f_path_like f \<noteq> []) ''(path LIKE ? OR old_path LIKE ?)''
       [VText (f_path_like f), VText (f_path_like f)] @
     cond_if (f_exe_like f \<noteq> []) ''exe LIKE ?'' [VText (f_exe_like f)] @
     cond_if (f_exact_path f \<noteq> []) ''(path = ? OR old_path = ?)''
       [VText (f_exact_path f), VText (f_exact_path f)]"

definition query_limit :: "event_filter \<Rightarrow> int" where
  "query_limit f = (if f_limit f \<le> 0 then 200 else f_limit f)"

definition query_sql :: "event_filter \<Rightarrow> string" where
  "query_sql f =
     ''SELECT '' @ event_columns @ '' FROM events'' @
     (if query_conds f \<noteq> [] then '' WHERE '' @ join '' AND '' (map fst (query_conds f)) else []) @
     (if f_order_asc f then '' ORDER BY ts ASC, id ASC LIMIT ?''
      else '' ORDER BY ts DESC, id DESC LIMIT ?'')"

definition query_args :: "event_filter \<Rightarrow> sqlval list" where
  "query_args f = concat (map snd (query_conds f)) @ [VInt (query_limit f)]"

definition store_query :: "engine \<Rightarrow> unmarshaller \<Rightarrow> store \<Rightarrow> event_filter \<Rightarrow> event list result"
  where
  "store_query exec unmarshal st f =
     (case validate_filter f of
        Some e \<Rightarrow> Inl e
      | None \<Rightarrow> query_events exec unmarshal st (query_sql f) (query_args f))"

section \<open>Free-text search\<close>

definition text_search_columns :: "string list" where
  "text_search_columns =
     [''category'', ''action'', ''comm'', ''exe'', ''path'', ''old_path'', ''local_addr'',
      ''remote_addr'', ''remote_host'', ''container_id'', ''cgroup_path'']"

text \<open>\<open>escapeLike\<close>: the replacer's three pairs have single-character patterns, so it maps
  character by character.\<close>

definition escape_like_char :: "char \<Rightarrow> string" where
  "escape_like_char c =
     (if c = CHR 0x5C then [CHR 0x5C, CHR 0x5C]
      else if c = CHR ''%'' then [CHR 0x5C, CHR ''%'']
      else if c = CHR ''_'' then [CHR 0x5C, CHR ''_'']
      else [c])"

definition escape_like :: "string \<Rightarrow> string" where
  "escape_like s = concat (map escape_like_char s)"

fun normalize_terms :: "string list \<Rightarrow> string list" where
  "normalize_terms [] = []"
| "normalize_terms (t # ts) =
     (let term1 = to_lower (trim_space t)
      in if term1 \<noteq> [] then term1 # normalize_terms ts else normalize_terms ts)"

definition term_pattern :: "string \<Rightarrow> string" where
  "term_pattern t = ''%'' @ escape_like t @ ''%''"

definition text_cond :: "string \<Rightarrow> string" where
  "text_cond c =
     ''lower('' @ c @ '') LIKE ? ESCAPE '' @ [quote_sq, CHR 0x5C, quote_sq]"

definition text_where :: string where
  "text_where = ''('' @ join '' OR '' (map text_cond text_search_columns) @ '')''"

definition query_text_sql :: "string list \<Rightarrow> string" where
  "query_text_sql terms =
     ''SELECT '' @ event_columns @ '' FROM events WHERE '' @
     join '' AND '' (map (\<lambda>t. text_where) terms) @ '' ORDER BY ts DESC, id DESC LIMIT ?''"

definition query_text_args :: "string list \<Rightarrow> int \<Rightarrow> sqlval list" where
  "query_text_args terms limit =
     concat (map (\<lambda>t. map (\<lambda>c. VText (term_pattern t)) text_search_columns) terms) @ [VInt limit]"

definition store_query_text ::
    "engine \<Rightarrow> unmarshaller \<Rightarrow> store \<Rightarrow> string list \<Rightarrow> int \<Rightarrow> event list result" where
  "store_query_text exec unmarshal st terms0 limit0 =
     (let limit = (if limit0 \<le> 0 then 200 else limit0);
          terms = normalize_terms terms0
      in if length terms = 0 then Inr []
         else query_events exec unmarshal st (query_text_sql terms) (query_text_args terms limit))"

section \<open>Sockets\<close>

definition sockets_sql :: string where
  "sockets_sql =
     (let nl = [newline, CHR 0x09, CHR 0x09]; none = [quote_sq, quote_sq] in
      nl @ ''SELECT pid, comm, local_port, action, ts'' @
      nl @ ''FROM events'' @
      nl @ ''WHERE category = '' @ [quote_sq] @ ''network'' @ [quote_sq] @
        '' AND (local_addr != '' @ none @ '' OR remote_addr != '' @ none @ '')'' @
      nl @ ''ORDER BY ts DESC, id DESC LIMIT ?'')"

definition scan_socket :: "row \<Rightarrow> socket_record result" where
  "scan_socket r =
     (case r of
        [p, c, lp, a, t] \<Rightarrow>
          (case (scan_int p, scan_int lp, scan_int t) of
             (Some pid, Some port, Some ts) \<Rightarrow>
               Inr \<lparr>sr_pid = pid, sr_comm = text_of c, sr_local_port = port,
                    sr_state = text_of a, sr_seen_at = ts\<rparr>
           | _ \<Rightarrow> Inl (Err ''sql: Scan error''))
      | _ \<Rightarrow> Inl (Err ''sql: Scan error''))"

definition store_sockets :: "engine \<Rightarrow> store \<Rightarrow> int \<Rightarrow> socket_record list result" where
  "store_sockets exec st limit0 =
     (let limit = (if limit0 \<le> 0 then 200 else limit0) in
      case st_db st of
        None \<Rightarrow> nil_db
      | Some db \<Rightarrow>
          rbind (exec db sockets_sql [VInt limit]) (\<lambda>(db', rows, n). rmap scan_socket rows))"

section \<open>Raw SQL\<close>

definition max_raw_sql_rows :: nat where
  "max_raw_sql_rows = 10000"

text \<open>
  \<open>RawSQL\<close> runs a text of the user's. It gives the store after the statement with the rows,
  and no more than the cap of them. \<open>columns\<close> are the names the driver reports.
\<close>

definition raw_sql ::
    "engine \<Rightarrow> (string \<Rightarrow> string list) \<Rightarrow> store \<Rightarrow> string \<Rightarrow>
      store \<times> (string list \<times> row list) result" where
  "raw_sql exec columns st q =
     (if \<not> st_read_only st then (st, Inl (Err ''raw SQL requires read-only store''))
      else if has_multiple_statements q then
        (st, Inl (Err ''raw SQL must be a single statement''))
      else case st_db st of
        None \<Rightarrow> (st, nil_db)
      | Some db \<Rightarrow>
          (case exec db q [] of
             Inl e \<Rightarrow> (st, Inl e)
           | Inr (db', rows, n) \<Rightarrow>
               (st\<lparr>st_db := Some db'\<rparr>,
                if length rows > max_raw_sql_rows then
                  Inl (Err (''raw SQL result has more than '' @ itoa (int max_raw_sql_rows) @
                    '' rows; add a LIMIT to the query''))
                else Inr (columns q, rows))))"

section \<open>Pruning\<close>

definition delete_sql :: string where
  "delete_sql = ''DELETE FROM events WHERE ts < ?''"

text \<open>\<open>Prune\<close>: the store afterwards, the number of rows removed and the error, if any. The
  count is also returned with an error of \<open>VACUUM\<close>.\<close>

definition prune_events ::
    "engine \<Rightarrow> store \<Rightarrow> gotime \<Rightarrow> bool \<Rightarrow> store \<times> int \<times> go_error option" where
  "prune_events exec st cutoff vacuum =
     (if st_read_only st then (st, 0, Some (Err ''store opened read-only''))
      else case st_db st of
        None \<Rightarrow> (st, 0, Some (Panic ''invalid memory address or nil pointer dereference''))
      | Some db \<Rightarrow>
          (case exec db delete_sql [VInt (unix_nano cutoff)] of
             Inl e \<Rightarrow> (st, 0, Some e)
           | Inr (db', rows, n) \<Rightarrow>
               (if n = 0 \<or> \<not> vacuum then (st\<lparr>st_db := Some db'\<rparr>, n, None)
                else case exec db' ''VACUUM'' [] of
                  Inl e \<Rightarrow> (st\<lparr>st_db := Some db'\<rparr>, n, Some e)
                | Inr (db'', rows', n') \<Rightarrow> (st\<lparr>st_db := Some db''\<rparr>, n, None))))"

end
