(* ===== verification/StoreText.thy ===== *)
theory StoreText imports Store begin

text \<open>
  The texts the store builds are read back as the statements they are meant to be: the fixed
  statements by evaluation, the texts of \<open>Query\<close> and \<open>QueryText\<close> piece by piece. For \<open>Query\<close> the
  conditions that grow along the code's \<open>if\<close>s are matched, one by one, with clauses of the
  syntax (\<open>filter_where\<close>) that take exactly the arguments appended for them.
\<close>

section \<open>Tokens of the syntax\<close>

fun atom_tokens :: "atom \<Rightarrow> token list" where
  "atom_tokens (Cmp c op) = Word c # cmp_tokens op @ [Sym CHR ''?'']"
| "atom_tokens (InList c n) =
     [Word c, Word ''IN'', Sym CHR ''(''] @ join [Sym CHR '',''] (replicate n [Sym CHR ''?'']) @
     [Sym CHR '')'']"
| "atom_tokens (Like c) = [Word c, Word ''LIKE'', Sym CHR ''?'']"
| "atom_tokens (LowerLike c e) =
     [Word ''lower'', Sym CHR ''('', Word c, Sym CHR '')'', Word ''LIKE'', Sym CHR ''?'',
      Word ''ESCAPE'', Lit [e]]"
| "atom_tokens (EqLit c s) = [Word c, Sym CHR ''='', Lit s]"
| "atom_tokens (NeLit c s) = [Word c, Sym CHR ''!'', Sym CHR ''='', Lit s]"

fun clause_tokens :: "clause \<Rightarrow> token list" where
  "clause_tokens (Single a) = atom_tokens a"
| "clause_tokens (AnyOf as) =
     [Sym CHR ''(''] @ join [Word ''OR''] (map atom_tokens as) @ [Sym CHR '')'']"

fun atom_ok :: "atom \<Rightarrow> bool" where
  "atom_ok (Cmp c op) = (c \<in> set event_column_names)"
| "atom_ok (InList c n) = (c \<in> set event_column_names \<and> n > 0)"
| "atom_ok (Like c) = (c \<in> set event_column_names)"
| "atom_ok (LowerLike c e) = (c \<in> set event_column_names)"
| "atom_ok (EqLit c s) = (c \<in> set event_column_names)"
| "atom_ok (NeLit c s) = (c \<in> set event_column_names)"

fun clause_ok :: "clause \<Rightarrow> bool" where
  "clause_ok (Single a) = atom_ok a"
| "clause_ok (AnyOf as) = (as \<noteq> [] \<and> list_all atom_ok as)"

lemma length_join_ge: "[] \<notin> set xs \<Longrightarrow> length xs \<le> length (join sep xs)"
proof (induction xs)
  case (Cons x xs)
  then have "length xs \<le> length (join sep xs)" and "0 < length x" by auto
  then show ?case by (auto simp: join_Cons simp del: length_greater_0_conv)
qed simp

lemma parse_marks:
  assumes "n > 0" and "n \<le> m"
  shows "parse_sep m parse_mark (Sym CHR '','')
      (join [Sym CHR '',''] (replicate n [Sym CHR ''?'']) @ Sym CHR '')'' # r) =
    Some (replicate n (), Sym CHR '')'' # r)"
  using assms
    parse_sep_join [of "replicate n ()" parse_mark "\<lambda>_. [Sym CHR ''?'']" m "Sym CHR '')'' # r"
      "Sym CHR '',''"]
  by simp

lemma lower_not_column: "''lower'' \<notin> set event_column_names"
  by (simp add: event_column_names_def)

lemma parse_cond_in:
  assumes "n > 0"
  shows "parse_cond c (Word ''IN'' # Sym CHR ''('' #
      join [Sym CHR '',''] (replicate n [Sym CHR ''?'']) @ Sym CHR '')'' # r) =
    Some (InList c n, r)"
proof -
  let ?ts = "join [Sym CHR '',''] (replicate n [Sym CHR ''?'']) @ Sym CHR '')'' # r"
  have "n \<le> length ?ts"
    using length_join_ge [of "replicate n [Sym CHR ''?'']" "[Sym CHR '','']"] by auto
  then show ?thesis using assms by (simp add: parse_marks del: parse_sep.simps)
qed

lemma parse_atom_tokens: "atom_ok a \<Longrightarrow> parse_atom (atom_tokens a @ r) = Some (a, r)"
proof (cases a)
  case (Cmp c op)
  assume "atom_ok a"
  with Cmp lower_not_column show ?thesis by (cases op) (auto simp: cmp_tokens_def)
next
  case (InList c n)
  assume "atom_ok a"
  with InList lower_not_column parse_cond_in [of n c r] show ?thesis by auto
qed (use lower_not_column in auto)

lemma atom_tokens_nonempty [simp]: "atom_tokens a \<noteq> []" "[] \<noteq> atom_tokens a"
  by (cases a; auto)+

lemma atom_tokens_hd: "\<exists>w ts. atom_tokens a = Word w # ts"
  by (cases a) auto

lemma parse_clause_tokens:
  assumes "clause_ok c"
  shows "parse_clause (clause_tokens c @ r) = Some (c, r)"
proof (cases c)
  case (Single a)
  obtain w ts where w: "atom_tokens a = Word w # ts" using atom_tokens_hd by blast
  have "parse_atom (atom_tokens a @ r) = Some (a, r)"
    using assms Single by (simp add: parse_atom_tokens)
  with Single w show ?thesis by simp
next
  case (AnyOf as)
  let ?ts = "join [Word ''OR''] (map atom_tokens as) @ Sym CHR '')'' # r"
  have "length as \<le> length ?ts"
    using length_join_ge [of "map atom_tokens as" "[Word ''OR'']"]
    by (auto simp: image_iff)
  then have "parse_sep (length ?ts) parse_atom (Word ''OR'') ?ts = Some (as, Sym CHR '')'' # r)"
    using assms AnyOf by (intro parse_sep_join) (auto simp: parse_atom_tokens list_all_iff)
  with AnyOf show ?thesis by simp
qed

lemma clause_tokens_nonempty [simp]: "clause_tokens c \<noteq> []" "[] \<noteq> clause_tokens c"
  by (cases c; auto simp: atom_tokens_nonempty)+

section \<open>The fixed statements\<close>

lemma parse_status_sql:
  "parse_sql status_sql =
     Some (Aggregate [CountAll, MinOf ''ts'', MaxOf ''ts'', SumOf ''dropped_before''])"
  by code_simp

lemma parse_latest_id_sql: "parse_sql latest_id_sql = Some (Aggregate [MaxOf ''id''])"
  by code_simp

lemma parse_delete_sql: "parse_sql delete_sql = Some (Delete (Cmp ''ts'' CmpLt))"
  by code_simp

lemma parse_vacuum: "parse_sql ''VACUUM'' = Some Vacuum"
  by code_simp

lemma parse_sockets_sql:
  "parse_sql sockets_sql =
     Some (Select [''pid'', ''comm'', ''local_port'', ''action'', ''ts'']
       [Single (EqLit ''category'' ''network''),
        AnyOf [NeLit ''local_addr'' [], NeLit ''remote_addr'' []]]
       [(''ts'', False), (''id'', False)])"
  by code_simp

lemma parse_insert_sql: "parse_sql insert_sql = Some (Insert insert_column_names)"
  by code_simp

lemma parse_events_after_sql:
  "parse_sql events_after_sql =
     Some (Select event_column_names [Single (Cmp ''id'' CmpGt)] [(''id'', True)])"
  by code_simp

section \<open>The text of Query\<close>

definition clause_if :: "bool \<Rightarrow> clause \<Rightarrow> clause list" where
  "clause_if b c = (if b then [c] else [])"

definition in_clause :: "string \<Rightarrow> nat \<Rightarrow> clause list" where
  "in_clause c n = clause_if (n > 0) (Single (InList c n))"

definition filter_where :: "event_filter \<Rightarrow> clause list" where
  "filter_where f =
     clause_if (\<not> is_zero_time (f_from f)) (Single (Cmp ''ts'' CmpGe)) @
     clause_if (\<not> is_zero_time (f_to f)) (Single (Cmp ''ts'' CmpLe)) @
     in_clause ''pid'' (length (f_pids f)) @
     in_clause ''uid'' (length (f_uids f)) @
     in_clause ''category'' (length (f_categories f)) @
     in_clause ''action'' (length (f_actions f)) @
     in_clause ''comm'' (length (f_comms f)) @
     clause_if (f_path_like f \<noteq> []) (AnyOf [Like ''path'', Like ''old_path'']) @
     clause_if (f_exe_like f \<noteq> []) (Single (Like ''exe'')) @
     clause_if (f_exact_path f \<noteq> []) (AnyOf [Cmp ''path'' CmpEq, Cmp ''old_path'' CmpEq])"

definition filter_order :: "event_filter \<Rightarrow> order_term list" where
  "filter_order f = [(''ts'', f_order_asc f), (''id'', f_order_asc f)]"

text \<open>A condition of the code against a clause: same tokens, and the clause's arguments.\<close>

definition cond_rel :: "sql_cond \<Rightarrow> clause \<Rightarrow> bool" where
  "cond_rel x c \<longleftrightarrow>
     piece (fst x) (clause_tokens c) \<and> clause_ok c \<and> length (snd x) = clause_params c"

lemma cond_rel_if:
  "(b \<Longrightarrow> cond_rel (text, args) c) \<Longrightarrow> list_all2 cond_rel (cond_if b text args) (clause_if b c)"
  by (simp add: cond_if_def clause_if_def)

lemma placeholders_join: "placeholders n = join '','' (replicate n ''?'')"
proof -
  have "repeat_str ''?,'' (Suc m) = join '','' (replicate (Suc m) ''?'') @ '',''" for m
    by (induction m) (auto simp: repeat_str_def join_Cons)
  then show ?thesis
    by (cases n) (auto simp: placeholders_def repeat_str_def trim_suffix_def)
qed

lemma piece_marks:
  "piece (join '','' (replicate n ''?'')) (join [Sym CHR '',''] (replicate n [Sym CHR ''?'']))"
  by (intro piece_join) (auto simp: list_all2_conv_all_nth piece_def lexical)

lemma cond_rel_in:
  assumes "piece (c @ '' IN ('') [Word c, Word ''IN'', Sym CHR ''('']"
    and "c \<in> set event_column_names"
  shows "list_all2 cond_rel (in_cond c vs) (in_clause c (length vs))"
proof -
  let ?m = "join '','' (replicate (length vs) ''?'')"
  have "piece ((c @ '' IN ('') @ ?m @ '')'') ([Word c, Word ''IN'', Sym CHR ''(''] @
      join [Sym CHR '',''] (replicate (length vs) [Sym CHR ''?'']) @ [Sym CHR '')''])"
    by (intro piece_append assms(1) piece_marks) (simp add: piece_def lexical)
  with assms(2) show ?thesis
    unfolding in_cond_def in_clause_def placeholders_join
    by (auto intro!: cond_rel_if simp: cond_rel_def)
qed

lemma query_conds_where: "list_all2 cond_rel (query_conds f) (filter_where f)"
  unfolding query_conds_def filter_where_def
  by (intro list_all2_appendI cond_rel_if
      cond_rel_in [of _ "map VInt _", simplified] cond_rel_in [of _ "map VText _", simplified])
    (simp_all add: cond_rel_def piece_def lexical cmp_tokens_def event_column_names_def)

text \<open>The statement, from its pieces: columns, conditions, order.\<close>

lemma parse_where_clauses:
  assumes "cs \<noteq> []" and "list_all clause_ok cs" and "tl_ts \<noteq> []" and "hd tl_ts = Word ''ORDER''"
  shows "parse_where cols
      (Word ''WHERE'' # join [Word ''AND''] (map clause_tokens cs) @ tl_ts) =
    parse_tail cols cs tl_ts"
proof -
  let ?ts = "join [Word ''AND''] (map clause_tokens cs) @ tl_ts"
  have "length cs \<le> length (Word ''WHERE'' # ?ts)"
    using length_join_ge [of "map clause_tokens cs" "[Word ''AND'']"] by (auto simp: image_iff)
  then have "parse_sep (length (Word ''WHERE'' # ?ts)) parse_clause (Word ''AND'') ?ts =
      Some (cs, tl_ts)"
    using assms by (intro parse_sep_join) (auto simp: parse_clause_tokens list_all_iff)
  then show ?thesis by (simp add: parse_where_def del: parse_sep.simps)
qed

abbreviation (input) select_tokens :: "token list" where
  "select_tokens \<equiv> Word ''SELECT'' #
     join [Sym CHR '',''] (map (\<lambda>c. [Word c]) event_column_names) @ [Word ''FROM'', Word ''events'']"

definition order_tokens :: "string \<Rightarrow> token list" where
  "order_tokens d = [Word ''ORDER'', Word ''BY'', Word ''ts'', Word d, Sym CHR '','', Word ''id'', Word d,
     Word ''LIMIT'', Sym CHR ''?'']"

lemma parse_tail_order:
  "d = ''ASC'' \<or> d = ''DESC'' \<Longrightarrow> parse_tail cols cs (order_tokens d) =
     Some (Select cols cs [(''ts'', d = ''ASC''), (''id'', d = ''ASC'')])"
  by (auto simp: parse_tail_def order_tokens_def event_column_names_def)

lemma parse_select_columns:
  "parse_tokens (select_tokens @ r) =
     (case expect [] r of None \<Rightarrow> None | Some ts \<Rightarrow> parse_where event_column_names ts)"
  if "r \<noteq> []" "hd r = Word ''WHERE'' \<or> hd r = Word ''ORDER''"
  using that by (cases r) (auto simp: parse_tokens_def parse_select_def event_column_names_def)

lemma piece_select_where:
  "piece (''SELECT '' @ event_columns @ '' FROM events WHERE '') (select_tokens @ [Word ''WHERE''])"
  by (simp add: piece_def event_columns_def event_column_names_def lexical)

lemma piece_select_order:
  "piece (''SELECT '' @ event_columns @ '' FROM events ORDER BY ts ASC, id ASC LIMIT ?'')
     (select_tokens @ order_tokens ''ASC'')"
  "piece (''SELECT '' @ event_columns @ '' FROM events ORDER BY ts DESC, id DESC LIMIT ?'')
     (select_tokens @ order_tokens ''DESC'')"
  by (simp_all add: piece_def event_columns_def event_column_names_def lexical order_tokens_def)

lemma piece_order:
  "piece '' ORDER BY ts ASC, id ASC LIMIT ?'' (order_tokens ''ASC'')"
  "piece '' ORDER BY ts DESC, id DESC LIMIT ?'' (order_tokens ''DESC'')"
  by (simp_all add: piece_def lexical order_tokens_def)

lemma parse_sql_piece:
  assumes "piece q ts" and "hd q \<noteq> CHR ''C''"
  shows "parse_sql q = parse_tokens ts"
  using parse_sql_tokens [OF tokens_piece] assms by blast

lemma parse_select_where:
  assumes "list_all2 piece texts (map clause_tokens cs)" and "cs \<noteq> []" and "list_all clause_ok cs"
    and "piece tail (order_tokens d)" and "d = ''ASC'' \<or> d = ''DESC''"
  shows "parse_sql (''SELECT '' @ event_columns @ '' FROM events WHERE '' @
      join '' AND '' texts @ tail) =
    Some (Select event_column_names cs [(''ts'', d = ''ASC''), (''id'', d = ''ASC'')])"
proof -
  have "piece ((''SELECT '' @ event_columns @ '' FROM events WHERE '') @ join '' AND '' texts @ tail)
      ((select_tokens @ [Word ''WHERE'']) @
        join [Word ''AND''] (map clause_tokens cs) @ order_tokens d)"
    by (intro piece_append piece_select_where piece_join assms(1,4))
      (simp add: piece_def lexical)
  then have "parse_sql (''SELECT '' @ event_columns @ '' FROM events WHERE '' @
      join '' AND '' texts @ tail) =
      parse_tokens (select_tokens @
        (Word ''WHERE'' # join [Word ''AND''] (map clause_tokens cs) @ order_tokens d))"
    by (subst parse_sql_piece) (simp_all only: append_assoc append_Cons append_Nil, simp_all)
  also have "\<dots> = parse_where event_column_names
      (Word ''WHERE'' # join [Word ''AND''] (map clause_tokens cs) @ order_tokens d)"
    by (subst parse_select_columns) simp_all
  also have "\<dots> = parse_tail event_column_names cs (order_tokens d)"
    by (rule parse_where_clauses [OF assms(2,3)]) (simp_all add: order_tokens_def)
  also have "\<dots> = Some (Select event_column_names cs [(''ts'', d = ''ASC''), (''id'', d = ''ASC'')])"
    by (rule parse_tail_order [OF assms(5)])
  finally show ?thesis .
qed

lemma parse_query_sql:
  "parse_sql (query_sql f) = Some (Select event_column_names (filter_where f) (filter_order f))"
proof (cases "query_conds f = []")
  case True
  then have none: "filter_where f = []"
    using query_conds_where [of f] by simp
  show ?thesis
  proof (cases "f_order_asc f")
    case asc: True
    have "parse_sql (query_sql f) = parse_tokens (select_tokens @ order_tokens ''ASC'')"
      using True asc parse_sql_piece [OF piece_select_order(1)] by (simp add: query_sql_def)
    also have "\<dots> = parse_where event_column_names (order_tokens ''ASC'')"
      by (subst parse_select_columns) (simp_all add: order_tokens_def)
    finally show ?thesis
      using none asc parse_tail_order [of "''ASC''"]
      by (simp add: parse_where_def order_tokens_def filter_order_def)
  next
    case desc: False
    have "parse_sql (query_sql f) = parse_tokens (select_tokens @ order_tokens ''DESC'')"
      using True desc parse_sql_piece [OF piece_select_order(2)] by (simp add: query_sql_def)
    also have "\<dots> = parse_where event_column_names (order_tokens ''DESC'')"
      by (subst parse_select_columns) (simp_all add: order_tokens_def)
    finally show ?thesis
      using none desc parse_tail_order [of "''DESC''"]
      by (simp add: parse_where_def order_tokens_def filter_order_def)
  qed
next
  case False
  have rel: "list_all2 cond_rel (query_conds f) (filter_where f)" by (rule query_conds_where)
  then have some: "filter_where f \<noteq> []" using False by auto
  have pieces: "list_all2 piece (map fst (query_conds f)) (map clause_tokens (filter_where f))"
    using rel by (auto simp: list_all2_map1 list_all2_map2 cond_rel_def elim: list_all2_mono)
  have ok: "list_all clause_ok (filter_where f)"
    using rel by (auto simp: list_all2_conv_all_nth list_all_length cond_rel_def)
  show ?thesis
    using parse_select_where [OF pieces some ok piece_order(1)]
      parse_select_where [OF pieces some ok piece_order(2)] False
    by (cases "f_order_asc f") (simp_all add: query_sql_def filter_order_def)
qed

subsection \<open>The text of QueryText\<close>

definition text_clause :: clause where
  "text_clause = AnyOf (map (\<lambda>c. LowerLike c CHR 0x5C) text_search_columns)"

lemma piece_text_where: "piece text_where (clause_tokens text_clause)"
  by (simp add: piece_def text_where_def text_clause_def text_cond_def text_search_columns_def lexical)

lemma text_clause_ok: "clause_ok text_clause"
  by (simp add: text_clause_def text_search_columns_def event_column_names_def)

lemma parse_query_text_sql:
  assumes "terms \<noteq> []"
  shows "parse_sql (query_text_sql terms) =
    Some (Select event_column_names (map (\<lambda>t. text_clause) terms) [(''ts'', False), (''id'', False)])"
proof -
  have "list_all2 piece (map (\<lambda>t. text_where) terms)
      (map clause_tokens (map (\<lambda>t. text_clause) terms))"
    by (simp add: list_all2_map1 list_all2_map2 piece_text_where list_all2_same)
  from parse_select_where [OF this _ _ piece_order(2)] assms text_clause_ok show ?thesis
    by (simp add: query_text_sql_def list_all_iff)
qed

end
