(* ===== verification/Json.thy ===== *)
theory Json imports Types "HOL-Library.AList" "HOL-Library.List_Lexorder" begin

text \<open>
  \<open>encoding/json\<close> on event metadata, a flat \<open>map[string]any\<close>. \<open>json_marshal\<close> writes the
  members in the order of their keys, without white space, escaping as Go does (\<open><\<close>, \<open>>\<close> and
  \<open>&\<close> as \<open>\\u003c\<close> and so on); \<open>json_unmarshal\<close> reads objects of strings and integers without
  white space, which is what \<open>json_marshal\<close> writes. Text is taken to be valid UTF-8: bytes
  above 127 pass through both ways. A number comes back as the nearest floating-point number.
  The locale \<open>json_codec\<close> is what the store relies on.
\<close>

section \<open>Writing\<close>

definition hex4 :: "nat \<Rightarrow> string" where
  "hex4 n = ''00'' @ [hex_char (n div 16), hex_char (n mod 16)]"

definition json_char :: "char \<Rightarrow> string" where
  "json_char c =
     (let n = byte_val c; bs = CHR 0x5C in
      if n = 34 \<or> n = 92 then [bs, c]
      else if n = 8 then [bs, CHR ''b'']
      else if n = 12 then [bs, CHR ''f'']
      else if n = 10 then [bs, CHR ''n'']
      else if n = 13 then [bs, CHR ''r'']
      else if n = 9 then [bs, CHR ''t'']
      else if n < 32 \<or> n = 60 \<or> n = 62 \<or> n = 38 then [bs, CHR ''u''] @ hex4 n
      else [c])"

definition json_string :: "string \<Rightarrow> string" where
  "json_string s = [CHR 0x22] @ concat (map json_char s) @ [CHR 0x22]"

fun json_value :: "any_value \<Rightarrow> string" where
  "json_value (AString s) = json_string s"
| "json_value (AInt n) = itoa n"
| "json_value (AFloat n) = itoa n"

definition json_member :: "string \<times> any_value \<Rightarrow> string" where
  "json_member kv = json_string (fst kv) @ '':'' @ json_value (snd kv)"

definition json_marshal :: "metadata \<Rightarrow> string result" where
  "json_marshal m =
     (case m of
        None \<Rightarrow> Inr ''null''
      | Some kvs \<Rightarrow> Inr (''{'' @ join '','' (map json_member (sort_key fst kvs)) @ ''}''))"

section \<open>Reading\<close>

definition hex_val :: "char \<Rightarrow> nat option" where
  "hex_val c =
     (let n = byte_val c in
      if 48 \<le> n \<and> n \<le> 57 then Some (n - 48)
      else if 97 \<le> n \<and> n \<le> 102 then Some (n - 87)
      else if 65 \<le> n \<and> n \<le> 70 then Some (n - 55)
      else None)"

text \<open>A code point of the basic plane in UTF-8; a lone surrogate becomes U+FFFD.\<close>

definition utf8_encode :: "nat \<Rightarrow> string" where
  "utf8_encode n =
     (if n < 128 then [char_of n]
      else if n < 2048 then [char_of (192 + n div 64), char_of (128 + n mod 64)]
      else if 55296 \<le> n \<and> n < 57344 then [char_of (239::nat), char_of (191::nat), char_of (189::nat)]
      else [char_of (224 + n div 4096), char_of (128 + n div 64 mod 64), char_of (128 + n mod 64)])"

fun unescape :: "string \<Rightarrow> (string \<times> string) option" where
  "unescape [] = None"
| "unescape (e # s) =
     (let n = byte_val e in
      if n = 34 \<or> n = 92 \<or> n = 47 then Some ([e], s)
      else if n = 98 then Some ([char_of (8::nat)], s)
      else if n = 102 then Some ([char_of (12::nat)], s)
      else if n = 110 then Some ([char_of (10::nat)], s)
      else if n = 114 then Some ([char_of (13::nat)], s)
      else if n = 116 then Some ([char_of (9::nat)], s)
      else if n = 117 then
        (case s of
           a # b # c # d # s' \<Rightarrow>
             (case (hex_val a, hex_val b, hex_val c, hex_val d) of
                (Some w, Some x, Some y, Some z) \<Rightarrow>
                  Some (utf8_encode (((w * 16 + x) * 16 + y) * 16 + z), s')
              | _ \<Rightarrow> None)
         | _ \<Rightarrow> None)
      else None)"

lemma unescape_shorter: "unescape s = Some (t, s') \<Longrightarrow> length s' < length s"
  by (cases s) (auto simp: Let_def split: if_splits list.splits option.splits)

text \<open>The rest of a string after its opening quote, and what follows it.\<close>

function read_string :: "string \<Rightarrow> (string \<times> string) option" where
  "read_string [] = None"
| "read_string (c # s) =
     (if c = CHR 0x22 then Some ([], s)
      else if c = CHR 0x5C then
        (case unescape s of
           None \<Rightarrow> None
         | Some (t, s') \<Rightarrow> map_option (\<lambda>(u, r). (t @ u, r)) (read_string s'))
      else if byte_val c < 32 then None
      else map_option (\<lambda>(u, r). (c # u, r)) (read_string s))"
  by pat_completeness auto
termination by (relation "measure length") (auto dest: unescape_shorter)

text \<open>The nearest 64-bit float of an integer: 53 significant bits, ties to even.\<close>

function f64_scale :: "nat \<Rightarrow> nat" where
  "f64_scale m = (if m < 2 ^ 53 then 0 else Suc (f64_scale (m div 2)))"
  by pat_completeness auto
termination by (relation "measure id") auto

declare f64_scale.simps [simp del]

definition round_f64 :: "int \<Rightarrow> int" where
  "round_f64 n =
     (let m = nat \<bar>n\<bar>; k = f64_scale m;
          q = m div 2 ^ k; r = 2 * (m mod 2 ^ k);
          q' = (if r > 2 ^ k \<or> (r = 2 ^ k \<and> odd q) then q + 1 else q)
      in (if n < 0 then - 1 else 1) * int (q' * 2 ^ k))"

text \<open>An integer: an optional minus sign, digits with no leading zero, up to a delimiter.\<close>

definition read_number :: "string \<Rightarrow> (int \<times> string) option" where
  "read_number s =
     (let neg = (s \<noteq> [] \<and> hd s = CHR ''-''); body = (if neg then tl s else s);
          ds = takeWhile is_digit body; rest = dropWhile is_digit body
      in if ds = [] \<or> (length ds > 1 \<and> hd ds = CHR ''0'') then None
         else if rest \<noteq> [] \<and> hd rest \<noteq> CHR '','' \<and> hd rest \<noteq> CHR ''}'' then None
         else Some (if neg then - int (digits_val ds) else int (digits_val ds), rest))"

definition read_value :: "string \<Rightarrow> (any_value \<times> string) option" where
  "read_value s =
     (case s of
        [] \<Rightarrow> None
      | c # t \<Rightarrow>
          if c = CHR 0x22 then map_option (\<lambda>(u, r). (AString u, r)) (read_string t)
          else map_option (\<lambda>(n, r). (AFloat (round_f64 n), r)) (read_number s))"

definition read_member :: "string \<Rightarrow> ((string \<times> any_value) \<times> string) option" where
  "read_member s =
     (case s of
        [] \<Rightarrow> None
      | c # t \<Rightarrow>
          if c \<noteq> CHR 0x22 then None
          else case read_string t of
            Some (k, d # r) \<Rightarrow>
              if d = CHR '':'' then map_option (\<lambda>(v, r'). ((k, v), r')) (read_value r) else None
          | _ \<Rightarrow> None)"

text \<open>Members separated by commas, up to the closing brace; the fuel is the length of the text.\<close>

fun read_members :: "nat \<Rightarrow> string \<Rightarrow> ((string \<times> any_value) list \<times> string) option" where
  "read_members 0 s = None"
| "read_members (Suc n) s =
     (case read_member s of
        Some (kv, d # r) \<Rightarrow>
          if d = CHR ''}'' then Some ([kv], r)
          else if d = CHR '','' then map_option (\<lambda>(kvs, r'). (kv # kvs, r')) (read_members n r)
          else None
      | _ \<Rightarrow> None)"

definition json_error :: "'a result" where
  "json_error = Inl (Err ''invalid character in JSON text'')"

text \<open>A later member of the same name replaces an earlier one.\<close>

definition json_unmarshal :: "string \<Rightarrow> metadata result" where
  "json_unmarshal s =
     (if s = ''null'' then Inr None
      else case s of
        [] \<Rightarrow> json_error
      | c # t \<Rightarrow>
          if c \<noteq> CHR ''{'' then json_error
          else if t = ''}'' then Inr (Some [])
          else case read_members (length t) t of
            Some (kvs, []) \<Rightarrow> Inr (Some (foldl (\<lambda>m (k, v). AList.update k v m) [] kvs))
          | _ \<Rightarrow> json_error)"

section \<open>The round trip\<close>

lemma hex_val_hex_char: "d < 16 \<Longrightarrow> hex_val (hex_char d) = Some d"
  by (auto simp: hex_val_def hex_char_def)

lemma hex_val_zero: "hex_val CHR ''0'' = Some 0"
  by (simp add: hex_val_def byte_val_def)

lemma unescape_hex4:
  "byte_val c < 128 \<Longrightarrow> unescape (CHR ''u'' # hex4 (byte_val c) @ r) = Some ([c], r)"
  by (simp add: hex4_def hex_val_hex_char hex_val_zero utf8_encode_def byte_val_def)

lemma byte_val_codes: "byte_val CHR 0x5C = 92" "byte_val CHR 0x22 = 34" "byte_val CHR ''b'' = 98"
  "byte_val CHR ''f'' = 102" "byte_val CHR ''n'' = 110" "byte_val CHR ''r'' = 114"
  "byte_val CHR ''t'' = 116" "byte_val CHR ''u'' = 117"
  by (simp_all add: byte_val_def)

lemma char_of_byte: "byte_val c = n \<Longrightarrow> char_of n = c"
  by (auto simp: byte_val_def)

lemma read_string_char: "read_string (json_char c @ r) =
    map_option (\<lambda>(u, r'). (c # u, r')) (read_string r)"
proof -
  have q: "byte_val c = 34 \<longleftrightarrow> c = CHR 0x22" and b: "byte_val c = 92 \<longleftrightarrow> c = CHR 0x5C"
    by (metis byte_val_codes byte_val_inject)+
  consider "byte_val c = 34 \<or> byte_val c = 92"
    | "byte_val c \<in> {8, 12, 10, 13, 9}"
    | "byte_val c \<notin> {34, 92, 8, 12, 10, 13, 9}" "byte_val c < 32 \<or> byte_val c \<in> {60, 62, 38}"
    | "byte_val c \<notin> {34, 92, 60, 62, 38}" "\<not> byte_val c < 32"
    by fastforce
  then show ?thesis
  proof cases
    case 1
    then show ?thesis by (auto simp: json_char_def q b byte_val_codes)
  next
    case 2
    then show ?thesis by (auto simp: json_char_def byte_val_codes char_of_byte)
  next
    case 3
    then have "byte_val c < 128" by auto
    note u = unescape_hex4 [OF this, of r]
    have "json_char c = [CHR 0x5C, CHR ''u''] @ hex4 (byte_val c)"
      using 3 by (auto simp: json_char_def Let_def)
    with u show ?thesis by (simp del: unescape.simps)
  next
    case 4
    then have "json_char c = [c]" by (auto simp: json_char_def Let_def)
    with 4 q b show ?thesis by auto
  qed
qed

lemma read_string_json: "read_string (concat (map json_char s) @ CHR 0x22 # r) = Some (s, r)"
  by (induction s) (simp_all add: read_string_char)

text \<open>What an integer or a map reads back as.\<close>

fun read_back :: "any_value \<Rightarrow> any_value" where
  "read_back (AString s) = AString s"
| "read_back (AInt n) = AFloat (round_f64 n)"
| "read_back (AFloat n) = AFloat (round_f64 n)"

definition norm_metadata :: "metadata \<Rightarrow> metadata" where
  "norm_metadata m =
     (case m of
        None \<Rightarrow> None
      | Some kvs \<Rightarrow> Some (map (\<lambda>(k, v). (k, read_back v)) (sort_key fst kvs)))"

text \<open>The keys of a Go map are distinct.\<close>

definition go_map :: "metadata \<Rightarrow> bool" where
  "go_map m \<longleftrightarrow> (case m of None \<Rightarrow> True | Some kvs \<Rightarrow> distinct (map fst kvs))"

lemma show_nat_no_lead: "length (show_nat n) > 1 \<Longrightarrow> hd (show_nat n) \<noteq> CHR ''0''"
proof (induction n rule: show_nat.induct)
  case (1 n)
  show ?case
  proof (cases "n < 10")
    case True
    with 1 show ?thesis by (simp add: show_nat.simps [of n])
  next
    case False
    show ?thesis
    proof (cases "n div 10 < 10")
      case True
      have "byte_val (digit_char (n div 10)) = 48 + n div 10"
        using True by (rule digit_char_props)
      then have "digit_char (n div 10) \<noteq> CHR ''0''"
        using False by (auto simp: byte_val_def)
      then show ?thesis
        using True False by (auto simp: show_nat.simps [of n] show_nat.simps [of "n div 10"])
    next
      case big: False
      then have "length (show_nat (n div 10)) > 1"
        using show_nat_props [of "n div 10 div 10"] by (simp add: show_nat.simps [of "n div 10"])
      with 1 False show ?thesis
        using show_nat_props [of "n div 10"] by (simp add: show_nat.simps [of n])
    qed
  qed
qed

lemma read_number_itoa:
  assumes "r = [] \<or> hd r = CHR '','' \<or> hd r = CHR ''}''"
  shows "read_number (itoa n @ r) = Some (n, r)"
proof -
  have no_digit: "r \<noteq> [] \<Longrightarrow> \<not> is_digit (hd r)"
    using assms by (auto simp: is_digit_def in_bytes_def byte_val_def)
  have "takeWhile is_digit (show_nat m @ r) = show_nat m"
    and "dropWhile is_digit (show_nat m @ r) = r" for m
    using show_nat_props [of m] no_digit
    by (cases r; simp add: takeWhile_append2 dropWhile_append2 list_all_iff)+
  note split = this
  have sign: "hd (show_nat m @ r) \<noteq> CHR ''-''" for m
    using show_nat_props [of m] by (cases "show_nat m") (auto dest: digit_not_sign)
  have ends: "\<not> (r \<noteq> [] \<and> hd r \<noteq> CHR '','' \<and> hd r \<noteq> CHR ''}'')" using assms by blast
  have props: "show_nat m \<noteq> []" "digits_val (show_nat m) = m"
      "\<not> (length (show_nat m) > 1 \<and> hd (show_nat m) = CHR ''0'')" for m
    using show_nat_props [of m] show_nat_no_lead [of m] by auto
  have lead: "\<not> (show_nat m = [] \<or> (length (show_nat m) > 1 \<and> hd (show_nat m) = CHR ''0''))" for m
    using props [of m] by blast
  show ?thesis
  proof (cases "n < 0")
    case True
    have "itoa n @ r = CHR ''-'' # show_nat (nat (- n)) @ r" using True by (simp add: itoa_def)
    then show ?thesis
      using True unfolding read_number_def Let_def
      by (simp only: list.sel list.distinct if_True simp_thms split if_not_P [OF lead]
          if_not_P [OF ends] props) simp
  next
    case False
    have i: "itoa n @ r = show_nat (nat n) @ r" using False by (simp add: itoa_def)
    show ?thesis
      using False unfolding read_number_def Let_def i
      by (simp only: sign if_False simp_thms split if_not_P [OF lead]
          if_not_P [OF ends] props) simp
  qed
qed

lemma itoa_hd: "\<exists>c t. itoa n = c # t \<and> c \<noteq> CHR 0x22"
proof -
  have "c \<noteq> CHR 0x22" if "c \<in> set (itoa n)" for c
    using itoa_chars [OF that] by (auto simp: is_digit_def in_bytes_def byte_val_def)
  then show ?thesis using itoa_nonempty [of n] by (cases "itoa n") auto
qed

lemma read_value_json:
  assumes "r = [] \<or> hd r = CHR '','' \<or> hd r = CHR ''}''"
  shows "read_value (json_value v @ r) = Some (read_back v, r)"
proof -
  have num: "read_value (itoa n @ r) = Some (AFloat (round_f64 n), r)" for n
  proof -
    obtain c t where c: "itoa n = c # t" "c \<noteq> CHR 0x22" using itoa_hd by blast
    with read_number_itoa [OF assms, of n] show ?thesis by (simp add: read_value_def)
  qed
  show ?thesis
    by (cases v) (simp_all add: num, simp add: read_value_def json_string_def read_string_json)
qed

lemma read_member_json:
  assumes "r = [] \<or> hd r = CHR '','' \<or> hd r = CHR ''}''"
  shows "read_member (json_member kv @ r) = Some ((fst kv, read_back (snd kv)), r)"
  using read_value_json [OF assms]
  by (simp add: read_member_def json_member_def json_string_def read_string_json)

lemma read_members_json:
  assumes "kvs \<noteq> []" and "length kvs \<le> n"
  shows "read_members n (join '','' (map json_member kvs) @ ''}'' @ r) =
    Some (map (\<lambda>(k, v). (k, read_back v)) kvs, r)"
  using assms
proof (induction kvs arbitrary: n)
  case (Cons kv kvs)
  then obtain m where n: "n = Suc m" by (cases n) auto
  show ?case
  proof (cases "kvs = []")
    case True
    then show ?thesis
      using read_member_json [of "''}'' @ r" kv] n by (simp add: case_prod_beta)
  next
    case False
    with Cons n show ?thesis
      using read_member_json [of "'','' @ join '','' (map json_member kvs) @ ''}'' @ r" kv]
      by (simp add: join_Cons case_prod_beta)
  qed
qed simp

lemma foldl_update_distinct:
  "distinct (map fst (m @ kvs)) \<Longrightarrow> foldl (\<lambda>m (k, v). AList.update k v m) m kvs = m @ kvs"
proof (induction kvs arbitrary: m)
  case (Cons kv kvs)
  obtain k v where kv: "kv = (k, v)" by (cases kv)
  have "k \<notin> fst ` set m \<Longrightarrow> AList.update k v m = m @ [(k, v)]" for m
    by (induction m) auto
  with Cons.prems kv have "AList.update k v m = m @ [(k, v)]" by auto
  with Cons kv show ?case by simp
qed simp

lemma length_member_join:
  "length kvs \<le> length (join '','' (map json_member kvs))"
proof (induction kvs)
  case (Cons kv kvs)
  have "length (json_member kv) > 0" by (simp add: json_member_def json_string_def)
  with Cons show ?case by (simp add: join_Cons del: length_greater_0_conv)
qed simp

lemma json_round_trip:
  assumes "go_map m" and "json_marshal m = Inr t"
  shows "json_unmarshal t = Inr (norm_metadata m)"
proof (cases m)
  case None
  with assms show ?thesis by (simp add: json_marshal_def json_unmarshal_def norm_metadata_def)
next
  case (Some kvs)
  let ?ks = "sort_key fst kvs" and ?rd = "\<lambda>(k, v). (k, read_back v)"
  have t: "t = ''{'' @ join '','' (map json_member ?ks) @ ''}''"
    using assms Some by (simp add: json_marshal_def)
  show ?thesis
  proof (cases "kvs = []")
    case True
    with t Some show ?thesis by (simp add: json_unmarshal_def norm_metadata_def)
  next
    case False
    then obtain k v ks where ks: "?ks = (k, v) # ks"
      by (metis list.exhaust set_empty set_sort surj_pair)
    have ne: "?ks \<noteq> []" by (simp add: ks)
    have "read_members (length (tl t)) (tl t) = Some (map ?rd ?ks, [])"
      using read_members_json [of ?ks "length (tl t)" "[]"] ne length_member_join [of ?ks]
      by (simp add: t del: read_members.simps)
    moreover have "tl t \<noteq> ''}''" "t \<noteq> ''null''"
      by (auto simp: t ks json_member_def json_string_def join_Cons)
    moreover have "distinct (map fst (map ?rd ?ks))"
    proof -
      have "map fst (map ?rd ?ks) = map fst ?ks" by (simp add: case_prod_beta)
      then show ?thesis using assms(1) Some by (simp add: go_map_def distinct_map inj_on_def)
    qed
    ultimately show ?thesis
      using foldl_update_distinct [of "[]" "map ?rd ?ks"] Some
      by (simp add: json_unmarshal_def norm_metadata_def t del: read_members.simps)
  qed
qed

section \<open>The interface\<close>

text \<open>
  The store writes \<open>marshal\<close>'s text into the metadata column and reads it back with
  \<open>unmarshal\<close>, unless it is empty or the empty object. \<open>norm m\<close> is the map \<open>m\<close> comes back as.
\<close>

definition read_metadata :: "(string \<Rightarrow> metadata result) \<Rightarrow> string \<Rightarrow> metadata result" where
  "read_metadata unmarshal t = (if t \<noteq> [] \<and> t \<noteq> ''{}'' then unmarshal t else Inr None)"

locale json_codec =
  fixes marshal :: "metadata \<Rightarrow> string result"
    and unmarshal :: "string \<Rightarrow> metadata result"
    and norm :: "metadata \<Rightarrow> metadata"
  assumes marshal_total: "\<exists>t. marshal m = Inr t"
    and codec_round_trip: "go_map m \<Longrightarrow> marshal m = Inr t \<Longrightarrow> read_metadata unmarshal t = Inr (norm m)"

definition stored_metadata :: "metadata \<Rightarrow> metadata" where
  "stored_metadata m = (if m = Some [] then None else norm_metadata m)"

lemma json_marshal_empty: "json_marshal m = Inr ''{}'' \<longleftrightarrow> m = Some []"
proof (cases m)
  case (Some kvs)
  show ?thesis
  proof (cases "sort_key fst kvs")
    case Nil
    then have "kvs = []" by (metis length_0_conv length_sort)
    with Some show ?thesis by (simp add: json_marshal_def)
  next
    case (Cons kv ks)
    then have "kvs \<noteq> []" by auto
    with Some Cons show ?thesis
      by (auto simp: json_marshal_def json_member_def json_string_def join_Cons)
  qed
qed (simp add: json_marshal_def)

interpretation json: json_codec json_marshal json_unmarshal stored_metadata
proof (unfold_locales, goal_cases)
  case (1 m)
  then show ?case by (simp add: json_marshal_def split: option.splits)
next
  case (2 m t)
  have "t \<noteq> []" using 2(2) by (auto simp: json_marshal_def split: option.splits)
  moreover have "t = ''{}'' \<longleftrightarrow> m = Some []" using 2(2) json_marshal_empty [of m] by auto
  ultimately show ?case
    using json_round_trip [OF 2] by (simp add: read_metadata_def stored_metadata_def)
qed

end
