(* ===== verification/StoreSpec.thy ===== *)
theory StoreSpec imports StoreText Json "HOL-Library.Multiset" begin

text \<open>
  What the store promises, over the events it holds. A table is well formed (\<open>table_inv\<close>) when
  every row has the schema's types, reads back as an event, and the ids increase up to the
  sequence counter. \<open>store_events\<close> is the abstract state: the events in insertion order. The
  locale \<open>event_store\<close> puts the engine and the JSON conversions together; inside it, each
  operation is shown to do to the abstract state what its name says.
\<close>

section \<open>Rows and events\<close>

definition row_typed :: "row \<Rightarrow> bool" where
  "row_typed r \<longleftrightarrow> length r = 23 \<and>
     (\<forall>k < 23. if k \<in> set int_positions then (\<exists>n. r ! k = VInt n) else (\<exists>s. r ! k = VText s))"

lemma row_typed_int:
  "row_typed r \<Longrightarrow> k \<in> set int_positions \<Longrightarrow> r ! k = VInt (the (scan_int (r ! k)))"
  unfolding row_typed_def by (elim conjE allE [of _ k]) (auto simp: int_positions_def)

lemma row_typed_text:
  "row_typed r \<Longrightarrow> k < 23 \<Longrightarrow> k \<notin> set int_positions \<Longrightarrow> r ! k = VText (text_of (r ! k))"
  unfolding row_typed_def by force

lemma field_of_nth:
  assumes "length r = 23" and "k < 23"
  shows "field_of r (event_column_names ! k) = r ! k"
  using map_of_zip_nth [of event_column_names r k] assms distinct_event_columns
  by (simp add: field_of_def)

lemma field_of_row [sql_sem]:
  assumes "row_typed r"
  shows "field_of r ''id'' = r ! 0" "field_of r ''ts'' = r ! 1" "field_of r ''category'' = r ! 2"
    "field_of r ''action'' = r ! 3" "field_of r ''pid'' = r ! 4" "field_of r ''uid'' = r ! 6"
    "field_of r ''comm'' = r ! 7" "field_of r ''exe'' = r ! 8"
    "field_of r ''container_id'' = r ! 9" "field_of r ''cgroup_path'' = r ! 10"
    "field_of r ''path'' = r ! 11" "field_of r ''old_path'' = r ! 12"
    "field_of r ''local_addr'' = r ! 13" "field_of r ''local_port'' = r ! 14"
    "field_of r ''remote_addr'' = r ! 15" "field_of r ''remote_host'' = r ! 17"
    "field_of r ''dropped_before'' = r ! 20"
proof -
  have l: "length r = 23" using assms by (simp add: row_typed_def)
  note nth = field_of_nth [OF l, unfolded event_column_names_def]
  show "field_of r ''id'' = r ! 0" using nth [of 0] by simp
  show "field_of r ''ts'' = r ! 1" using nth [of 1] by simp
  show "field_of r ''category'' = r ! 2" using nth [of 2] by simp
  show "field_of r ''action'' = r ! 3" using nth [of 3] by simp
  show "field_of r ''pid'' = r ! 4" using nth [of 4] by simp
  show "field_of r ''uid'' = r ! 6" using nth [of 6] by simp
  show "field_of r ''comm'' = r ! 7" using nth [of 7] by simp
  show "field_of r ''exe'' = r ! 8" using nth [of 8] by simp
  show "field_of r ''container_id'' = r ! 9" using nth [of 9] by simp
  show "field_of r ''cgroup_path'' = r ! 10" using nth [of 10] by simp
  show "field_of r ''path'' = r ! 11" using nth [of 11] by simp
  show "field_of r ''old_path'' = r ! 12" using nth [of 12] by simp
  show "field_of r ''local_addr'' = r ! 13" using nth [of 13] by simp
  show "field_of r ''local_port'' = r ! 14" using nth [of 14] by simp
  show "field_of r ''remote_addr'' = r ! 15" using nth [of 15] by simp
  show "field_of r ''remote_host'' = r ! 17" using nth [of 17] by simp
  show "field_of r ''dropped_before'' = r ! 20" using nth [of 20] by simp
qed

lemma select_all_columns:
  assumes "row_typed r"
  shows "map (field_of r) event_column_names = r"
proof (rule nth_equalityI)
  show "length (map (field_of r) event_column_names) = length r"
    using assms by (simp add: row_typed_def)
  fix i assume "i < length (map (field_of r) event_column_names)"
  then show "map (field_of r) event_column_names ! i = r ! i"
    using assms by (simp add: field_of_nth row_typed_def)
qed

text \<open>The event a row reads back as.\<close>

definition view :: "unmarshaller \<Rightarrow> row \<Rightarrow> event" where
  "view unmarshal r = (case scan_event unmarshal r of Inr ev \<Rightarrow> ev | Inl e \<Rightarrow> empty_event)"

definition row_ok :: "unmarshaller \<Rightarrow> row \<Rightarrow> bool" where
  "row_ok unmarshal r \<longleftrightarrow> row_typed r \<and> scan_event unmarshal r = Inr (view unmarshal r)"

lemma row_ok_typed [sql_sem]: "row_ok um r \<Longrightarrow> row_typed r"
  by (simp add: row_ok_def)

lemma row_okI: "row_typed r \<Longrightarrow> scan_event um r = Inr ev \<Longrightarrow> row_ok um r \<and> view um r = ev"
  by (simp add: row_ok_def view_def)

lemma scan_event_fields:
  assumes "scan_event um r = Inr ev"
  shows "ev_id ev = the (scan_int (r ! 0))"
    "ev_timestamp ev = the (scan_int (r ! 1))"
    "ev_category ev = text_of (r ! 2)"
    "ev_action ev = text_of (r ! 3)"
    "ev_pid ev = the (scan_int (r ! 4))"
    "ev_uid ev = the (scan_int (r ! 6))"
    "ev_comm ev = text_of (r ! 7)"
    "ev_exe ev = text_of (r ! 8)"
    "ev_container_id ev = text_of (r ! 9)"
    "ev_cgroup_path ev = text_of (r ! 10)"
    "ev_path ev = text_of (r ! 11)"
    "ev_old_path ev = text_of (r ! 12)"
    "ev_local_addr ev = text_of (r ! 13)"
    "ev_local_port ev = the (scan_int (r ! 14))"
    "ev_remote_addr ev = text_of (r ! 15)"
    "ev_remote_host ev = text_of (r ! 17)"
    "ev_dropped_before ev = the (scan_int (r ! 20))"
  using assms by (auto simp: scan_event_def Let_def split: if_splits sum.splits)

lemma row_ok_scan: "row_ok um r \<Longrightarrow> scan_event um r = Inr (view um r)"
  by (simp add: row_ok_def)

lemmas view_fields = scan_event_fields [OF row_ok_scan]

lemma row_fields [sql_sem]:
  assumes "row_ok um r"
  shows "r ! 0 = VInt (ev_id (view um r))" "r ! Suc 0 = VInt (ev_timestamp (view um r))"
    "r ! 2 = VText (ev_category (view um r))" "r ! 3 = VText (ev_action (view um r))"
    "r ! 4 = VInt (ev_pid (view um r))" "r ! 6 = VInt (ev_uid (view um r))"
    "r ! 7 = VText (ev_comm (view um r))" "r ! 8 = VText (ev_exe (view um r))"
    "r ! 9 = VText (ev_container_id (view um r))" "r ! 10 = VText (ev_cgroup_path (view um r))"
    "r ! 11 = VText (ev_path (view um r))" "r ! 12 = VText (ev_old_path (view um r))"
    "r ! 13 = VText (ev_local_addr (view um r))" "r ! 14 = VInt (ev_local_port (view um r))"
    "r ! 15 = VText (ev_remote_addr (view um r))" "r ! 17 = VText (ev_remote_host (view um r))"
    "r ! 20 = VInt (ev_dropped_before (view um r))"
proof -
  note typed = row_ok_typed [OF assms]
  note ints = row_typed_int [OF typed, unfolded int_positions_def, simplified]
  note texts = row_typed_text [OF typed, unfolded int_positions_def, simplified]
  show "r ! 0 = VInt (ev_id (view um r))" using ints [of 0] view_fields [OF assms] by simp
  show "r ! Suc 0 = VInt (ev_timestamp (view um r))"
    using ints [of 1] view_fields [OF assms] by simp
  show "r ! 2 = VText (ev_category (view um r))" using texts [of 2] view_fields [OF assms] by simp
  show "r ! 3 = VText (ev_action (view um r))" using texts [of 3] view_fields [OF assms] by simp
  show "r ! 4 = VInt (ev_pid (view um r))" using ints [of 4] view_fields [OF assms] by simp
  show "r ! 6 = VInt (ev_uid (view um r))" using ints [of 6] view_fields [OF assms] by simp
  show "r ! 7 = VText (ev_comm (view um r))" using texts [of 7] view_fields [OF assms] by simp
  show "r ! 8 = VText (ev_exe (view um r))" using texts [of 8] view_fields [OF assms] by simp
  show "r ! 9 = VText (ev_container_id (view um r))"
    using texts [of 9] view_fields [OF assms] by simp
  show "r ! 10 = VText (ev_cgroup_path (view um r))"
    using texts [of 10] view_fields [OF assms] by simp
  show "r ! 11 = VText (ev_path (view um r))" using texts [of 11] view_fields [OF assms] by simp
  show "r ! 12 = VText (ev_old_path (view um r))"
    using texts [of 12] view_fields [OF assms] by simp
  show "r ! 13 = VText (ev_local_addr (view um r))"
    using texts [of 13] view_fields [OF assms] by simp
  show "r ! 14 = VInt (ev_local_port (view um r))"
    using ints [of 14] view_fields [OF assms] by simp
  show "r ! 15 = VText (ev_remote_addr (view um r))"
    using texts [of 15] view_fields [OF assms] by simp
  show "r ! 17 = VText (ev_remote_host (view um r))"
    using texts [of 17] view_fields [OF assms] by simp
  show "r ! 20 = VInt (ev_dropped_before (view um r))"
    using ints [of 20] view_fields [OF assms] by simp
qed

lemma rmap_scan:
  "\<forall>r \<in> set rs. row_ok um r \<Longrightarrow> rmap (scan_event um) rs = Inr (map (view um) rs)"
  by (rule rmap_all_Inr) (simp add: row_ok_def)

section \<open>Order\<close>

lemma insort_key_cong:
  assumes "\<And>y. y \<in> set ys \<Longrightarrow> (f x \<le> f y) = (g x \<le> g y)"
  shows "insort_key f x ys = insort_key g x ys"
  using assms by (induction ys) auto

lemma sort_key_cong:
  assumes "\<And>x y. x \<in> set xs \<Longrightarrow> y \<in> set xs \<Longrightarrow> (f x \<le> f y) = (g x \<le> g y)"
  shows "sort_key f xs = sort_key g xs"
  using assms
proof (induction xs)
  case (Cons x xs)
  then have "sort_key f xs = sort_key g xs" by simp
  moreover have "insort_key f x (sort_key g xs) = insort_key g x (sort_key g xs)"
    by (rule insort_key_cong) (use Cons.prems in auto)
  ultimately show ?case by simp
qed simp

lemma insort_key_map: "insort_key k (f x) (map f xs) = map f (insort_key (\<lambda>y. k (f y)) x xs)"
  by (induction xs) auto

lemma sort_key_map: "sort_key k (map f xs) = map f (sort_key (\<lambda>y. k (f y)) xs)"
  by (induction xs) (simp_all add: insort_key_map)

text \<open>Oldest first by timestamp, then id; newest first is the mirror image.\<close>

definition order_events :: "bool \<Rightarrow> event list \<Rightarrow> event list" where
  "order_events asc evs =
     (if asc then sort_key ev_timestamp (sort_key ev_id evs)
      else rev (sort_key ev_timestamp (sort_key ev_id (rev evs))))"

definition earlier :: "event \<Rightarrow> event \<Rightarrow> bool" where
  "earlier a b \<longleftrightarrow>
     ev_timestamp a < ev_timestamp b \<or> ev_timestamp a = ev_timestamp b \<and> ev_id a \<le> ev_id b"

lemma mset_order_events [simp]: "mset (order_events asc evs) = mset evs"
  by (simp add: order_events_def)

lemma set_order_events [simp]: "set (order_events asc evs) = set evs"
  by (metis mset_order_events set_mset_mset)

lemma length_order_events [simp]: "length (order_events asc evs) = length evs"
  by (simp add: order_events_def)

lemma sorted_wrt_two_keys:
  fixes k :: "'a \<Rightarrow> 'k::linorder"
  assumes "sorted (map k xs)" and "\<And>c. sorted_wrt P (filter (\<lambda>x. k x = c) xs)"
  shows "sorted_wrt (\<lambda>a b. k a < k b \<or> k a = k b \<and> P a b) xs"
  using assms
proof (induction xs)
  case (Cons x xs)
  have "sorted_wrt P (filter (\<lambda>y. k y = c) xs)" for c
    using Cons.prems(2) [of c] by (auto split: if_splits)
  moreover have "P x y" if "y \<in> set xs" "k y = k x" for y
    using Cons.prems(2) [of "k x"] that by auto
  moreover have "k x \<le> k y" if "y \<in> set xs" for y
    using Cons.prems(1) that by auto
  ultimately show ?case
    using Cons by (auto simp: less_le)
qed simp

lemma sorted_wrt_filter_sub: "sorted_wrt P xs \<Longrightarrow> sorted_wrt P (filter Q xs)"
  by (rule sorted_wrt_filter)

lemma two_sorts_earlier: "sorted_wrt earlier (sort_key ev_timestamp (sort_key ev_id evs))"
proof -
  let ?ys = "sort_key ev_id evs"
  have ids: "sorted_wrt (\<lambda>a b. ev_id a \<le> ev_id b) ?ys"
    by (metis sorted_map sorted_sort_key)
  have "sorted_wrt (\<lambda>a b. ev_id a \<le> ev_id b)
      (filter (\<lambda>x. ev_timestamp x = c) (sort_key ev_timestamp ?ys))" for c
  proof (cases "\<exists>y::event. ev_timestamp y = c")
    case True
    then obtain y :: event where "ev_timestamp y = c" by blast
    then have "filter (\<lambda>x. ev_timestamp x = c) (sort_key ev_timestamp ?ys) =
        filter (\<lambda>x. ev_timestamp x = c) ?ys"
      using sort_key_stable [of ev_timestamp c ?ys] by simp
    then show ?thesis using ids by (simp add: sorted_wrt_filter)
  next
    case False
    then have "filter (\<lambda>x. ev_timestamp x = c) (sort_key ev_timestamp ?ys) = []"
      by (auto simp: filter_empty_conv)
    then show ?thesis by simp
  qed
  from sorted_wrt_two_keys [OF sorted_sort_key this] show ?thesis
    unfolding earlier_def by simp
qed

lemma order_events_sorted:
  "asc \<Longrightarrow> sorted_wrt earlier (order_events asc evs)"
  "\<not> asc \<Longrightarrow> sorted_wrt (\<lambda>a b. earlier b a) (order_events asc evs)"
  by (simp_all add: order_events_def two_sorts_earlier sorted_wrt_rev)

lemma row_key_fields:
  assumes "row_ok um r"
  shows "field_of r ''id'' = VInt (ev_id (view um r))"
    and "field_of r ''ts'' = VInt (ev_timestamp (view um r))"
  using assms by (simp_all add: field_of_row [OF row_ok_typed] row_fields)

lemma order_rows_view:
  assumes "\<forall>r \<in> set rs. row_ok um r"
  shows "map (view um) (order_rows [(''ts'', asc), (''id'', asc)] rs) =
    order_events asc (map (view um) rs)"
proof -
  have id_key: "sort_key (\<lambda>r. field_of r ''id'') xs = sort_key (\<lambda>r. ev_id (view um r)) xs"
    if "set xs \<subseteq> set rs" for xs
    by (rule sort_key_cong) (use that assms in \<open>simp add: subset_iff row_key_fields [of um]\<close>)
  have ts_key: "sort_key (\<lambda>r. field_of r ''ts'') xs =
      sort_key (\<lambda>r. ev_timestamp (view um r)) xs"
    if "set xs \<subseteq> set rs" for xs
    by (rule sort_key_cong) (use that assms in \<open>simp add: subset_iff row_key_fields [of um]\<close>)
  show ?thesis
    by (auto simp: order_events_def id_key ts_key rev_map sort_key_map)
qed

lemma order_rows_id_view:
  assumes "\<forall>r \<in> set rs. row_ok um r"
  shows "map (view um) (order_rows [(''id'', True)] rs) = sort_key ev_id (map (view um) rs)"
proof -
  have "sort_key (\<lambda>r. field_of r ''id'') rs = sort_key (\<lambda>r. ev_id (view um r)) rs"
    by (rule sort_key_cong) (use assms in \<open>simp add: row_key_fields [of um]\<close>)
  then show ?thesis by (simp add: sort_key_map)
qed

lemma set_order_rows [simp]: "set (order_rows os rs) = set rs"
  by (induction os rs rule: order_rows.induct) (auto split: if_splits)

lemma limit_rows_pos: "n > 0 \<Longrightarrow> limit_rows (VInt n) rs = take (nat n) rs"
  by (simp add: limit_rows_def)

section \<open>Conditions\<close>

definition event_matches :: "event_filter \<Rightarrow> event \<Rightarrow> bool" where
  "event_matches f ev \<longleftrightarrow>
     (is_zero_time (f_from f) \<or> unix_nano (f_from f) \<le> ev_timestamp ev) \<and>
     (is_zero_time (f_to f) \<or> ev_timestamp ev \<le> unix_nano (f_to f)) \<and>
     (f_pids f = [] \<or> ev_pid ev \<in> set (f_pids f)) \<and>
     (f_uids f = [] \<or> ev_uid ev \<in> set (f_uids f)) \<and>
     (f_categories f = [] \<or> ev_category ev \<in> set (f_categories f)) \<and>
     (f_actions f = [] \<or> ev_action ev \<in> set (f_actions f)) \<and>
     (f_comms f = [] \<or> ev_comm ev \<in> set (f_comms f)) \<and>
     (f_path_like f = [] \<or> sql_like None (f_path_like f) (ev_path ev) \<or>
        sql_like None (f_path_like f) (ev_old_path ev)) \<and>
     (f_exe_like f = [] \<or> sql_like None (f_exe_like f) (ev_exe ev)) \<and>
     (f_exact_path f = [] \<or> ev_path ev = f_exact_path f \<or> ev_old_path ev = f_exact_path f)"

lemma atom_holds_append:
  "length args = atom_params a \<Longrightarrow> atom_holds a (args @ rest) r = atom_holds a args r"
  by (cases a) auto

lemma any_holds_append:
  "length args = any_params as \<Longrightarrow> any_holds as (args @ rest) r = any_holds as args r"
proof (induction as arbitrary: args)
  case (Cons a as)
  obtain x y where xy: "args = x @ y" "length x = atom_params a" "length y = any_params as"
    using Cons.prems by (metis append_take_drop_id any_params.simps(2) length_drop length_take
        add_diff_cancel_left' min.absorb2 le_add1)
  have "atom_holds a (x @ z) r = atom_holds a x r" for z
    using xy(2) by (rule atom_holds_append)
  with xy Cons.IH [of y] show ?case by simp
qed simp

lemma clause_holds_append:
  "length args = clause_params c \<Longrightarrow> clause_holds c (args @ rest) r = clause_holds c args r"
  by (cases c) (simp_all add: atom_holds_append any_holds_append)

text \<open>A list of conditions over its own arguments, and what follows them.\<close>

lemma where_holds_concat:
  assumes "list_all2 (\<lambda>a c. length a = clause_params c) as cs"
  shows "where_holds cs (concat as @ rest) r =
      list_all2 (\<lambda>a c. clause_holds c a r) as cs \<and>
    drop (where_params cs) (concat as @ rest) = rest"
  using assms
  by (induction as cs rule: list_all2_induct) (simp_all add: clause_holds_append)

lemma list_all2_cond_if:
  "list_all2 (\<lambda>a c. clause_holds c a r) (map snd (cond_if b t args)) (clause_if b c) \<longleftrightarrow>
     (b \<longrightarrow> clause_holds c args r)"
  by (simp add: cond_if_def clause_if_def)

lemma length_cond_if: "length (cond_if b t args) = length (clause_if b c)"
  by (simp add: cond_if_def clause_if_def)

lemma query_where_concat:
  "where_holds (filter_where f) (query_args f) r \<longleftrightarrow>
     list_all2 (\<lambda>a c. clause_holds c a r) (map snd (query_conds f)) (filter_where f)"
  and query_where_drop:
  "drop (where_params (filter_where f)) (query_args f) = [VInt (query_limit f)]"
proof -
  let ?conds = "query_conds f"
  have rel: "list_all2 (\<lambda>a c. length a = clause_params c) (map snd ?conds) (filter_where f)"
    using query_conds_where [of f]
    by (auto simp: list_all2_map1 cond_rel_def elim: list_all2_mono)
  note wh = where_holds_concat [OF rel, of "[VInt (query_limit f)]" r]
  show "drop (where_params (filter_where f)) (query_args f) = [VInt (query_limit f)]"
    and "where_holds (filter_where f) (query_args f) r \<longleftrightarrow>
     list_all2 (\<lambda>a c. clause_holds c a r) (map snd (query_conds f)) (filter_where f)"
    using wh by (simp_all add: query_args_def)
qed

lemma query_where_holds:
  assumes "row_ok um r"
  shows "where_holds (filter_where f) (query_args f) r = event_matches f (view um r)"
proof -
  have "list_all2 (\<lambda>a c. clause_holds c a r) (map snd (query_conds f)) (filter_where f) \<longleftrightarrow>
      event_matches f (view um r)"
    unfolding query_conds_def filter_where_def map_append in_cond_def in_clause_def
    by (simp add: list_all2_append length_cond_if list_all2_cond_if event_matches_def
        field_of_row [OF row_ok_typed [OF assms]] row_fields [OF assms] image_iff
        cong: conj_cong) auto
  then show ?thesis by (simp only: query_where_concat)
qed

section \<open>The abstract state\<close>

definition table_inv :: "unmarshaller \<Rightarrow> sql_table \<Rightarrow> bool" where
  "table_inv um t \<longleftrightarrow>
     (\<forall>r \<in> set (t_rows t). row_ok um r \<and> ev_id (view um r) \<le> t_seq t) \<and>
     sorted_wrt (\<lambda>a b. ev_id (view um a) < ev_id (view um b)) (t_rows t)"

definition store_table :: "store \<Rightarrow> sql_table option" where
  "store_table st = (case st_db st of None \<Rightarrow> None | Some db \<Rightarrow> db_table db)"

definition store_inv :: "unmarshaller \<Rightarrow> store \<Rightarrow> bool" where
  "store_inv um st \<longleftrightarrow> (case store_table st of None \<Rightarrow> True | Some t \<Rightarrow> table_inv um t)"

definition store_events :: "unmarshaller \<Rightarrow> store \<Rightarrow> event list" where
  "store_events um st = (case store_table st of None \<Rightarrow> [] | Some t \<Rightarrow> map (view um) (t_rows t))"

lemma store_event_ids_le_last:
  assumes "store_inv um st" and "ev \<in> set (store_events um st)"
  shows "ev_id ev \<le> ev_id (last (store_events um st))"
proof -
  let ?evs = "store_events um st"
  have "?evs \<noteq> []" using assms(2) by auto
  then have split: "?evs = butlast ?evs @ [last ?evs]" by simp
  have "sorted_wrt (\<lambda>a b. ev_id a < ev_id b) ?evs"
    using assms(1) by (auto simp: store_events_def store_inv_def table_inv_def sorted_wrt_map
        split: option.splits)
  with split have "sorted_wrt (\<lambda>a b. ev_id a < ev_id b) (butlast ?evs @ [last ?evs])" by simp
  moreover have "ev \<in> set (butlast ?evs @ [last ?evs])" using assms(2) split by simp
  ultimately show ?thesis by (auto simp: sorted_wrt_append)
qed

definition store_seq :: "store \<Rightarrow> int" where
  "store_seq st = (case store_table st of None \<Rightarrow> 0 | Some t \<Rightarrow> t_seq t)"

lemma store_event_ids_le_seq:
  "store_inv um st \<Longrightarrow> ev \<in> set (store_events um st) \<Longrightarrow> ev_id ev \<le> store_seq st"
  by (auto simp: store_events_def store_seq_def store_inv_def table_inv_def split: option.splits)

text \<open>An open store on a database with the schema.\<close>

definition store_ready :: "store \<Rightarrow> bool" where
  "store_ready st \<longleftrightarrow> store_table st \<noteq> None"

lemma store_ready_cases:
  assumes "store_ready st"
  obtains db t where "st_db st = Some db" "db_table db = Some t" "store_table st = Some t"
  using assms by (auto simp: store_ready_def store_table_def split: option.splits)

text \<open>The event a given one is stored as: with its id, its timestamp in the column's range, the
  program's schema version and what JSON keeps of its metadata.\<close>

definition stored_event :: "(metadata \<Rightarrow> metadata) \<Rightarrow> int \<Rightarrow> event \<Rightarrow> event" where
  "stored_event norm i ev =
     ev\<lparr>ev_id := i, ev_schema_version := schema_version,
        ev_timestamp := unix_nano (ev_timestamp ev), ev_metadata := norm (ev_metadata ev),
        ev_raw := raw_or_empty (ev_raw ev)\<rparr>"

fun stored_batch ::
    "(metadata \<Rightarrow> metadata) \<Rightarrow> tx_env \<Rightarrow> nat \<Rightarrow> int \<Rightarrow> event list \<Rightarrow> event list" where
  "stored_batch norm env i n [] = []"
| "stored_batch norm env i n (ev # evs) =
     stored_event norm (n + 1) (stamp (tx_now env i) ev) # stored_batch norm env (Suc i) (n + 1) evs"

definition batch_drops :: "event list \<Rightarrow> int" where
  "batch_drops evs = sum_list (map ev_dropped_before evs)"

lemma batch_drops_simps [drop_acct]:
  "batch_drops [] = 0" "batch_drops (ev # evs) = ev_dropped_before ev + batch_drops evs"
  "batch_drops (xs @ ys) = batch_drops xs + batch_drops ys"
  by (simp_all add: batch_drops_def)

definition batch_ok :: "event list \<Rightarrow> bool" where
  "batch_ok evs \<longleftrightarrow> (\<forall>ev \<in> set evs. go_map (ev_metadata ev))"

lemma length_stored_batch [simp]: "length (stored_batch norm env i n evs) = length evs"
  by (induction evs arbitrary: i n) auto

lemma stored_batch_ids:
  "map ev_id (stored_batch norm env i n evs) = map (\<lambda>k. n + 1 + int k) [0..<length evs]"
proof (induction evs arbitrary: i n)
  case (Cons ev evs)
  show ?case
    using Cons [of "Suc i" "n + 1"]
    by (simp add: stored_event_def upt_conv_Cons map_Suc_upt [symmetric] del: upt_Suc)
qed simp

lemma stored_batch_id_gt: "ev \<in> set (stored_batch norm env i n evs) \<Longrightarrow> n < ev_id ev"
proof -
  assume "ev \<in> set (stored_batch norm env i n evs)"
  then have "ev_id ev \<in> set (map ev_id (stored_batch norm env i n evs))" by simp
  then show ?thesis unfolding stored_batch_ids by auto
qed

lemma stored_batch_drops [drop_acct]: "batch_drops (stored_batch norm env i n evs) = batch_drops evs"
  by (induction evs arbitrary: i n) (simp_all add: drop_acct stored_event_def stamp_def)

section \<open>One row\<close>

definition event_row :: "event \<Rightarrow> string \<Rightarrow> string \<Rightarrow> int \<Rightarrow> row" where
  "event_row ev md raw n = VInt n # event_args ev md raw"

lemma insert_row_event:
  "insert_row insert_column_names (event_args ev md raw) n = event_row ev md raw n"
  by (simp add: insert_row_def insert_column_names_def event_column_names_def event_args_def
      event_row_def)

lemma event_row_typed: "row_typed (event_row ev md raw n)"
proof -
  have "k < 23 \<Longrightarrow> k \<in> set [0..<23]" for k by simp
  moreover have "\<forall>k \<in> set [0..<23]. if k \<in> set int_positions
      then (\<exists>m. event_row ev md raw n ! k = VInt m) else (\<exists>s. event_row ev md raw n ! k = VText s)"
    by (simp add: upt_rec int_positions_def event_row_def event_args_def)
  ultimately show ?thesis
    by (simp add: row_typed_def) (simp add: event_row_def event_args_def)
qed

lemma scan_event_row:
  assumes "read_metadata um md = Inr m"
  shows "scan_event um (event_row ev md raw n) =
    Inr (ev\<lparr>ev_id := n, ev_schema_version := schema_version,
        ev_timestamp := unix_nano (ev_timestamp ev), ev_metadata := m, ev_raw := raw\<rparr>)"
  using assms
  by (cases ev)
    (auto simp: scan_event_def event_row_def event_args_def int_positions_def read_metadata_def
      Let_def split: if_splits sum.splits)

section \<open>The store over an engine and a codec\<close>

locale event_store = sql_engine exec + json_codec marshal unmarshal norm
  for exec :: engine
    and marshal :: marshaller
    and unmarshal :: unmarshaller
    and norm :: "metadata \<Rightarrow> metadata"

context event_store begin

lemma stored_row:
  assumes "go_map (ev_metadata ev)" and "marshal (ev_metadata ev) = Inr md"
  shows "row_ok unmarshal (event_row ev md (raw_or_empty (ev_raw ev)) n)"
    and "view unmarshal (event_row ev md (raw_or_empty (ev_raw ev)) n) = stored_event norm n ev"
  using row_okI [OF event_row_typed scan_event_row [OF codec_round_trip [OF assms]]]
  by (auto simp: stored_event_def)

lemma exec_insert:
  assumes "exec db insert_sql (event_args ev md raw) = Inr (db', rows, n)"
  shows "\<exists>t. db_table db = Some t \<and> \<not> db_query_only db \<and>
    db' = db\<lparr>db_table := Some (t\<lparr>t_rows := t_rows t @ [event_row ev md raw (t_seq t + 1)],
      t_seq := t_seq t + 1\<rparr>)\<rparr>"
  using engine_sound [OF parse_insert_sql assms]
  by (auto simp: insert_row_event Let_def split: option.splits if_splits)

lemma table_inv_insert:
  assumes "table_inv unmarshal t" and "go_map (ev_metadata ev)" and "marshal (ev_metadata ev) = Inr md"
  shows "table_inv unmarshal (t\<lparr>t_rows := t_rows t @ [event_row ev md (raw_or_empty (ev_raw ev)) (t_seq t + 1)],
      t_seq := t_seq t + 1\<rparr>)"
  using assms(1) stored_row [OF assms(2,3), of "t_seq t + 1"]
  by (fastforce simp: table_inv_def sorted_wrt_append stored_event_def)

lemma insert_loop_result:
  assumes "insert_loop exec marshal env i db d evs = (db', d', None)"
    and "db_table db = Some t" and "table_inv unmarshal t" and "batch_ok evs" and "int64_range d"
  shows "d' = wrap64 (d + batch_drops evs) \<and> db_query_only db' = db_query_only db \<and>
    (\<exists>t'. db_table db' = Some t' \<and> table_inv unmarshal t' \<and> t_seq t' = t_seq t + int (length evs) \<and>
      map (view unmarshal) (t_rows t') =
        map (view unmarshal) (t_rows t) @ stored_batch norm env i (t_seq t) evs)"
  using assms
proof (induction evs arbitrary: i db d t)
  case Nil
  then show ?case by (auto simp: drop_acct)
next
  case (Cons ev0 evs)
  let ?ev = "stamp (tx_now env i) ev0"
  have meta: "ev_metadata ?ev = ev_metadata ev0" and drop: "ev_dropped_before ?ev = ev_dropped_before ev0"
    by (simp_all add: stamp_def)
  obtain md db1 rows n where md: "marshal (ev_metadata ?ev) = Inr md"
    and ex: "exec db insert_sql (event_args ?ev md (raw_or_empty (ev_raw ?ev))) = Inr (db1, rows, n)"
    and rest: "insert_loop exec marshal env (Suc i) db1 (wrap64 (d + ev_dropped_before ?ev)) evs =
      (db', d', None)"
    using Cons.prems(1) by (auto simp: Let_def split: option.splits sum.splits prod.splits)
  let ?t1 = "t\<lparr>t_rows := t_rows t @ [event_row ?ev md (raw_or_empty (ev_raw ?ev)) (t_seq t + 1)],
      t_seq := t_seq t + 1\<rparr>"
  have ok: "go_map (ev_metadata ?ev)" and oks: "batch_ok evs"
    using Cons.prems(4) meta by (simp_all add: batch_ok_def)
  have db1: "db_table db1 = Some ?t1" "db_query_only db1 = db_query_only db"
    using exec_insert [OF ex] Cons.prems(2) by auto
  have "table_inv unmarshal ?t1"
    using table_inv_insert [OF Cons.prems(3) ok md] .
  from Cons.IH [OF rest db1(1) this oks wrap64_range] stored_row(2) [OF ok md] db1(2)
  show ?case by (auto simp: drop_acct drop algebra_simps)
qed

lemma insert_events_unchanged:
  assumes "insert_events exec marshal env st evs = (st', stats, Some e)"
  shows "st' = st"
  using assms by (auto simp: insert_events_def split: if_splits option.splits prod.splits)

lemma insert_events_appends:
  assumes "insert_events exec marshal env st evs = (st', stats, None)"
    and "evs \<noteq> []" and "store_ready st" and "store_inv unmarshal st" and "batch_ok evs"
  shows "store_events unmarshal st' =
      store_events unmarshal st @ stored_batch norm env 0 (store_seq st) evs"
    and "store_seq st' = store_seq st + int (length evs)"
    and "is_dropped stats = wrap64 (batch_drops evs)"
    and "store_inv unmarshal st'" and "store_ready st'"
    and "st_read_only st' = st_read_only st" and "\<not> st_read_only st"
proof -
  obtain db t where st: "st_db st = Some db" "db_table db = Some t" "store_table st = Some t"
    using store_ready_cases [OF assms(3)] by metis
  obtain db' d where loop: "insert_loop exec marshal env 0 db 0 evs = (db', d, None)"
    and res: "st' = st\<lparr>st_db := Some db'\<rparr>" "is_dropped stats = d"
    and rw: "\<not> st_read_only st"
    using assms(1,2) st by (auto simp: insert_events_def split: if_splits option.splits prod.splits)
  have inv: "table_inv unmarshal t" using assms(4) st by (simp add: store_inv_def)
  note r = insert_loop_result [OF loop st(2) inv assms(5), unfolded int64_range_def, simplified]
  then obtain t' where t': "db_table db' = Some t'" "table_inv unmarshal t'"
      "t_seq t' = t_seq t + int (length evs)"
      "map (view unmarshal) (t_rows t') =
        map (view unmarshal) (t_rows t) @ stored_batch norm env 0 (t_seq t) evs"
    by blast
  have tab: "store_table st' = Some t'" using res t' by (simp add: store_table_def)
  show "store_events unmarshal st' =
      store_events unmarshal st @ stored_batch norm env 0 (store_seq st) evs"
    using t' tab st by (simp add: store_events_def store_seq_def)
  show "store_seq st' = store_seq st + int (length evs)"
    using t' tab st by (simp add: store_seq_def)
  show "is_dropped stats = wrap64 (batch_drops evs)" using r res by simp
  show "store_inv unmarshal st'" using t' tab by (simp add: store_inv_def)
  show "store_ready st'" using tab by (simp add: store_ready_def)
  show "st_read_only st' = st_read_only st" using res by simp
  show "\<not> st_read_only st" by (rule rw)
qed

end

end
