(* ===== verification/StoreReads.thy ===== *)
theory StoreReads imports StoreSpec begin

text \<open>
  The reading operations of the store against its abstract state: \<open>Query\<close>, \<open>EventsAfterID\<close>,
  \<open>QueryText\<close>, \<open>LatestEventID\<close> and \<open>Status\<close>, and the deletion of \<open>Prune\<close>. Each is stated twice: in
  \<open>event_store\<close> for any engine (what is returned, when something is returned), and in
  \<open>event_store_total\<close> as an equation, for an engine without I/O errors.
\<close>

section \<open>LIKE with escaped patterns\<close>

lemma sql_like_percent: "sql_like e ''%'' s" if "e \<noteq> Some CHR ''%''"
  using that by (induction s) (auto simp: sql_like.simps(2))

lemma sql_like_escaped_char:
  "sql_like (Some CHR 0x5C) (escape_like_char c @ p) s \<longleftrightarrow>
     s \<noteq> [] \<and> lower_char c = lower_char (hd s) \<and> sql_like (Some CHR 0x5C) p (tl s)"
  by (cases s) (auto simp: escape_like_char_def sql_like.simps(2))

lemma sql_like_escaped_prefix:
  "sql_like (Some CHR 0x5C) (escape_like t @ ''%'') s \<longleftrightarrow> prefix (to_lower t) (to_lower s)"
proof (induction t arbitrary: s)
  case Nil
  then show ?case using sql_like_percent [of "Some CHR 0x5C"] by (simp add: escape_like_def)
next
  case (Cons c t)
  show ?case
    using Cons by (cases s) (simp_all add: escape_like_def sql_like_escaped_char to_lower_def)
qed

text \<open>A term as the search builds its pattern matches exactly the texts that contain it, up to
  the case of ASCII letters; the pattern's own metacharacters have lost their meaning.\<close>

lemma term_pattern_contains:
  "sql_like (Some CHR 0x5C) (term_pattern t) s \<longleftrightarrow> contains (to_lower s) (to_lower t)"
proof (induction s)
  case Nil
  have "sql_like (Some CHR 0x5C) (term_pattern t) [] \<longleftrightarrow>
      sql_like (Some CHR 0x5C) (escape_like t @ ''%'') []"
    by (simp add: term_pattern_def sql_like.simps(2))
  then show ?case by (simp add: sql_like_escaped_prefix)
next
  case (Cons c s)
  have "sql_like (Some CHR 0x5C) (term_pattern t) (c # s) \<longleftrightarrow>
      sql_like (Some CHR 0x5C) (escape_like t @ ''%'') (c # s) \<or>
      sql_like (Some CHR 0x5C) (term_pattern t) s"
    by (simp add: term_pattern_def sql_like.simps(2))
  with Cons show ?case
    by (simp add: sql_like_escaped_prefix contains_Cons to_lower_def)
qed

section \<open>What the reads return\<close>

definition query_spec :: "event_filter \<Rightarrow> event list \<Rightarrow> event list" where
  "query_spec f evs =
     take (nat (if f_limit f \<le> 0 then 200 else f_limit f))
       (order_events (f_order_asc f) (filter (event_matches f) evs))"

lemma query_spec_limit:
  "query_spec f evs =
     take (nat (query_limit f)) (order_events (f_order_asc f) (filter (event_matches f) evs))"
  by (simp add: query_spec_def query_limit_def)

definition after_spec :: "int \<Rightarrow> int \<Rightarrow> event list \<Rightarrow> event list" where
  "after_spec after_id limit evs =
     take (nat (if limit \<le> 0 then 500 else limit)) (filter (\<lambda>ev. ev_id ev > after_id) evs)"

text \<open>The texts \<open>QueryText\<close> looks into, and its condition: every term occurs in one of them.\<close>

definition search_texts :: "event \<Rightarrow> string list" where
  "search_texts ev =
     [ev_category ev, ev_action ev, ev_comm ev, ev_exe ev, ev_path ev, ev_old_path ev,
      ev_local_addr ev, ev_remote_addr ev, ev_remote_host ev, ev_container_id ev,
      ev_cgroup_path ev]"

definition text_matches :: "string list \<Rightarrow> event \<Rightarrow> bool" where
  "text_matches terms ev \<longleftrightarrow>
     (\<forall>t \<in> set terms. \<exists>s \<in> set (search_texts ev). contains (to_lower s) t)"

definition text_spec :: "string list \<Rightarrow> int \<Rightarrow> event list \<Rightarrow> event list" where
  "text_spec terms limit evs =
     (if normalize_terms terms = [] then []
      else take (nat (if limit \<le> 0 then 200 else limit))
        (order_events False (filter (text_matches (normalize_terms terms)) evs)))"

section \<open>Conditions of the fixed statements\<close>

lemma where_after_holds:
  assumes "row_ok um r"
  shows "where_holds [Single (Cmp ''id'' CmpGt)] [VInt a, VInt n] r \<longleftrightarrow> ev_id (view um r) > a"
  using row_key_fields(1) [OF assms] by simp

lemma text_clause_holds:
  assumes "row_ok um r" and "to_lower t = t"
  shows "clause_holds text_clause (map (\<lambda>c. VText (term_pattern t)) text_search_columns) r \<longleftrightarrow>
    (\<exists>s \<in> set (search_texts (view um r)). contains (to_lower s) t)"
  using assms(2)
  by (simp add: text_clause_def text_search_columns_def search_texts_def term_pattern_contains
      field_of_row [OF row_ok_typed [OF assms(1)]] row_fields [OF assms(1)])

lemma normalize_terms_lower: "t \<in> set (normalize_terms ts) \<Longrightarrow> to_lower t = t"
  by (induction ts) (auto simp: Let_def split: if_splits)

lemma normalize_terms_nonempty: "t \<in> set (normalize_terms ts) \<Longrightarrow> t \<noteq> []"
proof (induction ts)
  case (Cons a ts)
  then show ?case
    by (cases "trim_space a = []") (auto simp: Let_def eq_commute [of "[]"])
qed simp

lemma query_text_holds_drop:
  "where_holds (map (\<lambda>t. text_clause) terms) (query_text_args terms n) r \<longleftrightarrow>
     (\<forall>t \<in> set terms.
       clause_holds text_clause (map (\<lambda>c. VText (term_pattern t)) text_search_columns) r)"
  and query_text_drop:
  "drop (where_params (map (\<lambda>t. text_clause) terms)) (query_text_args terms n) = [VInt n]"
proof -
  let ?as = "map (\<lambda>t. map (\<lambda>c. VText (term_pattern t)) text_search_columns) terms"
  have "list_all2 (\<lambda>a c. length a = clause_params c) ?as (map (\<lambda>t. text_clause) terms)"
    by (simp add: list_all2_map1 list_all2_map2 list_all2_same text_clause_def
        text_search_columns_def)
  note wh = where_holds_concat [OF this, of "[VInt n]" r]
  show "drop (where_params (map (\<lambda>t. text_clause) terms)) (query_text_args terms n) = [VInt n]"
    using wh by (simp add: query_text_args_def)
  show "where_holds (map (\<lambda>t. text_clause) terms) (query_text_args terms n) r \<longleftrightarrow>
     (\<forall>t \<in> set terms.
       clause_holds text_clause (map (\<lambda>c. VText (term_pattern t)) text_search_columns) r)"
    using wh by (simp add: query_text_args_def list_all2_map1 list_all2_map2 list_all2_same)
qed

lemma text_where_holds:
  assumes "row_ok um r" and "\<forall>t \<in> set terms. to_lower t = t"
  shows "where_holds (map (\<lambda>t. text_clause) terms) (query_text_args terms n) r =
    text_matches terms (view um r)"
  using assms by (simp add: query_text_holds_drop text_matches_def text_clause_holds)

section \<open>Selections\<close>

definition select_events ::
    "unmarshaller \<Rightarrow> clause list \<Rightarrow> order_term list \<Rightarrow> sqlval list \<Rightarrow> int \<Rightarrow> sql_table \<Rightarrow> event list"
  where
  "select_events um wh ord args n t =
     take (nat n) (map (view um) (order_rows ord (filter (where_holds wh args) (t_rows t))))"

lemma filter_view:
  assumes "table_inv um t" and "\<And>r. row_ok um r \<Longrightarrow> P r = Q (view um r)"
  shows "map (view um) (filter P (t_rows t)) = filter Q (map (view um) (t_rows t))"
  using assms by (auto simp: filter_map table_inv_def intro!: arg_cong [where f = "map (view um)"] filter_cong)

lemma filter_rows_ok: "table_inv um t \<Longrightarrow> \<forall>r \<in> set (filter P (t_rows t)). row_ok um r"
  by (simp add: table_inv_def)

lemma select_events_order:
  assumes "table_inv um t" and "\<And>r. row_ok um r \<Longrightarrow> where_holds wh args r = Q (view um r)"
  shows "select_events um wh [(''ts'', asc), (''id'', asc)] args n t =
    take (nat n) (order_events asc (filter Q (map (view um) (t_rows t))))"
  using order_rows_view [OF filter_rows_ok [OF assms(1)]] filter_view [where P = "where_holds wh args" and Q = Q, OF assms]
  by (simp add: select_events_def)

lemma table_inv_ids_sorted: "table_inv um t \<Longrightarrow> sorted (map ev_id (map (view um) (t_rows t)))"
  unfolding table_inv_def sorted_map
  by (auto simp: sorted_wrt_map elim!: sorted_wrt_mono_rel [rotated])

lemma sort_key_filter_sorted: "sorted (map k xs) \<Longrightarrow> sort_key k (filter P xs) = filter P xs"
  by (simp add: sorted_filter sort_key_id_if_sorted)

lemma select_events_id:
  assumes "table_inv um t" and "\<And>r. row_ok um r \<Longrightarrow> where_holds wh args r = Q (view um r)"
  shows "select_events um wh [(''id'', True)] args n t =
    take (nat n) (filter Q (map (view um) (t_rows t)))"
  using order_rows_id_view [OF filter_rows_ok [OF assms(1)]] filter_view [where P = "where_holds wh args" and Q = Q, OF assms]
    sort_key_filter_sorted [OF table_inv_ids_sorted [OF assms(1)]]
  by (simp add: select_events_def)

lemma sql_eval_select:
  assumes "table_inv um t" and "db_table db = Some t" and "drop (where_params wh) args = [VInt n]"
    and "n > 0"
  shows "\<exists>rows. sql_eval (Select event_column_names wh ord) args db = Inr (db, rows, 0) \<and>
    rmap (scan_event um) rows = Inr (select_events um wh ord args n t)"
proof -
  let ?rows = "take (nat n) (order_rows ord (filter (where_holds wh args) (t_rows t)))"
  have ok: "\<forall>r \<in> set ?rows. row_ok um r"
    using assms(1) by (auto simp: table_inv_def dest: in_set_takeD)
  then have same: "map (\<lambda>r. map (field_of r) event_column_names) ?rows = ?rows"
    by (intro map_idI select_all_columns row_ok_typed) auto
  have "sql_eval (Select event_column_names wh ord) args db =
      Inr (db, map (\<lambda>r. map (field_of r) event_column_names) ?rows, 0)"
    using assms(2-4) by (simp add: limit_rows_pos)
  with same rmap_scan [OF ok] show ?thesis by (simp add: select_events_def take_map)
qed

context event_store begin

lemma query_events_result:
  assumes "query_events exec unmarshal st q args = Inr evs"
    and "parse_sql q = Some (Select event_column_names wh ord)"
    and "drop (where_params wh) args = [VInt n]" and "n > 0"
    and "store_inv unmarshal st"
  shows "\<exists>t. store_table st = Some t \<and> table_inv unmarshal t \<and>
    evs = select_events unmarshal wh ord args n t"
proof -
  obtain db db' rows k where db: "st_db st = Some db"
    and ex: "exec db q args = Inr (db', rows, k)" and scan: "rmap (scan_event unmarshal) rows = Inr evs"
    using assms(1) by (auto simp: query_events_def nil_db_def split: option.splits)
  have ev: "sql_eval (Select event_column_names wh ord) args db = Inr (db', rows, k)"
    by (rule engine_sound [OF assms(2) ex])
  then obtain t where t: "db_table db = Some t" by (cases "db_table db") auto
  with db assms(5) have inv: "table_inv unmarshal t"
    by (simp add: store_inv_def store_table_def)
  from sql_eval_select [OF inv t assms(3,4), of ord] ev scan db t inv show ?thesis
    by (auto simp: store_table_def)
qed

lemma store_query_result:
  assumes "store_query exec unmarshal st f = Inr evs" and "store_inv unmarshal st"
  shows "evs = query_spec f (store_events unmarshal st)"
proof -
  have q: "query_events exec unmarshal st (query_sql f) (query_args f) = Inr evs"
    using assms(1) by (simp add: store_query_def split: option.splits)
  have pos: "query_limit f > 0" by (simp add: query_limit_def)
  from query_events_result [OF q parse_query_sql query_where_drop pos assms(2)]
  show ?thesis
    by (auto simp: query_spec_limit store_events_def filter_order_def
        select_events_order [where Q = "event_matches f"] query_where_holds)
qed

lemma events_after_result:
  assumes "events_after_id exec unmarshal st a lim = Inr evs" and "store_inv unmarshal st"
  shows "evs = after_spec a lim (store_events unmarshal st)"
proof -
  let ?n = "if lim \<le> 0 then 500 else lim"
  have q: "query_events exec unmarshal st events_after_sql [VInt a, VInt ?n] = Inr evs"
    using assms(1) by (simp add: events_after_id_def Let_def)
  from query_events_result [OF q parse_events_after_sql _ _ assms(2), of ?n]
  show ?thesis
    by (auto simp: after_spec_def store_events_def where_after_holds simp del: where_holds.simps
        simp: select_events_id [where Q = "\<lambda>ev. ev_id ev > a"])
qed

lemma query_text_result:
  assumes "store_query_text exec unmarshal st terms lim = Inr evs" and "store_inv unmarshal st"
  shows "evs = text_spec terms lim (store_events unmarshal st)"
proof (cases "normalize_terms terms = []")
  case True
  with assms show ?thesis by (simp add: store_query_text_def text_spec_def)
next
  case False
  let ?n = "if lim \<le> 0 then 200 else lim" and ?ts = "normalize_terms terms"
  have q: "query_events exec unmarshal st (query_text_sql ?ts) (query_text_args ?ts ?n) = Inr evs"
    using assms(1) False by (simp add: store_query_text_def Let_def)
  have low: "\<forall>t \<in> set ?ts. to_lower t = t" by (simp add: normalize_terms_lower)
  from query_events_result [OF q parse_query_text_sql [OF False] query_text_drop _ assms(2)]
  show ?thesis using False
    by (auto simp: text_spec_def store_events_def text_where_holds [OF _ low]
        select_events_order [where Q = "text_matches ?ts"])
qed

end

section \<open>Aggregates and deletion\<close>

context event_store begin

lemma exec_ready:
  assumes "parse_sql q = Some s" and "exec db q args = Inr (db', rows, n)"
  shows "sql_eval s args db = Inr (db', rows, n)"
  using assms by (rule engine_sound)

lemma latest_id_result:
  assumes "latest_event_id exec st = Inr i" and "store_inv unmarshal st"
  shows "i = (if store_events unmarshal st = [] then 0 else ev_id (last (store_events unmarshal st)))"
proof -
  obtain db db' rows n v where db: "st_db st = Some db"
    and ex: "exec db latest_id_sql [] = Inr (db', rows, n)" and v: "rows = [[v]]" "scan_int v = Some i"
    using assms(1)
    by (auto simp: latest_event_id_def nil_db_def split: option.splits sum.splits list.splits)
  from exec_ready [OF parse_latest_id_sql ex] obtain t where t: "db_table db = Some t"
    and vt: "v = (if t_rows t = [] then VInt 0 else Max ((\<lambda>r. field_of r ''id'') ` set (t_rows t)))"
    using v by (auto split: option.splits)
  have inv: "table_inv unmarshal t"
    using assms(2) db t by (simp add: store_inv_def store_table_def)
  show ?thesis
  proof (cases "t_rows t = []")
    case True
    with vt v db t show ?thesis by (simp add: store_events_def store_table_def)
  next
    case False
    let ?l = "last (t_rows t)"
    have "field_of r ''id'' = VInt (ev_id (view unmarshal r)) \<and>
        ev_id (view unmarshal r) \<le> ev_id (view unmarshal ?l)" if "r \<in> set (t_rows t)" for r
    proof -
      have "t_rows t = butlast (t_rows t) @ [?l]" using False by simp
      then have "sorted_wrt (\<lambda>a b. ev_id (view unmarshal a) < ev_id (view unmarshal b))
          (butlast (t_rows t) @ [?l])" and "r \<in> set (butlast (t_rows t) @ [?l])"
        using inv that by (simp_all add: table_inv_def)
      then have "ev_id (view unmarshal r) \<le> ev_id (view unmarshal ?l)"
        by (auto simp: sorted_wrt_append)
      then show ?thesis using inv that row_key_fields(1) by (auto simp: table_inv_def)
    qed
    then have "Max ((\<lambda>r. field_of r ''id'') ` set (t_rows t)) = VInt (ev_id (view unmarshal ?l))"
      using False by (intro Max_eqI) auto
    with vt v False db t show ?thesis
      by (simp add: store_events_def store_table_def last_map)
  qed
qed

lemma filter_gone:
  assumes "table_inv unmarshal t"
  shows "map (view unmarshal) (filter (atom_holds (Cmp ''ts'' CmpLt) [VInt c]) (t_rows t)) =
      filter (\<lambda>ev. ev_timestamp ev < c) (map (view unmarshal) (t_rows t))"
    and "map (view unmarshal) (filter (\<lambda>r. \<not> atom_holds (Cmp ''ts'' CmpLt) [VInt c] r) (t_rows t)) =
      filter (\<lambda>ev. c \<le> ev_timestamp ev) (map (view unmarshal) (t_rows t))"
  by (rule filter_view [OF assms], simp add: row_key_fields(2) not_less)+

lemma prune_result:
  assumes "prune_events exec st cutoff vac = (st', n, None)" and "store_inv unmarshal st"
  shows "store_events unmarshal st' =
      filter (\<lambda>ev. unix_nano cutoff \<le> ev_timestamp ev) (store_events unmarshal st)"
    and "n = int (length (filter (\<lambda>ev. ev_timestamp ev < unix_nano cutoff) (store_events unmarshal st)))"
    and "store_seq st' = store_seq st" and "store_inv unmarshal st'" and "store_ready st'"
proof -
  let ?c = "unix_nano cutoff" and ?a = "Cmp ''ts'' CmpLt"
  obtain db db1 rows where db: "st_db st = Some db"
    and ex: "exec db delete_sql [VInt ?c] = Inr (db1, rows, n)"
    and res: "\<exists>db2. st_db st' = Some db2 \<and>
      (db2 = db1 \<or> (\<exists>r k. exec db1 ''VACUUM'' [] = Inr (db2, r, k)))"
    using assms(1)
    by (auto simp: prune_events_def split: option.splits sum.splits prod.splits if_splits)
  from exec_ready [OF parse_delete_sql ex] obtain t where t: "db_table db = Some t"
    and db1: "db1 = db\<lparr>db_table := Some (t\<lparr>t_rows := filter (\<lambda>r. \<not> atom_holds ?a [VInt ?c] r) (t_rows t)\<rparr>)\<rparr>"
    and n: "n = int (length (filter (atom_holds ?a [VInt ?c]) (t_rows t)))"
    by (auto simp: Let_def simp del: atom_holds.simps split: option.splits if_splits)
  let ?t' = "t\<lparr>t_rows := filter (\<lambda>r. \<not> atom_holds ?a [VInt ?c] r) (t_rows t)\<rparr>"
  obtain db2 where "st_db st' = Some db2" "db2 = db1"
    using res exec_ready [OF parse_vacuum] by (fastforce split: if_splits)
  then have t': "store_table st' = Some ?t'" using db1 by (simp add: store_table_def)
  have inv: "table_inv unmarshal t"
    using assms(2) db t by (simp add: store_inv_def store_table_def)
  have st: "store_table st = Some t" using db t by (simp add: store_table_def)
  show "store_events unmarshal st' = filter (\<lambda>ev. ?c \<le> ev_timestamp ev) (store_events unmarshal st)"
    using t' st filter_gone(2) [OF inv] by (simp add: store_events_def)
  have "length (filter (atom_holds ?a [VInt ?c]) (t_rows t)) =
      length (map (view unmarshal) (filter (atom_holds ?a [VInt ?c]) (t_rows t)))" by simp
  then show "n = int (length (filter (\<lambda>ev. ev_timestamp ev < ?c) (store_events unmarshal st)))"
    using n st unfolding filter_gone(1) [OF inv] by (simp add: store_events_def)
  show "store_seq st' = store_seq st" using t' st by (simp add: store_seq_def)
  show "store_inv unmarshal st'"
    using t' inv by (auto simp: store_inv_def table_inv_def sorted_wrt_filter)
  show "store_ready st'" using t' by (simp add: store_ready_def)
qed

end

section \<open>Without I/O errors\<close>

text \<open>An environment in which nothing around the write fails.\<close>

definition tx_fine :: "tx_env \<Rightarrow> bool" where
  "tx_fine env \<longleftrightarrow> tx_begin env = None \<and> tx_prepare env = None \<and> tx_commit env = None \<and>
     tx_ctx env = (\<lambda>i. None)"

locale event_store_total = event_store + sql_engine_total

context event_store_total begin

lemma query_events_returns:
  assumes "parse_sql q = Some (Select event_column_names wh ord)"
    and "drop (where_params wh) args = [VInt n]" and "n > 0"
    and "store_ready st" and "store_inv unmarshal st"
  shows "\<exists>evs. query_events exec unmarshal st q args = Inr evs"
proof -
  obtain db t where st: "st_db st = Some db" "db_table db = Some t" "store_table st = Some t"
    using store_ready_cases [OF assms(4)] by metis
  have "table_inv unmarshal t" using assms(5) st by (simp add: store_inv_def)
  from sql_eval_select [OF this st(2) assms(2,3), of ord] obtain rows where
    "sql_eval (Select event_column_names wh ord) args db = Inr (db, rows, 0)"
    "rmap (scan_event unmarshal) rows = Inr (select_events unmarshal wh ord args n t)" by blast
  with engine_total [OF assms(1)] st(1) show ?thesis by (simp add: query_events_def)
qed

lemma store_query_total:
  assumes "store_ready st" and "store_inv unmarshal st" and "validate_filter f = None"
  shows "store_query exec unmarshal st f = Inr (query_spec f (store_events unmarshal st))"
proof -
  have "query_limit f > 0" by (simp add: query_limit_def)
  from query_events_returns [OF parse_query_sql query_where_drop this assms(1,2)] assms(3)
  obtain evs where "store_query exec unmarshal st f = Inr evs" by (auto simp: store_query_def)
  with store_query_result [OF this assms(2)] show ?thesis by simp
qed

lemma events_after_total:
  assumes "store_ready st" and "store_inv unmarshal st"
  shows "events_after_id exec unmarshal st a lim =
    Inr (after_spec a lim (store_events unmarshal st))"
proof -
  let ?n = "if lim \<le> 0 then 500 else lim"
  have pos: "0 < ?n" by simp
  obtain evs where "events_after_id exec unmarshal st a lim = Inr evs"
    using query_events_returns [OF parse_events_after_sql _ _ assms, of "[VInt a, VInt ?n]" ?n] pos
    by (auto simp: events_after_id_def Let_def)
  with events_after_result [OF this assms(2)] show ?thesis by simp
qed

lemma query_text_total:
  assumes "store_ready st" and "store_inv unmarshal st"
  shows "store_query_text exec unmarshal st terms lim =
    Inr (text_spec terms lim (store_events unmarshal st))"
proof (cases "normalize_terms terms = []")
  case True
  then show ?thesis by (simp add: store_query_text_def text_spec_def)
next
  case False
  let ?n = "if lim \<le> 0 then 200 else lim"
  have pos: "0 < ?n" by simp
  obtain evs where "store_query_text exec unmarshal st terms lim = Inr evs"
    using query_events_returns [OF parse_query_text_sql [OF False] query_text_drop pos assms] False
    by (auto simp: store_query_text_def Let_def)
  with query_text_result [OF this assms(2)] show ?thesis by simp
qed

lemma insert_loop_returns:
  assumes "db_table db \<noteq> None" and "\<not> db_query_only db" and "tx_ctx env = (\<lambda>i. None)"
  shows "snd (snd (insert_loop exec marshal env i db d evs)) = None"
  using assms(1,2)
proof (induction evs arbitrary: i db d)
  case (Cons ev0 evs)
  let ?ev = "stamp (tx_now env i) ev0"
  obtain md where md: "marshal (ev_metadata ?ev) = Inr md" using marshal_total by blast
  obtain t where t: "db_table db = Some t" using Cons.prems(1) by blast
  have len: "length (event_args ?ev md raw) = length insert_column_names" for raw
    by (simp add: event_args_def)
  have "\<exists>db' n. sql_eval (Insert insert_column_names)
      (event_args ?ev md (raw_or_empty (ev_raw ?ev))) db = Inr (db', [], n) \<and>
      db_table db' \<noteq> None \<and> \<not> db_query_only db'"
    using t Cons.prems(2) by (simp add: len Let_def del: length_event_columns)
  then obtain db' n where "sql_eval (Insert insert_column_names)
      (event_args ?ev md (raw_or_empty (ev_raw ?ev))) db = Inr (db', [], n)"
    and db': "db_table db' \<noteq> None" "\<not> db_query_only db'" by blast
  from engine_total [OF parse_insert_sql this(1)] Cons.IH [OF db'] md assms(3)
  show ?case by (simp add: Let_def)
qed simp

lemma insert_events_returns:
  assumes "st_db st = Some db" and "db_table db \<noteq> None" and "\<not> db_query_only db"
    and "\<not> st_read_only st" and "tx_fine env"
  shows "\<exists>st' stats. insert_events exec marshal env st evs = (st', stats, None)"
proof -
  have "snd (snd (insert_loop exec marshal env 0 db 0 evs)) = None"
    by (rule insert_loop_returns) (use assms in \<open>simp_all add: tx_fine_def\<close>)
  then show ?thesis
    using assms by (cases "insert_loop exec marshal env 0 db 0 evs")
      (auto simp: insert_events_def tx_fine_def)
qed

lemma latest_id_returns:
  assumes "store_ready st" and "store_inv unmarshal st"
  shows "\<exists>i. latest_event_id exec st = Inr i"
proof -
  obtain db t where st: "st_db st = Some db" "db_table db = Some t" "store_table st = Some t"
    using store_ready_cases [OF assms(1)] by metis
  let ?v = "if t_rows t = [] then VInt 0 else Max ((\<lambda>r. field_of r ''id'') ` set (t_rows t))"
  have "sql_eval (Aggregate [MaxOf ''id'']) [] db = Inr (db, [[?v]], 0)"
    using st by simp
  note ex = engine_total [OF parse_latest_id_sql this]
  have "\<forall>r \<in> set (t_rows t). \<exists>n. field_of r ''id'' = VInt n"
    using assms(2) st(3) row_key_fields(1) by (fastforce simp: store_inv_def table_inv_def)
  moreover have "Max ((\<lambda>r. field_of r ''id'') ` set (t_rows t)) \<in> (\<lambda>r. field_of r ''id'') ` set (t_rows t)"
    if "t_rows t \<noteq> []" using that by (intro Max_in) auto
  ultimately have "\<exists>n. ?v = VInt n" by fastforce
  then show ?thesis using ex st(1) by (auto simp: latest_event_id_def)
qed

lemma prune_returns:
  assumes "st_db st = Some db" and "db_table db \<noteq> None" and "\<not> db_query_only db"
    and "\<not> st_read_only st"
  shows "\<exists>st' n. prune_events exec st cutoff vac = (st', n, None)"
proof -
  obtain t where t: "db_table db = Some t" using assms(2) by blast
  obtain db' n where ev: "sql_eval (Delete (Cmp ''ts'' CmpLt)) [VInt (unix_nano cutoff)] db =
      Inr (db', [], n)" and q: "\<not> db_query_only db'"
    using t assms(3) by (simp add: Let_def del: atom_holds.simps)
  have "sql_eval Vacuum [] db' = Inr (db', [], 0)" using q by simp
  with engine_total [OF parse_delete_sql ev] engine_total [OF parse_vacuum this] assms
  show ?thesis by (simp add: prune_events_def)
qed

end

lemma fragment_store_total:
  "event_store_total fragment_exec json_marshal json_unmarshal stored_metadata"
  by (intro event_store_total.intro event_store.intro frag.sql_engine_axioms
      frag.sql_engine_total_axioms json.json_codec_axioms)

interpretation es: event_store_total fragment_exec json_marshal json_unmarshal stored_metadata
  by (rule fragment_store_total)

text \<open>An engine and Go's JSON make an event store.\<close>

lemma event_store_json:
  "sql_engine exec \<Longrightarrow> event_store exec json_marshal json_unmarshal stored_metadata"
  by (intro event_store.intro json.json_codec_axioms)

lemma event_store_total_json:
  "sql_engine_total exec \<Longrightarrow> event_store_total exec json_marshal json_unmarshal stored_metadata"
  by (intro event_store_total.intro event_store_json sql_engine_total.axioms(1))

end
