(* ===== verification/StoreGuard.thy ===== *)
theory StoreGuard imports StoreReads begin

text \<open>
  Opening the store and the guards around it: what a successful \<open>Open\<close> and \<open>OpenReadOnly\<close>
  give, the two sides of \<open>RawSQL\<close> (a read-only connection and a single statement), and \<open>Status\<close>.
\<close>

section \<open>Opening\<close>

lemma open_read_only_connection:
  assumes "open_read_only env path = Inr st"
  shows "st_read_only st" and "\<exists>db. st_db st = Some db \<and> db_query_only db"
    and "\<exists>p. oe_abs env path = Inr p \<and> oe_exists env p = Inr True \<and> store_table st = oe_file env p"
  using assms
  by (auto simp: open_read_only_def connect_def dsn_pragmas_def store_table_def
      split: if_splits sum.splits option.splits)

lemma parse_create_table: "parse_sql create_table_sql = Some CreateTable"
  by (simp add: parse_sql_def)

lemma parse_create_index:
  "q \<in> set (tl schema_statements) \<Longrightarrow> parse_sql q = Some CreateIndex"
  by (auto simp: parse_sql_def schema_statements_def create_table_sql_def)

context sql_engine begin

lemma run_indexes:
  assumes "run_schema exec db qs = Inr db'" and "set qs \<subseteq> set (tl schema_statements)"
  shows "db' = db"
  using assms
proof (induction qs arbitrary: db)
  case (Cons q qs)
  then obtain db1 rows n where ex: "exec db q [] = Inr (db1, rows, n)"
    and rest: "run_schema exec db1 qs = Inr db'"
    by (auto split: sum.splits)
  have "parse_sql q = Some CreateIndex" using Cons.prems(2) by (intro parse_create_index) simp
  from engine_sound [OF this ex] have "db1 = db" by (auto split: option.splits)
  with Cons rest show ?case by simp
qed simp

text \<open>The schema creates the table when there is none and leaves an existing one as it is.\<close>

lemma run_schema_result:
  assumes "run_schema exec db schema_statements = Inr db'"
  shows "db' = db\<lparr>db_table := Some (case db_table db of Some t \<Rightarrow> t | None \<Rightarrow> \<lparr>t_rows = [], t_seq = 0\<rparr>)\<rparr>"
proof -
  have s: "schema_statements = create_table_sql # tl schema_statements"
    by (simp add: schema_statements_def)
  obtain db1 rows n where ex: "exec db create_table_sql [] = Inr (db1, rows, n)"
    and rest: "run_schema exec db1 (tl schema_statements) = Inr db'"
    using assms by (subst (asm) s) (auto split: sum.splits)
  have "db1 = db\<lparr>db_table := Some (case db_table db of Some t \<Rightarrow> t | None \<Rightarrow> \<lparr>t_rows = [], t_seq = 0\<rparr>)\<rparr>"
    using engine_sound [OF parse_create_table ex] by (auto split: option.splits if_splits)
  with run_indexes [OF rest] show ?thesis by simp
qed

lemma open_store_result:
  assumes "open_store exec env path = Inr st"
  shows "\<exists>p. oe_abs env path = Inr p \<and>
    store_table st = Some (case oe_file env p of Some t \<Rightarrow> t | None \<Rightarrow> \<lparr>t_rows = [], t_seq = 0\<rparr>)"
    and "\<not> st_read_only st"
proof -
  obtain p db db' where p: "oe_abs env path = Inr p" and c: "connect env p False = Inr db"
    and r: "run_schema exec db schema_statements = Inr db'"
    and st: "st = \<lparr>st_db = Some db', st_read_only = False\<rparr>"
    using assms by (auto simp: open_store_def split: if_splits sum.splits option.splits)
  have "db_table db = oe_file env p"
    using c by (auto simp: connect_def split: option.splits)
  with run_schema_result [OF r] p st
  show "\<exists>p. oe_abs env path = Inr p \<and>
    store_table st = Some (case oe_file env p of Some t \<Rightarrow> t | None \<Rightarrow> \<lparr>t_rows = [], t_seq = 0\<rparr>)"
    by (auto simp: store_table_def)
  show "\<not> st_read_only st" using st by simp
qed

section \<open>Raw SQL\<close>

lemma raw_sql_unchanged:
  assumes "raw_sql exec columns st q = (st', r)"
    and "st_read_only st \<longrightarrow> (\<forall>db. st_db st = Some db \<longrightarrow> db_query_only db)"
    and "sqlite_single q"
  shows "store_table st' = store_table st"
proof -
  have "st' = st \<or> (\<exists>db db' rows n. st_read_only st \<and> st_db st = Some db \<and>
      exec db q [] = Inr (db', rows, n) \<and> st' = st\<lparr>st_db := Some db'\<rparr>)"
    using assms(1)
    by (auto simp: raw_sql_def split: if_splits option.splits sum.splits prod.splits)
  then show ?thesis
  proof (elim disjE exE conjE)
    fix db db' rows n
    assume "st_read_only st" "st_db st = Some db" "exec db q [] = Inr (db', rows, n)"
      and "st' = st\<lparr>st_db := Some db'\<rparr>"
    with assms(2) engine_query_only [OF _ assms(3), of db "[]" db' rows n] show ?thesis
      by (simp add: store_table_def)
  qed simp
qed

lemma raw_sql_rejects:
  "\<not> st_read_only st \<Longrightarrow> raw_sql exec columns st q = (st, Inl (Err ''raw SQL requires read-only store''))"
  "st_read_only st \<Longrightarrow> has_multiple_statements q \<Longrightarrow>
     raw_sql exec columns st q = (st, Inl (Err ''raw SQL must be a single statement''))"
  by (simp_all add: raw_sql_def)

lemma raw_sql_capped: "raw_sql exec columns st q = (st', Inr (cols, rows)) \<Longrightarrow> length rows \<le> 10000"
  by (auto simp: raw_sql_def max_raw_sql_rows_def nil_db_def split: if_splits option.splits sum.splits
      prod.splits)

end

section \<open>Status\<close>

definition time_or_zero :: "int \<Rightarrow> gotime" where
  "time_or_zero n = (if n \<noteq> 0 then n else zero_time)"

definition status_spec :: "event list \<Rightarrow> status" where
  "status_spec evs =
     \<lparr>status_event_count = int (length evs), status_dropped_events = batch_drops evs,
      status_last_event_time =
        time_or_zero (if evs = [] then 0 else Max (ev_timestamp ` set evs)),
      status_started_at =
        time_or_zero (if evs = [] then 0 else Min (ev_timestamp ` set evs))\<rparr>"

lemma sum_checked_Some: "sum_checked acc xs = Some n \<Longrightarrow> n = acc + sum_list xs"
  by (induction xs arbitrary: acc) (force split: if_splits)+

lemma Max_VInt: "finite A \<Longrightarrow> A \<noteq> {} \<Longrightarrow> Max (VInt ` A) = VInt (Max A)"
  by (intro Max_eqI) auto

lemma Min_VInt: "finite A \<Longrightarrow> A \<noteq> {} \<Longrightarrow> Min (VInt ` A) = VInt (Min A)"
  by (intro Min_eqI) auto

context event_store begin

lemma status_result:
  assumes "store_status exec st = Inr s" and "store_inv unmarshal st"
  shows "s = status_spec (store_events unmarshal st)"
proof -
  obtain db db' rows n vc vmi vma vd where db: "st_db st = Some db"
    and ex: "exec db status_sql [] = Inr (db', rows, n)" and rows: "rows = [[vc, vmi, vma, vd]]"
    and s: "\<exists>c mi ma d. scan_int vc = Some c \<and> scan_int vmi = Some mi \<and> scan_int vma = Some ma \<and>
      scan_int vd = Some d \<and>
      s = \<lparr>status_event_count = c, status_dropped_events = d,
        status_last_event_time = time_or_zero ma, status_started_at = time_or_zero mi\<rparr>"
    using assms(1)
    by (auto simp: store_status_def nil_db_def time_or_zero_def
        split: option.splits sum.splits list.splits)
  from exec_ready [OF parse_status_sql ex] obtain t where t: "db_table db = Some t"
    and v: "rbind (rmap (\<lambda>a. agg_eval a (t_rows t)) [CountAll, MinOf ''ts'', MaxOf ''ts'', SumOf ''dropped_before''])
      (\<lambda>vs. Inr (db, [vs], 0)) = Inr (db', rows, n)"
    by (auto split: option.splits)
  have inv: "\<forall>r \<in> set (t_rows t). row_ok unmarshal r"
    using assms(2) db t by (simp add: store_inv_def store_table_def table_inv_def)
  have evs: "store_events unmarshal st = map (view unmarshal) (t_rows t)"
    using db t by (simp add: store_events_def store_table_def)
  have ts: "(\<lambda>r. field_of r ''ts'') ` set (t_rows t) =
      VInt ` ev_timestamp ` set (store_events unmarshal st)"
    using inv by (auto simp: evs image_image row_key_fields(2) [of unmarshal] intro!: image_cong)
  have drops: "map (\<lambda>r. int_of_val (field_of r ''dropped_before'')) (t_rows t) =
      map ev_dropped_before (store_events unmarshal st)"
    using inv by (simp add: evs field_of_row [OF row_ok_typed [of unmarshal]] row_fields [of unmarshal])
  show ?thesis
    using v s rows
    by (auto simp: ts drops status_spec_def batch_drops_def evs Max_VInt Min_VInt
        dest!: sum_checked_Some split: option.splits if_splits)
qed

end


section \<open>Sockets\<close>

definition has_socket :: "event \<Rightarrow> bool" where
  "has_socket ev \<longleftrightarrow> ev_category ev = ''network'' \<and> (ev_local_addr ev \<noteq> [] \<or> ev_remote_addr ev \<noteq> [])"

definition socket_of :: "event \<Rightarrow> socket_record" where
  "socket_of ev = \<lparr>sr_pid = ev_pid ev, sr_comm = ev_comm ev, sr_local_port = ev_local_port ev,
     sr_state = ev_action ev, sr_seen_at = ev_timestamp ev\<rparr>"

definition sockets_spec :: "int \<Rightarrow> event list \<Rightarrow> socket_record list" where
  "sockets_spec limit evs =
     take (nat (if limit \<le> 0 then 200 else limit))
       (map socket_of (order_events False (filter has_socket evs)))"

abbreviation (input) socket_where :: "clause list" where
  "socket_where \<equiv> [Single (EqLit ''category'' ''network''),
     AnyOf [NeLit ''local_addr'' [], NeLit ''remote_addr'' []]]"

lemma socket_where_holds:
  assumes "row_ok um r"
  shows "where_holds socket_where args r = has_socket (view um r)"
  by (simp add: has_socket_def field_of_row [OF row_ok_typed [OF assms]] row_fields [OF assms])

lemma scan_socket_row:
  assumes "row_ok um r"
  shows "scan_socket (map (field_of r) [''pid'', ''comm'', ''local_port'', ''action'', ''ts'']) =
    Inr (socket_of (view um r))"
  by (simp add: scan_socket_def socket_of_def field_of_row [OF row_ok_typed [OF assms]]
      row_fields [OF assms])

lemma rmap_scan_sockets:
  assumes "\<forall>r \<in> set rs. row_ok um r"
  shows "rmap scan_socket (map (\<lambda>r. map (field_of r) [''pid'', ''comm'', ''local_port'', ''action'', ''ts'']) rs) =
    Inr (map (\<lambda>r. socket_of (view um r)) rs)"
  using assms
  unfolding rmap_map using assms by (intro rmap_all_Inr scan_socket_row) simp

context event_store begin

lemma sockets_result:
  assumes "store_sockets exec st lim = Inr recs" and "store_inv unmarshal st"
  shows "recs = sockets_spec lim (store_events unmarshal st)"
proof -
  let ?n = "if lim \<le> 0 then 200 else lim"
  obtain db db' rows k where db: "st_db st = Some db"
    and ex: "exec db sockets_sql [VInt ?n] = Inr (db', rows, k)"
    and scan: "rmap scan_socket rows = Inr recs"
    using assms(1) by (auto simp: store_sockets_def Let_def nil_db_def split: option.splits)
  from engine_sound [OF parse_sockets_sql ex] obtain t where t: "db_table db = Some t"
    and rows: "rows = map (\<lambda>r. map (field_of r) [''pid'', ''comm'', ''local_port'', ''action'', ''ts''])
      (take (nat ?n) (order_rows [(''ts'', False), (''id'', False)]
        (filter (where_holds socket_where [VInt ?n]) (t_rows t))))"
    by (auto simp: limit_rows_pos simp del: order_rows.simps where_holds.simps list.map
        split: option.splits)
  have inv: "table_inv unmarshal t"
    using assms(2) db t by (simp add: store_inv_def store_table_def)
  let ?sel = "take (nat ?n) (order_rows [(''ts'', False), (''id'', False)]
      (filter (where_holds socket_where [VInt ?n]) (t_rows t)))"
  have ok: "\<forall>r \<in> set ?sel. row_ok unmarshal r"
    using filter_rows_ok [OF inv] by (auto dest: in_set_takeD)
  have "recs = map (\<lambda>r. socket_of (view unmarshal r)) ?sel"
    using scan rmap_scan_sockets [OF ok] unfolding rows by simp
  also have "\<dots> = map socket_of (select_events unmarshal socket_where
      [(''ts'', False), (''id'', False)] [VInt ?n] ?n t)"
    by (simp add: select_events_def take_map comp_def del: order_rows.simps where_holds.simps)
  also have "\<dots> = sockets_spec lim (store_events unmarshal st)"
    using select_events_order [where Q = has_socket, OF inv socket_where_holds] db t
    by (simp add: sockets_spec_def store_events_def store_table_def take_map del: where_holds.simps)
  finally show ?thesis .
qed

end

context event_store_total begin

lemma sockets_total:
  assumes "store_ready st" and "store_inv unmarshal st"
  shows "store_sockets exec st lim = Inr (sockets_spec lim (store_events unmarshal st))"
proof -
  let ?n = "if lim \<le> 0 then 200 else lim"
  let ?cols = "[''pid'', ''comm'', ''local_port'', ''action'', ''ts'']"
  obtain db t where st: "st_db st = Some db" "db_table db = Some t" "store_table st = Some t"
    using store_ready_cases [OF assms(1)] by metis
  have inv: "table_inv unmarshal t" using assms(2) st by (simp add: store_inv_def)
  let ?sel = "take (nat ?n) (order_rows [(''ts'', False), (''id'', False)]
      (filter (where_holds socket_where [VInt ?n]) (t_rows t)))"
  have ok: "\<forall>r \<in> set ?sel. row_ok unmarshal r"
    using filter_rows_ok [OF inv] by (auto dest: in_set_takeD)
  have "sql_eval (Select ?cols socket_where [(''ts'', False), (''id'', False)]) [VInt ?n] db =
      Inr (db, map (\<lambda>r. map (field_of r) ?cols) ?sel, 0)"
    using st(2) by (simp add: limit_rows_pos del: order_rows.simps where_holds.simps list.map)
  from engine_total [OF parse_sockets_sql this] rmap_scan_sockets [OF ok] st(1)
  have "\<exists>recs. store_sockets exec st lim = Inr recs"
    by (simp add: store_sockets_def Let_def del: order_rows.simps where_holds.simps list.map)
  with sockets_result [OF _ assms(2)] show ?thesis by blast
qed

end

end
