(* ===== verification/StoreProps.thy ===== *)
theory StoreProps imports StoreGuard begin

text \<open>
  The properties of the store, over any engine that satisfies the interface \<open>sql_engine\<close> (or,
  where a result must be returned, \<open>sql_engine_total\<close>) and Go's JSON. Their witnesses run the
  fragment's own engine on a sample store.
\<close>

section \<open>Samples for the witnesses\<close>

definition sample_event :: event where
  "sample_event = empty_event\<lparr>ev_timestamp := 1000, ev_category := ''file'',
     ev_action := ''open'', ev_pid := 42, ev_comm := ''Vim'', ev_path := ''/etc/a_b'',
     ev_dropped_before := 2,
     ev_metadata := Some [(''flags'', AInt 7), (''arg'', AString ''a<b'')]\<rparr>"

definition later_event :: event where
  "later_event = sample_event\<lparr>ev_timestamp := 2000, ev_pid := 43, ev_metadata := None\<rparr>"

definition sample_store :: store where
  "sample_store = \<lparr>st_db = Some \<lparr>db_table = Some \<lparr>t_rows = [], t_seq = 0\<rparr>, db_query_only = False\<rparr>,
     st_read_only = False\<rparr>"

definition sample_env :: tx_env where
  "sample_env = \<lparr>tx_begin = None, tx_prepare = None, tx_ctx = (\<lambda>i. None), tx_now = (\<lambda>i. 5),
     tx_commit = None, tx_latency = 0\<rparr>"

definition sample_insert :: "event list \<Rightarrow> store \<times> insert_stats \<times> go_error option" where
  "sample_insert evs = insert_events fragment_exec json_marshal sample_env sample_store evs"

definition filled_store :: store where
  "filled_store = fst (sample_insert [sample_event, later_event])"

lemma sample_store_db:
  "st_db sample_store = Some \<lparr>db_table = Some \<lparr>t_rows = [], t_seq = 0\<rparr>, db_query_only = False\<rparr>"
  "\<not> st_read_only sample_store"
  by (simp_all add: sample_store_def)

lemma sample_env_fine: "tx_fine sample_env"
  by (simp add: tx_fine_def sample_env_def)

lemma sample_insert_ok: "snd (snd (sample_insert [sample_event, later_event])) = None"
proof -
  obtain st' stats where "insert_events fragment_exec json_marshal sample_env sample_store
      [sample_event, later_event] = (st', stats, None)"
    using es.insert_events_returns [OF sample_store_db(1) _ _ sample_store_db(2) sample_env_fine,
        of "[sample_event, later_event]"] by auto
  then show ?thesis by (simp add: sample_insert_def)
qed

lemma sample_insert_eq:
  "insert_events fragment_exec json_marshal sample_env sample_store [sample_event, later_event] =
    (filled_store, fst (snd (sample_insert [sample_event, later_event])), None)"
  using sample_insert_ok by (simp add: filled_store_def sample_insert_def prod_eq_iff)

lemma sample_store_inv: "store_inv json_unmarshal sample_store" "store_ready sample_store"
  by (simp_all add: store_inv_def table_inv_def store_ready_def store_table_def sample_store_def)

lemma sample_batch_ok: "batch_ok [sample_event, later_event]"
  by code_simp

lemma filled_store_inv: "store_inv json_unmarshal filled_store" "store_ready filled_store"
  using es.insert_events_appends(4,5) [OF sample_insert_eq _ sample_store_inv(2,1) sample_batch_ok]
  by simp_all

section \<open>Writing\<close>

text \<open>
  Without I/O errors, \<open>InsertEvents\<close> on a writable store commits: it returns no error, and the
  store then holds the batch after what it held before.
\<close>

theorem insert_commits:
  assumes "sql_engine_total exec" and "st_db st = Some db" and "db_table db \<noteq> None"
    and "\<not> db_query_only db" and "\<not> st_read_only st" and "tx_fine env"
    and "store_inv json_unmarshal st" and "batch_ok evs"
  shows "\<exists>st' stats. insert_events exec json_marshal env st evs = (st', stats, None) \<and>
    store_events json_unmarshal st' =
      store_events json_unmarshal st @ stored_batch stored_metadata env 0 (store_seq st) evs"
proof (cases "evs = []")
  case True
  then show ?thesis by (simp add: insert_events_def)
next
  case False
  obtain st' stats where run: "insert_events exec json_marshal env st evs = (st', stats, None)"
    using event_store_total.insert_events_returns [OF event_store_total_json [OF assms(1)] assms(2-6)]
    by blast
  have ready: "store_ready st" using assms(2,3) by (simp add: store_ready_def store_table_def)
  show ?thesis
    using run event_store.insert_events_appends(1) [OF event_store_json [OF
          sql_engine_total.axioms(1) [OF assms(1)]] run False ready assms(7,8)] by blast
qed

theorem insert_commits_witness:
  "\<exists>st' stats. insert_events fragment_exec json_marshal sample_env sample_store [sample_event] =
      (st', stats, None) \<and>
    store_events json_unmarshal st' = store_events json_unmarshal sample_store @
      stored_batch stored_metadata sample_env 0 (store_seq sample_store) [sample_event]"
proof -
  have ok: "batch_ok [sample_event]" by code_simp
  show ?thesis
    using insert_commits [OF frag.sql_engine_total_axioms sample_store_db(1) _ _ sample_store_db(2)
        sample_env_fine sample_store_inv(1) ok] by simp
qed

text \<open>
  C8: A batch that \<open>InsertEvents\<close> commits is appended to the events the store holds, whole and in
  order, each with the next id and what JSON keeps of its metadata; the statistics report the sum
  of the drops the events carry; the invariant of the store is kept.
\<close>

theorem insert_appends_batch:
  assumes "sql_engine exec"
    and "insert_events exec json_marshal env st evs = (st', stats, None)"
    and "evs \<noteq> []" and "store_ready st" and "store_inv json_unmarshal st" and "batch_ok evs"
  shows "store_events json_unmarshal st' = store_events json_unmarshal st @
        stored_batch stored_metadata env 0 (store_seq st) evs \<and>
      store_seq st' = store_seq st + int (length evs) \<and>
      is_dropped stats = wrap64 (batch_drops evs) \<and>
      store_inv json_unmarshal st'"
  using event_store.insert_events_appends(1-4) [OF event_store_json [OF assms(1)] assms(2-6)] by blast

theorem insert_appends_batch_witness:
  "store_events json_unmarshal filled_store =
     store_events json_unmarshal sample_store @
       stored_batch stored_metadata sample_env 0 (store_seq sample_store) [sample_event, later_event]"
  using insert_appends_batch [OF frag.sql_engine_axioms sample_insert_eq _ sample_store_inv(2,1)
      sample_batch_ok] by simp



text \<open>
  A store that \<open>OpenReadOnly\<close> opened refuses every write of the program: \<open>InsertEvents\<close> of a
  batch and \<open>Prune\<close> return the read-only error and leave the store as it is.
\<close>

theorem read_only_store_refuses_writes:
  assumes "open_read_only oenv path = Inr st" and "evs \<noteq> []"
  shows "insert_events exec marshal env st evs =
      (st, empty_stats, Some (Err ''store opened read-only'')) \<and>
    prune_events exec st cutoff vacuum = (st, 0, Some (Err ''store opened read-only''))"
  using open_read_only_connection [OF assms(1)] assms(2)
  by (auto simp: insert_events_def prune_events_def)

definition sample_open_env :: open_env where
  "sample_open_env = \<lparr>oe_abs = (\<lambda>p. Inr p), oe_mkdir = (\<lambda>p. None), oe_exists = (\<lambda>p. Inr True),
     oe_open = (\<lambda>p. None), oe_ping = (\<lambda>p. None),
     oe_file = (\<lambda>p. Some \<lparr>t_rows = [], t_seq = 0\<rparr>)\<rparr>"

theorem read_only_store_refuses_writes_witness:
  "prune_events fragment_exec
     \<lparr>st_db = Some \<lparr>db_table = Some \<lparr>t_rows = [], t_seq = 0\<rparr>, db_query_only = True\<rparr>,
       st_read_only = True\<rparr> 5 True =
   (\<lparr>st_db = Some \<lparr>db_table = Some \<lparr>t_rows = [], t_seq = 0\<rparr>, db_query_only = True\<rparr>,
       st_read_only = True\<rparr>, 0, Some (Err ''store opened read-only''))"
proof -
  have "open_read_only sample_open_env ''/x'' =
    Inr \<lparr>st_db = Some \<lparr>db_table = Some \<lparr>t_rows = [], t_seq = 0\<rparr>, db_query_only = True\<rparr>,
       st_read_only = True\<rparr>"
    by (simp add: open_read_only_def sample_open_env_def connect_def dsn_pragmas_def)
  from read_only_store_refuses_writes [OF this, of "[sample_event]" fragment_exec _ _ 5 True]
  show ?thesis by simp
qed

section \<open>Reading\<close>


definition sample_filter :: event_filter where
  "sample_filter = empty_filter\<lparr>f_pids := [42, 43], f_path_like := ''/etc/%'', f_limit := 1\<rparr>"


text \<open>
  Whatever \<open>Query\<close> returns, on any engine: every event is a stored one that the filter
  matches, in the order of timestamp and id the filter asks for, at most as many as its limit; and
  if fewer than the limit came back, none is missing.
\<close>

theorem query_sound_ordered_complete:
  assumes "sql_engine exec" and "store_inv json_unmarshal st"
    and "store_query exec json_unmarshal st f = Inr evs"
  shows "set evs \<subseteq> {ev \<in> set (store_events json_unmarshal st). event_matches f ev} \<and>
    sorted_wrt (if f_order_asc f then earlier else (\<lambda>a b. earlier b a)) evs \<and>
    int (length evs) \<le> query_limit f \<and>
    (int (length evs) < query_limit f \<longrightarrow>
      mset evs = mset (filter (event_matches f) (store_events json_unmarshal st)))"
proof -
  let ?m = "filter (event_matches f) (store_events json_unmarshal st)"
  have evs: "evs = take (nat (query_limit f)) (order_events (f_order_asc f) ?m)"
    using event_store.store_query_result [OF event_store_json [OF assms(1)] assms(3,2)]
    by (simp add: query_spec_limit)
  have "set evs \<subseteq> set ?m" using set_take_subset [of "nat (query_limit f)"] by (force simp: evs)
  moreover have "sorted_wrt (if f_order_asc f then earlier else (\<lambda>a b. earlier b a)) evs"
    using order_events_sorted by (simp add: evs sorted_wrt_take)
  moreover have "int (length evs) < query_limit f \<longrightarrow> mset evs = mset ?m"
    by (auto simp: evs)
  ultimately show ?thesis by (auto simp: evs query_limit_def)
qed

theorem query_sound_ordered_complete_witness:
  "\<exists>evs. store_query fragment_exec json_unmarshal filled_store sample_filter = Inr evs \<and>
     sorted_wrt (\<lambda>a b. earlier b a) evs \<and> int (length evs) \<le> 1"
proof -
  have valid: "validate_filter sample_filter = None"
    by (simp add: validate_filter_def sample_filter_def empty_filter_def is_zero_time_def)
  have "f_order_asc sample_filter = False" "query_limit sample_filter = 1"
    by (simp_all add: sample_filter_def empty_filter_def query_limit_def)
  with query_sound_ordered_complete [OF frag.sql_engine_axioms filled_store_inv(1)
      es.store_query_total [OF filled_store_inv(2,1) valid]]
    es.store_query_total [OF filled_store_inv(2,1) valid]
  show ?thesis by simp
qed

text \<open>
  The SQL text of a query depends on which parts of the filter are set and how many values
  each list has, never on the values: no path, command name or category a user passes can change
  the statement that runs.
\<close>

theorem query_text_ignores_values:
  assumes "is_zero_time (f_from f) = is_zero_time (f_from g)"
    and "is_zero_time (f_to f) = is_zero_time (f_to g)"
    and "length (f_pids f) = length (f_pids g)" and "length (f_uids f) = length (f_uids g)"
    and "length (f_categories f) = length (f_categories g)"
    and "length (f_actions f) = length (f_actions g)" and "length (f_comms f) = length (f_comms g)"
    and "(f_path_like f = []) = (f_path_like g = [])" and "(f_exe_like f = []) = (f_exe_like g = [])"
    and "(f_exact_path f = []) = (f_exact_path g = [])" and "f_order_asc f = f_order_asc g"
  shows "query_sql f = query_sql g"
proof -
  have cond: "map fst (cond_if b t a) = map fst (cond_if b t a')" for b t a a'
    by (simp add: cond_if_def)
  have ins: "length vs = length ws \<Longrightarrow> map fst (in_cond c vs) = map fst (in_cond c ws)" for c vs ws
    by (simp add: in_cond_def cond_if_def)
  have "map fst (query_conds f) = map fst (query_conds g)"
    unfolding query_conds_def map_append using assms
    by (intro arg_cong2 [where f = "(@)"] ins) (simp_all add: cond_if_def)
  then have "query_conds f = [] \<longleftrightarrow> query_conds g = []"
    and "map fst (query_conds f) = map fst (query_conds g)" by (metis map_is_Nil_conv, assumption)
  with assms(11) show ?thesis by (simp add: query_sql_def)
qed

theorem query_text_ignores_values_witness:
  "query_sql (empty_filter\<lparr>f_comms := [[quote_sq] @ '' OR 1=1; --'']\<rparr>) =
     query_sql (empty_filter\<lparr>f_comms := [''vim'']\<rparr>)"
  by (rule query_text_ignores_values) (simp_all add: empty_filter_def)



text \<open>
  C30: What \<open>ltm watch\<close> relies on: after a batch was committed, \<open>EventsAfterID\<close> from the id that
  \<open>LatestEventID\<close> gave before returns the events of the batch, in order, up to the limit, and no
  older event.
\<close>

theorem events_after_latest_are_the_new_ones:
  assumes "sql_engine_total exec"
    and "insert_events exec json_marshal env st evs = (st', stats, None)"
    and "evs \<noteq> []" and "store_ready st" and "store_inv json_unmarshal st" and "batch_ok evs"
    and "latest_event_id exec st = Inr latest" and "0 \<le> store_seq st" and "0 < limit"
  shows "events_after_id exec json_unmarshal st' latest limit =
    Inr (take (nat limit) (stored_batch stored_metadata env 0 (store_seq st) evs))"
proof -
  note eng = sql_engine_total.axioms(1) [OF assms(1)]
  note store = event_store_json [OF eng]
  note app = event_store.insert_events_appends [OF store assms(2-6)]
  have ids: "ev_id ev \<le> latest" if "ev \<in> set (store_events json_unmarshal st)" for ev
    using event_store.latest_id_result [OF store assms(7,5)] that
      store_event_ids_le_last [OF assms(5) that] by (auto split: if_splits)
  have le: "latest \<le> store_seq st"
    using event_store.latest_id_result [OF store assms(7,5)] assms(8)
      store_event_ids_le_seq [OF assms(5), of "last (store_events json_unmarshal st)"]
    by (auto split: if_splits)
  have new: "ev_id ev > latest" if "ev \<in> set (stored_batch stored_metadata env 0 (store_seq st) evs)" for ev
    using stored_batch_id_gt [OF that] le by simp
  have "filter (\<lambda>ev. ev_id ev > latest) (store_events json_unmarshal st') =
      stored_batch stored_metadata env 0 (store_seq st) evs"
    using ids new by (auto simp: app(1) filter_id_conv filter_empty_conv leD)
  with event_store_total.events_after_total [OF event_store_total_json [OF assms(1)] app(5,4)] assms(9)
  show ?thesis by (simp add: after_spec_def)
qed

theorem events_after_latest_are_the_new_ones_witness:
  "events_after_id fragment_exec json_unmarshal filled_store 0 10 =
     Inr (take 10 (stored_batch stored_metadata sample_env 0 (store_seq sample_store)
       [sample_event, later_event]))"
proof -
  have latest: "latest_event_id fragment_exec sample_store = Inr 0"
    using es.latest_id_returns [OF sample_store_inv(2,1)] es.latest_id_result
      [OF _ sample_store_inv(1)]
    by (fastforce simp: store_events_def store_table_def sample_store_def)
  have seq: "0 \<le> store_seq sample_store" by code_simp
  show ?thesis
    using events_after_latest_are_the_new_ones [OF frag.sql_engine_total_axioms sample_insert_eq _
        sample_store_inv(2,1) sample_batch_ok latest seq, of 10] by simp
qed

text \<open>
  C28: \<open>Prune\<close> removes the events older than the cutoff and only those, reports how many they
  were, and keeps the sequence counter, so that no id is ever given twice.
\<close>

theorem prune_removes_exactly_older:
  assumes "sql_engine exec" and "store_inv json_unmarshal st"
    and "prune_events exec st cutoff vacuum = (st', n, None)"
  shows "store_events json_unmarshal st' =
      filter (\<lambda>ev. unix_nano cutoff \<le> ev_timestamp ev) (store_events json_unmarshal st) \<and>
    n = int (length (store_events json_unmarshal st)) - int (length (store_events json_unmarshal st')) \<and>
    store_seq st' = store_seq st \<and> store_inv json_unmarshal st'"
proof -
  note r = event_store.prune_result [OF event_store_json [OF assms(1)] assms(3,2)]
  have "length (store_events json_unmarshal st) = length (store_events json_unmarshal st') +
      length (filter (\<lambda>ev. ev_timestamp ev < unix_nano cutoff) (store_events json_unmarshal st))"
    using sum_length_filter_compl [of "\<lambda>ev. unix_nano cutoff \<le> ev_timestamp ev"
        "store_events json_unmarshal st"] r(1) by (simp add: not_le)
  with r show ?thesis by simp
qed

theorem prune_removes_exactly_older_witness:
  "store_events json_unmarshal (fst (prune_events fragment_exec filled_store 1500 True)) =
     filter (\<lambda>ev. unix_nano 1500 \<le> ev_timestamp ev) (store_events json_unmarshal filled_store)"
proof -
  let ?r = "prune_events fragment_exec filled_store 1500 True"
  have "snd (snd ?r) = None" by code_simp
  then have "?r = (fst ?r, fst (snd ?r), None)" by (simp add: prod_eq_iff)
  from prune_removes_exactly_older [OF frag.sql_engine_axioms filled_store_inv(1) this]
  show ?thesis by blast
qed



text \<open>
  \<open>Status\<close> counts the stored events, sums their drops and gives the first and last
  timestamp, the zero time for an empty store.
\<close>

theorem status_summarises_store:
  assumes "sql_engine exec" and "store_inv json_unmarshal st" and "store_status exec st = Inr s"
  shows "s = status_spec (store_events json_unmarshal st)"
  using event_store.status_result [OF event_store_json [OF assms(1)] assms(3,2)] .

theorem status_summarises_store_witness:
  "\<exists>s. store_status fragment_exec filled_store = Inr s \<and>
     s = status_spec (store_events json_unmarshal filled_store)"
proof -
  have "isl (store_status fragment_exec filled_store) = False" by code_simp
  then obtain s where s: "store_status fragment_exec filled_store = Inr s"
    by (cases "store_status fragment_exec filled_store") auto
  from status_summarises_store [OF frag.sql_engine_axioms filled_store_inv(1) s] s
  show ?thesis by blast
qed

text \<open>
  Write and read back: the row that the arguments of \<open>InsertEvents\<close> make is scanned as the
  same event with its id, the timestamp in 64 bits, the program's schema version, the raw document
  (an empty object if it had none) and the metadata as JSON keeps it.
\<close>

theorem event_row_round_trip:
  assumes "go_map (ev_metadata ev)" and "json_marshal (ev_metadata ev) = Inr md"
  shows "scan_event json_unmarshal (VInt n # event_args ev md (raw_or_empty (ev_raw ev))) =
    Inr (ev\<lparr>ev_id := n, ev_schema_version := schema_version,
      ev_timestamp := unix_nano (ev_timestamp ev),
      ev_metadata := stored_metadata (ev_metadata ev), ev_raw := raw_or_empty (ev_raw ev)\<rparr>)"
  using scan_event_row [OF json.codec_round_trip [OF assms]] by (simp add: event_row_def)

theorem event_row_round_trip_witness:
  "\<exists>md. json_marshal (ev_metadata sample_event) = Inr md \<and>
     scan_event json_unmarshal (VInt 7 # event_args sample_event md ''{}'') =
       Inr (sample_event\<lparr>ev_id := 7, ev_schema_version := 1,
         ev_metadata := Some [(''arg'', AString ''a<b''), (''flags'', AFloat 7)], ev_raw := ''{}''\<rparr>)"
proof -
  have meta: "go_map (ev_metadata sample_event)" by code_simp
  obtain md where md: "json_marshal (ev_metadata sample_event) = Inr md"
    using json.marshal_total by blast
  have "stored_metadata (ev_metadata sample_event) =
      Some [(''arg'', AString ''a<b''), (''flags'', AFloat 7)]"
    by (simp add: sample_event_def stored_metadata_def norm_metadata_def round_f64_def
        f64_scale.simps [of 7])
  moreover have "raw_or_empty (ev_raw sample_event) = ''{}''" by code_simp
  moreover have "unix_nano (ev_timestamp sample_event) = ev_timestamp sample_event" by code_simp
  ultimately show ?thesis
    using event_row_round_trip [OF meta md, of 7] md by (simp add: schema_version_def)
qed

text \<open>
  Opening a store that does not exist yet gives an empty one with the schema in place;
  opening an existing one keeps its events.
\<close>

theorem open_store_keeps_or_creates:
  assumes "sql_engine exec" and "open_store exec oenv path = Inr st"
  shows "store_ready st \<and> \<not> st_read_only st \<and>
    (\<exists>p. oe_abs oenv path = Inr p \<and>
      store_events um st = (case oe_file oenv p of None \<Rightarrow> [] | Some t \<Rightarrow> map (view um) (t_rows t)))"
  using sql_engine.open_store_result [OF assms]
  by (auto simp: store_ready_def store_events_def split: option.splits)

theorem open_store_keeps_or_creates_witness:
  "\<exists>st. open_store fragment_exec (sample_open_env\<lparr>oe_file := (\<lambda>p. None)\<rparr>) ''/x'' = Inr st \<and>
     store_ready st"
proof -
  let ?o = "open_store fragment_exec (sample_open_env\<lparr>oe_file := (\<lambda>p. None)\<rparr>) ''/x''"
  have "isl ?o = False" by code_simp
  then obtain st where st: "?o = Inr st" by (cases ?o) auto
  from open_store_keeps_or_creates [OF frag.sql_engine_axioms st] st show ?thesis by blast
qed

text \<open>
  \<open>Sockets\<close> lists the network events that have a local or remote address, newest first and at
  most the limit (200 if none is given), each as pid, command, local port, action and time.
\<close>

theorem sockets_list_addressed_network_events:
  assumes "sql_engine_total exec" and "store_ready st" and "store_inv json_unmarshal st"
  shows "store_sockets exec st lim =
    Inr (take (nat (if lim \<le> 0 then 200 else lim))
      (map socket_of (order_events False (filter has_socket (store_events json_unmarshal st)))))"
  using event_store_total.sockets_total [OF event_store_total_json [OF assms(1)] assms(2,3)]
  by (simp add: sockets_spec_def)

theorem sockets_list_addressed_network_events_witness:
  "store_sockets fragment_exec filled_store 10 =
    Inr (take 10 (map socket_of (order_events False (filter has_socket
      (store_events json_unmarshal filled_store)))))"
  using sockets_list_addressed_network_events
    [OF frag.sql_engine_total_axioms filled_store_inv(2,1), of 10] by simp

end
