(* ===== verification/StoreHistory.thy ===== *)
theory StoreHistory imports StoreProps begin

text \<open>
  The store over time: any sequence of writes and prunes, failed ones included, on a store that has
  been opened. The ids that \<open>ltm watch\<close> follows are never given twice.
\<close>

inductive store_step :: "engine \<Rightarrow> store \<Rightarrow> store \<Rightarrow> bool" for exec where
  written: "batch_ok evs \<Longrightarrow> insert_events exec json_marshal env st evs = (st', stats, e) \<Longrightarrow>
    store_step exec st st'"
| pruned: "prune_events exec st cutoff vacuum = (st', n, e) \<Longrightarrow> store_step exec st st'"

inductive_cases store_stepE: "store_step exec st st'"

text \<open>A write that changed the store has committed; a prune that changed it has deleted, even when the
  VACUUM after it failed.\<close>

lemma insert_changes:
  "insert_events exec marshal env st evs = (st', stats, e) \<Longrightarrow> st' \<noteq> st \<Longrightarrow> e = None \<and> evs \<noteq> []"
  by (auto simp: insert_events_def split: if_splits option.splits prod.splits)

lemma prune_changes:
  "prune_events exec st cutoff vacuum = (st', n, e) \<Longrightarrow> st' \<noteq> st \<Longrightarrow>
    \<exists>vac. prune_events exec st cutoff vac = (st', n, None)"
proof (cases e)
  case (Some err)
  assume "prune_events exec st cutoff vacuum = (st', n, e)" and "st' \<noteq> st"
  with Some have "prune_events exec st cutoff False = (st', n, None)"
    by (auto simp: prune_events_def split: if_splits option.splits sum.splits prod.splits)
  then show ?thesis by blast
qed blast

text \<open>What a store may have become: its old events thinned out, new ones with larger ids.\<close>

definition later_store :: "store \<Rightarrow> store \<Rightarrow> bool" where
  "later_store st st' \<longleftrightarrow> store_ready st' \<and> store_inv json_unmarshal st' \<and> store_seq st \<le> store_seq st' \<and>
     (\<exists>keep new. store_events json_unmarshal st' = filter keep (store_events json_unmarshal st) @ new \<and>
       (\<forall>ev \<in> set new. store_seq st < ev_id ev))"

lemma later_store_refl: "store_ready st \<Longrightarrow> store_inv json_unmarshal st \<Longrightarrow> later_store st st"
  by (auto simp: later_store_def intro: exI [of _ "\<lambda>ev. True"])

lemma later_store_trans:
  assumes "later_store a b" and "later_store b c"
  shows "later_store a c"
proof -
  obtain k1 n1 where b: "store_events json_unmarshal b = filter k1 (store_events json_unmarshal a) @ n1"
      "\<forall>ev \<in> set n1. store_seq a < ev_id ev" and ab: "store_seq a \<le> store_seq b"
    using assms(1) by (auto simp: later_store_def)
  obtain k2 n2 where c: "store_events json_unmarshal c = filter k2 (store_events json_unmarshal b) @ n2"
      "\<forall>ev \<in> set n2. store_seq b < ev_id ev"
    using assms(2) by (auto simp: later_store_def)
  have "store_events json_unmarshal c =
      filter (\<lambda>ev. k1 ev \<and> k2 ev) (store_events json_unmarshal a) @ filter k2 n1 @ n2"
    by (simp add: c(1) b(1) conj_commute)
  moreover have "\<forall>ev \<in> set (filter k2 n1 @ n2). store_seq a < ev_id ev" using b(2) c(2) ab by auto
  ultimately show ?thesis using assms ab unfolding later_store_def by force
qed

lemma store_step_later:
  assumes "sql_engine exec" and "store_step exec st st'" and "store_ready st" and "store_inv json_unmarshal st"
  shows "later_store st st'"
  using assms(2)
proof (rule store_stepE, goal_cases)
  case (1 evs env stats e)
  note written = this
  show ?thesis
  proof (cases "st' = st")
    case False
    with insert_changes [OF written(2)] written have run: "insert_events exec json_marshal env st evs = (st', stats, None)"
      and ne: "evs \<noteq> []" by simp_all
    note app = event_store.insert_events_appends [OF event_store_json [OF assms(1)] run ne assms(3,4) written(1)]
    show ?thesis
      unfolding later_store_def
      by (intro conjI exI [of _ "\<lambda>ev. True"] exI [of _ "stored_batch stored_metadata env 0 (store_seq st) evs"])
        (use app stored_batch_id_gt in auto)
  qed (simp add: later_store_refl assms(3,4))
next
  case (2 cutoff vacuum n e)
  note pruned = this
  show ?thesis
  proof (cases "st' = st")
    case False
    with prune_changes [OF pruned] obtain vac where "prune_events exec st cutoff vac = (st', n, None)" by blast
    note r = event_store.prune_result [OF event_store_json [OF assms(1)] this assms(4)]
    show ?thesis
      unfolding later_store_def
      by (intro conjI exI [of _ "\<lambda>ev. unix_nano cutoff \<le> ev_timestamp ev"] exI [of _ "[]"]) (use r in auto)
  qed (simp add: later_store_refl assms(3,4))
qed



end
