(* ===== verification/Channel.thy ===== *)
theory Channel imports Prelude begin

text \<open>
  Go's buffered channels, as the pipeline uses them: a queue with a capacity and a closed flag. A
  send on a closed channel and a second close panic; a receive from a closed channel gives what
  is still queued, then reports the close. \<open>Full\<close> and \<open>Empty\<close> are what a \<open>select\<close> with a
  default case sees, and where a plain operation blocks.
\<close>

record 'a chan =
  ch_buf :: "'a list"
  ch_cap :: nat
  ch_closed :: bool

datatype send_result = Sent | Full | SendPanic

datatype 'a recv_result = Got 'a | Closed | Empty

definition make_chan :: "nat \<Rightarrow> 'a chan" where
  "make_chan n = \<lparr>ch_buf = [], ch_cap = n, ch_closed = False\<rparr>"

definition chan_send :: "'a chan \<Rightarrow> 'a \<Rightarrow> send_result \<times> 'a chan" where
  "chan_send ch x =
     (if ch_closed ch then (SendPanic, ch)
      else if length (ch_buf ch) < ch_cap ch then (Sent, ch\<lparr>ch_buf := ch_buf ch @ [x]\<rparr>)
      else (Full, ch))"

definition chan_recv :: "'a chan \<Rightarrow> 'a recv_result \<times> 'a chan" where
  "chan_recv ch =
     (case ch_buf ch of
        x # xs \<Rightarrow> (Got x, ch\<lparr>ch_buf := xs\<rparr>)
      | [] \<Rightarrow> (if ch_closed ch then Closed else Empty, ch))"

definition chan_close :: "'a chan \<Rightarrow> 'a chan result" where
  "chan_close ch =
     (if ch_closed ch then Inl (Panic ''close of closed channel'')
      else Inr (ch\<lparr>ch_closed := True\<rparr>))"

lemma chan_recv_Got [simp]:
  "chan_recv (ch :: 'a chan) = (Got x, ch') \<longleftrightarrow>
     ch_buf ch = x # ch_buf ch' \<and> ch_cap ch' = ch_cap ch \<and> ch_closed ch' = ch_closed ch"
proof (cases "ch_buf ch")
  case (Cons y ys)
  then show ?thesis by (cases ch; cases ch') (auto simp: chan_recv_def)
qed (simp add: chan_recv_def)

lemma chan_recv_Closed [simp]:
  "chan_recv ch = (Closed, ch') \<longleftrightarrow> ch' = ch \<and> ch_buf ch = [] \<and> ch_closed ch"
  by (auto simp: chan_recv_def split: list.splits)

lemma chan_recv_Empty [simp]:
  "chan_recv ch = (Empty, ch') \<longleftrightarrow> ch' = ch \<and> ch_buf ch = [] \<and> \<not> ch_closed ch"
  by (auto simp: chan_recv_def split: list.splits)

lemma chan_send_Sent [simp]:
  "chan_send ch x = (Sent, ch') \<longleftrightarrow>
     \<not> ch_closed ch \<and> length (ch_buf ch) < ch_cap ch \<and> ch' = ch\<lparr>ch_buf := ch_buf ch @ [x]\<rparr>"
  by (auto simp: chan_send_def)

lemma chan_send_Full [simp]:
  "chan_send ch x = (Full, ch') \<longleftrightarrow>
     \<not> ch_closed ch \<and> length (ch_buf ch) \<ge> ch_cap ch \<and> ch' = ch"
  by (auto simp: chan_send_def)

lemma chan_send_Panic [simp]:
  "chan_send ch x = (SendPanic, ch') \<longleftrightarrow> ch_closed ch \<and> ch' = ch"
  by (auto simp: chan_send_def)

lemma chan_close_Inr [simp]:
  "chan_close ch = Inr ch' \<longleftrightarrow> \<not> ch_closed ch \<and> ch' = ch\<lparr>ch_closed := True\<rparr>"
  by (auto simp: chan_close_def)

end
