(* ===== verification/Batcher.thy ===== *)
theory Batcher imports Channel StoreReads begin

text \<open>
  The flush stage, \<open>internal/daemon/flush.go\<close>: an \<open>eventBatcher\<close> reads the ingest channel, cuts
  it into batches by size or by time, adds to the first event of a batch the drops counted since
  the last one, and inserts the batch. \<open>batcher_step\<close> has one rule for each case of its
  \<open>select\<close> loop. What the stage needs of the store is the locale \<open>event_sink\<close>, interpreted on
  \<open>InsertEvents\<close> at the end.
\<close>

section \<open>State and operations\<close>

text \<open>At the \<open>select\<close>, in \<open>drainReady\<close>, returned.\<close>

datatype flush_phase = FSelect | FDrain | FReturned "go_error option"

text \<open>\<open>b_taken\<close> records the events received so far; the code does not have it.\<close>

record batcher =
  b_batch_size :: int
  b_max_batch :: int
  b_batch :: "event list"
  b_last_dropped :: int
  b_phase :: flush_phase
  b_taken :: "event list"

definition new_batcher :: "int \<Rightarrow> int \<Rightarrow> batcher" where
  "new_batcher n m =
     \<lparr>b_batch_size = n, b_max_batch = m, b_batch = [], b_last_dropped = 0,
      b_phase = FSelect, b_taken = []\<rparr>"

definition append_event :: "batcher \<Rightarrow> event \<Rightarrow> batcher" where
  "append_event b ev = b\<lparr>b_batch := b_batch b @ [ev], b_taken := b_taken b @ [ev]\<rparr>"

text \<open>The insertion of a batch under the conditions \<open>env\<close>: the new store and the error.\<close>

type_synonym ('e, 's) sink = "'e \<Rightarrow> event list \<Rightarrow> 's \<Rightarrow> 's \<times> go_error option"

definition record_drops :: "int \<Rightarrow> batcher \<Rightarrow> batcher" where
  "record_drops cur b =
     (if cur > b_last_dropped b then
        b\<lparr>b_batch := (b_batch b)[0 := (b_batch b ! 0)\<lparr>ev_dropped_before :=
            wrap64 (ev_dropped_before (b_batch b ! 0) + wrap64 (cur - b_last_dropped b))\<rparr>],
          b_last_dropped := cur\<rparr>
      else b)"

text \<open>\<open>flush\<close>, with \<open>cur\<close> the collector's count of drops when it reads it.\<close>

definition flush ::
    "('e, 's) sink \<Rightarrow> 'e \<Rightarrow> int \<Rightarrow> batcher \<Rightarrow> 's \<Rightarrow> batcher \<times> 's \<times> go_error option" where
  "flush ins env cur b s =
     (if length (b_batch b) = 0 then (b, s, None)
      else
        let b1 = record_drops cur b
        in case ins env (b_batch b1) s of
             (s', Some e) \<Rightarrow> (b1, s', Some e)
           | (s', None) \<Rightarrow> (b1\<lparr>b_batch := []\<rparr>, s', None))"

text \<open>A flush inside the loop, which returns on an error and goes back to the \<open>select\<close>
  otherwise, and the flush of \<open>finish\<close>, which ends the loop.\<close>

definition flush_on :: "('e, 's) sink \<Rightarrow> 'e \<Rightarrow> int \<Rightarrow> batcher \<Rightarrow> 's \<Rightarrow> batcher \<times> 's" where
  "flush_on ins env cur b s =
     (case flush ins env cur b s of
        (b', s', Some e) \<Rightarrow> (b'\<lparr>b_phase := FReturned (Some e)\<rparr>, s')
      | (b', s', None) \<Rightarrow> (b'\<lparr>b_phase := FSelect\<rparr>, s'))"

definition finish_flush :: "('e, 's) sink \<Rightarrow> 'e \<Rightarrow> int \<Rightarrow> batcher \<Rightarrow> 's \<Rightarrow> batcher \<times> 's" where
  "finish_flush ins env cur b s =
     (case flush ins env cur b s of (b', s', err) \<Rightarrow> (b'\<lparr>b_phase := FReturned err\<rparr>, s'))"

text \<open>The branch for a received event: the size that triggers the draining.\<close>

definition take_event :: "batcher \<Rightarrow> event \<Rightarrow> batcher" where
  "take_event b ev =
     (let b' = append_event b ev
      in if int (length (b_batch b')) \<ge> b_batch_size b' then b'\<lparr>b_phase := FDrain\<rparr> else b')"

inductive batcher_step ::
    "('e, 's) sink \<Rightarrow> bool \<Rightarrow> int \<Rightarrow> batcher \<times> event chan \<times> 's \<Rightarrow> batcher \<times> event chan \<times> 's \<Rightarrow> bool"
    for ins cancelled cur where
  select_event: "b_phase b = FSelect \<Longrightarrow> chan_recv ch = (Got ev, ch') \<Longrightarrow>
    batcher_step ins cancelled cur (b, ch, s) (take_event b ev, ch', s)"
| select_closed: "b_phase b = FSelect \<Longrightarrow> chan_recv ch = (Closed, ch') \<Longrightarrow>
    finish_flush ins env cur b s = (b', s') \<Longrightarrow>
    batcher_step ins cancelled cur (b, ch, s) (b', ch', s')"
| tick: "b_phase b = FSelect \<Longrightarrow> \<not> cancelled \<Longrightarrow> flush_on ins env cur b s = (b', s') \<Longrightarrow>
    batcher_step ins cancelled cur (b, ch, s) (b', ch, s')"
| drain_event: "b_phase b = FDrain \<Longrightarrow> int (length (b_batch b)) < b_max_batch b \<Longrightarrow>
    chan_recv ch = (Got ev, ch') \<Longrightarrow>
    batcher_step ins cancelled cur (b, ch, s) (append_event b ev, ch', s)"
| drain_closed: "b_phase b = FDrain \<Longrightarrow> int (length (b_batch b)) < b_max_batch b \<Longrightarrow>
    chan_recv ch = (Closed, ch') \<Longrightarrow> finish_flush ins env cur b s = (b', s') \<Longrightarrow>
    batcher_step ins cancelled cur (b, ch, s) (b', ch', s')"
| drain_empty: "b_phase b = FDrain \<Longrightarrow> int (length (b_batch b)) < b_max_batch b \<Longrightarrow>
    chan_recv ch = (Empty, ch') \<Longrightarrow> flush_on ins env cur b s = (b', s') \<Longrightarrow>
    batcher_step ins cancelled cur (b, ch, s) (b', ch', s')"
| drain_full: "b_phase b = FDrain \<Longrightarrow> int (length (b_batch b)) \<ge> b_max_batch b \<Longrightarrow>
    flush_on ins env cur b s = (b', s') \<Longrightarrow>
    batcher_step ins cancelled cur (b, ch, s) (b', ch, s')"

section \<open>What is stored\<close>

definition same_event :: "event \<Rightarrow> event \<Rightarrow> bool" where
  "same_event a b \<longleftrightarrow> a\<lparr>ev_dropped_before := 0\<rparr> = b\<lparr>ev_dropped_before := 0\<rparr>"

text \<open>A record of an event: its stored form, the drops aside.\<close>

definition stored_as :: "event \<Rightarrow> event \<Rightarrow> bool" where
  "stored_as ev r \<longleftrightarrow> (\<exists>i now. same_event r (stored_event stored_metadata i (stamp now ev)))"

lemma same_event_refl [simp]: "same_event a a"
  by (simp add: same_event_def)

lemma same_event_drops [simp]: "same_event a (b\<lparr>ev_dropped_before := d\<rparr>) = same_event a b"
  by (simp add: same_event_def)

lemma same_event_update: "same_event a b \<Longrightarrow> f (a\<lparr>ev_dropped_before := 0\<rparr>) = f (b\<lparr>ev_dropped_before := 0\<rparr>)"
  by (simp add: same_event_def)

lemma same_event_fields:
  assumes "same_event a b"
  shows "ev_timestamp a = ev_timestamp b" "ev_metadata a = ev_metadata b" "ev_raw a = ev_raw b"
  using same_event_update [OF assms, of ev_timestamp] same_event_update [OF assms, of ev_metadata]
    same_event_update [OF assms, of ev_raw] by simp_all

lemma stored_same_event:
  assumes "same_event a b"
  shows "same_event (stored_event norm i (stamp now a)) (stored_event norm i (stamp now b))"
proof -
  have "(stored_event norm i (stamp now a))\<lparr>ev_dropped_before := 0\<rparr> =
      stored_event norm i (stamp now (a\<lparr>ev_dropped_before := 0\<rparr>))" for a
    by (simp add: stored_event_def stamp_def)
  with assms show ?thesis by (simp add: same_event_def)
qed

lemma stored_as_same: "same_event a b \<Longrightarrow> stored_as b r \<Longrightarrow> stored_as a r"
  unfolding stored_as_def by (metis stored_same_event same_event_def)

lemma batch_ok_same: "list_all2 same_event as bs \<Longrightarrow> batch_ok as = batch_ok bs"
  by (induction rule: list_all2_induct) (auto simp: batch_ok_def dest: same_event_fields)

section \<open>The sink\<close>

text \<open>
  A sink takes batches: a failed one leaves it as it was, a successful one appends a record of
  each event, in order, with the same drops in total.
\<close>

locale event_sink =
  fixes ins :: "('e, 's) sink"
    and good :: "'s \<Rightarrow> bool"
    and contents :: "'s \<Rightarrow> event list"
  assumes sink_error: "ins env evs s = (s', Some e) \<Longrightarrow> s' = s"
    and sink_ok: "ins env evs s = (s', None) \<Longrightarrow> good s \<Longrightarrow> batch_ok evs \<Longrightarrow>
      good s' \<and> (\<exists>recs. contents s' = contents s @ recs \<and> list_all2 stored_as evs recs \<and>
        batch_drops recs = batch_drops evs)"

text \<open>
  Where the events of a run are, for a sink that held \<open>c0\<close> at the start: those received are
  recorded, in order, except the batch in hand; and the drops of the records and of the batch
  are those the events came with and the collector's count at the last flush.
\<close>

definition records_inv :: "('s \<Rightarrow> event list) \<Rightarrow> event list \<Rightarrow> batcher \<Rightarrow> 's \<Rightarrow> bool" where
  "records_inv contents c0 b s \<longleftrightarrow>
     (\<exists>flushed pending recs. b_taken b = flushed @ pending \<and> list_all2 same_event pending (b_batch b) \<and>
        contents s = c0 @ recs \<and> list_all2 stored_as flushed recs)"

definition drops_inv :: "('s \<Rightarrow> event list) \<Rightarrow> event list \<Rightarrow> batcher \<Rightarrow> 's \<Rightarrow> bool" where
  "drops_inv contents c0 b s \<longleftrightarrow>
     wrap64 (batch_drops (contents s) + batch_drops (b_batch b)) =
       wrap64 (batch_drops c0 + batch_drops (b_taken b) + b_last_dropped b)"

definition batcher_inv ::
    "('s \<Rightarrow> bool) \<Rightarrow> ('s \<Rightarrow> event list) \<Rightarrow> event list \<Rightarrow> batcher \<Rightarrow> 's \<Rightarrow> bool" where
  "batcher_inv good contents c0 b s \<longleftrightarrow> good s \<and> records_inv contents c0 b s \<and>
     drops_inv contents c0 b s \<and> (b_phase b = FReturned None \<longrightarrow> b_batch b = [])"

lemma batcher_inv_new: "good s \<Longrightarrow> batcher_inv good contents (contents s) (new_batcher n m) s"
  by (simp add: batcher_inv_def records_inv_def drops_inv_def new_batcher_def batch_drops_def)

lemma records_inv_append:
  assumes "records_inv contents c0 b s"
  shows "records_inv contents c0 (append_event b ev) s"
proof -
  obtain flushed pending recs where "b_taken b = flushed @ pending"
    "list_all2 same_event pending (b_batch b)" "contents s = c0 @ recs" "list_all2 stored_as flushed recs"
    using assms by (auto simp: records_inv_def)
  then have "b_taken (append_event b ev) = flushed @ (pending @ [ev]) \<and>
      list_all2 same_event (pending @ [ev]) (b_batch (append_event b ev)) \<and>
      contents s = c0 @ recs \<and> list_all2 stored_as flushed recs"
    by (simp add: append_event_def list_all2_appendI)
  then show ?thesis unfolding records_inv_def by blast
qed

lemma drops_inv_append:
  "drops_inv contents c0 b s \<Longrightarrow> drops_inv contents c0 (append_event b ev) s"
  unfolding drops_inv_def append_event_def
  by (drule wrap64_add_cong [of _ _ "ev_dropped_before ev"]) (simp add: drop_acct algebra_simps)

lemma append_event_phase [simp]: "b_phase (append_event b ev) = b_phase b"
  by (simp add: append_event_def)

lemma phase_invs [simp]:
  "records_inv contents c0 (b\<lparr>b_phase := p\<rparr>) s = records_inv contents c0 b s"
  "drops_inv contents c0 (b\<lparr>b_phase := p\<rparr>) s = drops_inv contents c0 b s"
  by (simp_all add: records_inv_def drops_inv_def)

lemma batcher_inv_append:
  "batcher_inv good contents c0 b s \<Longrightarrow> b_phase b = FSelect \<or> b_phase b = FDrain \<Longrightarrow>
    batcher_inv good contents c0 (append_event b ev) s"
  using records_inv_append drops_inv_append
  by (auto simp: batcher_inv_def)

lemma batcher_inv_phase:
  "batcher_inv good contents c0 b s \<Longrightarrow> p \<noteq> FReturned None \<Longrightarrow>
    batcher_inv good contents c0 (b\<lparr>b_phase := p\<rparr>) s"
  by (simp add: batcher_inv_def)

lemma record_drops_same:
  "b_batch b \<noteq> [] \<Longrightarrow> list_all2 same_event (b_batch b) (b_batch (record_drops cur b))"
  by (cases "b_batch b") (auto simp: record_drops_def list_all2_same)

lemma same_event_trans: "same_event a b \<Longrightarrow> same_event b c \<Longrightarrow> same_event a c"
  by (simp add: same_event_def)

lemma record_drops_simps [simp]:
  "b_taken (record_drops cur b) = b_taken b" "b_phase (record_drops cur b) = b_phase b"
  by (simp_all add: record_drops_def)

lemma records_inv_record:
  assumes "records_inv contents c0 b s" and "b_batch b \<noteq> []"
  shows "records_inv contents c0 (record_drops cur b) s"
proof -
  have "list_all2 same_event pending (b_batch (record_drops cur b))"
    if "list_all2 same_event pending (b_batch b)" for pending
    using list_all2_trans [OF _ that record_drops_same [OF assms(2)]] same_event_trans by blast
  with assms(1) show ?thesis by (auto simp: records_inv_def)
qed

lemma drops_inv_record:
  assumes "drops_inv contents c0 b s" and "b_batch b \<noteq> []"
  shows "drops_inv contents c0 (record_drops cur b) s"
proof (cases "cur > b_last_dropped b")
  case True
  obtain ev evs where evs: "b_batch b = ev # evs" using assms(2) by (cases "b_batch b") auto
  let ?d = "cur - b_last_dropped b" and ?c = "batch_drops (contents s)"
  have "wrap64 (?c + (wrap64 (ev_dropped_before ev + wrap64 ?d) + batch_drops evs)) =
      wrap64 (wrap64 (ev_dropped_before ev + ?d) + (?c + batch_drops evs))"
    by (rule arg_cong [where f = wrap64]) simp
  also have "\<dots> = wrap64 (ev_dropped_before ev + ?d + (?c + batch_drops evs))"
    by (rule wrap64_add_left)
  also have "\<dots> = wrap64 (?c + batch_drops (b_batch b) + ?d)"
    by (rule arg_cong [where f = wrap64]) (simp add: evs drop_acct)
  also have "\<dots> = wrap64 (batch_drops c0 + batch_drops (b_taken b) + b_last_dropped b + ?d)"
    using assms(1) unfolding drops_inv_def by (rule wrap64_add_cong)
  finally show ?thesis
    using True by (simp add: drops_inv_def record_drops_def evs drop_acct add.assoc)
qed (use assms in \<open>simp add: record_drops_def\<close>)

context event_sink begin

lemma flush_inv:
  assumes "flush ins env cur b s = (b', s', err)" and "batcher_inv good contents c0 b s"
    and "b_phase b = FSelect \<or> b_phase b = FDrain" and "batch_ok (b_taken b)"
  shows "good s'" and "records_inv contents c0 b' s'" and "drops_inv contents c0 b' s'"
    and "err = None \<Longrightarrow> b_batch b' = []" and "b_taken b' = b_taken b"
    and "err \<noteq> None \<Longrightarrow> s' = s"
proof -
  have "good s' \<and> records_inv contents c0 b' s' \<and> drops_inv contents c0 b' s' \<and>
    (err = None \<longrightarrow> b_batch b' = []) \<and> b_taken b' = b_taken b \<and> (err \<noteq> None \<longrightarrow> s' = s)"
  proof (cases "b_batch b = []")
    case True
    with assms(1,2) show ?thesis by (auto simp: flush_def batcher_inv_def)
  next
    case False
    let ?b = "record_drops cur b"
    have inv: "good s" "records_inv contents c0 ?b s" "drops_inv contents c0 ?b s"
      using assms(2) records_inv_record [OF _ False] drops_inv_record [OF _ False]
      by (auto simp: batcher_inv_def)
    obtain s1 e where run: "ins env (b_batch ?b) s = (s1, e)" by fastforce
    show ?thesis
    proof (cases e)
      case (Some x)
      with run sink_error have "s1 = s" by blast
      with Some run inv False assms(1) show ?thesis by (auto simp: flush_def Let_def)
    next
      case None
      obtain flushed pending recs where parts: "b_taken b = flushed @ pending"
        "list_all2 same_event pending (b_batch ?b)" "contents s = c0 @ recs"
        "list_all2 stored_as flushed recs"
        using inv(2) by (auto simp: records_inv_def)
      have "batch_ok pending" using assms(4) parts(1) by (simp add: batch_ok_def)
      then have "batch_ok (b_batch ?b)" using batch_ok_same [OF parts(2)] by simp
      from sink_ok [OF run [unfolded None] inv(1) this] obtain new where s1: "good s1"
        "contents s1 = contents s @ new" "list_all2 stored_as (b_batch ?b) new"
        "batch_drops new = batch_drops (b_batch ?b)" by blast
      have "list_all2 stored_as pending new"
        using list_all2_trans [OF _ parts(2) s1(3)] stored_as_same by blast
      with parts s1 have "records_inv contents c0 (?b\<lparr>b_batch := []\<rparr>) s1"
        unfolding records_inv_def
        by (auto intro!: exI [of _ "flushed @ pending"] exI [of _ "recs @ new"] list_all2_appendI)
      moreover have "drops_inv contents c0 (?b\<lparr>b_batch := []\<rparr>) s1"
        using inv(3) s1 by (simp add: drops_inv_def drop_acct)
      ultimately show ?thesis
        using None run s1(1) False assms(1) by (auto simp: flush_def Let_def)
    qed
  qed
  then show "good s'" and "records_inv contents c0 b' s'" and "drops_inv contents c0 b' s'"
    and "err = None \<Longrightarrow> b_batch b' = []" and "b_taken b' = b_taken b" and "err \<noteq> None \<Longrightarrow> s' = s"
    by blast+
qed

lemma flush_on_inv:
  assumes "flush_on ins env cur b s = (b', s')" and "batcher_inv good contents c0 b s"
    and "b_phase b = FSelect \<or> b_phase b = FDrain" and "batch_ok (b_taken b)"
  shows "batcher_inv good contents c0 b' s'" and "b_taken b' = b_taken b"
proof -
  obtain b1 s1 e where f: "flush ins env cur b s = (b1, s1, e)" by (cases "flush ins env cur b s")
  note r = flush_inv [OF f assms(2-4)]
  show "batcher_inv good contents c0 b' s'" "b_taken b' = b_taken b"
    using assms(1) f r
    by (auto simp: flush_on_def batcher_inv_def split: option.splits)
qed

lemma finish_flush_inv:
  assumes "finish_flush ins env cur b s = (b', s')" and "batcher_inv good contents c0 b s"
    and "b_phase b = FSelect \<or> b_phase b = FDrain" and "batch_ok (b_taken b)"
  shows "batcher_inv good contents c0 b' s'" and "b_taken b' = b_taken b"
proof -
  obtain b1 s1 e where f: "flush ins env cur b s = (b1, s1, e)" by (cases "flush ins env cur b s")
  note r = flush_inv [OF f assms(2-4)]
  show "batcher_inv good contents c0 b' s'" "b_taken b' = b_taken b"
    using assms(1) f r
    by (auto simp: finish_flush_def batcher_inv_def)
qed

text \<open>Every step keeps the invariant and takes what it receives off the channel.\<close>

lemma batcher_step_inv:
  assumes "batcher_step ins cancelled cur (b, ch, s) (b', ch', s')"
    and "batcher_inv good contents c0 b s" and "batch_ok (b_taken b @ ch_buf ch)"
  shows "batcher_inv good contents c0 b' s'"
    and "b_taken b' @ ch_buf ch' = b_taken b @ ch_buf ch"
    and "ch_cap ch' = ch_cap ch" and "ch_closed ch' = ch_closed ch"
proof -
  have ok: "batch_ok (b_taken b)" using assms(3) by (simp add: batch_ok_def)
  have "batcher_inv good contents c0 b' s' \<and> b_taken b' @ ch_buf ch' = b_taken b @ ch_buf ch \<and>
    ch_cap ch' = ch_cap ch \<and> ch_closed ch' = ch_closed ch"
    using assms(1)
  proof (cases rule: batcher_step.cases)
    case (select_event ev)
    then have "batcher_inv good contents c0 (append_event b ev) s"
      using batcher_inv_append [OF assms(2)] by blast
    with select_event batcher_inv_phase [OF this, of FDrain] show ?thesis
      by (auto simp: take_event_def Let_def) (auto simp: append_event_def)
  next
    case (drain_event ev)
    with batcher_inv_append [OF assms(2)] show ?thesis by (auto simp: append_event_def)
  qed (use assms(2) ok flush_on_inv finish_flush_inv in \<open>auto\<close>)
  then show "batcher_inv good contents c0 b' s'"
    and "b_taken b' @ ch_buf ch' = b_taken b @ ch_buf ch"
    and "ch_cap ch' = ch_cap ch" and "ch_closed ch' = ch_closed ch" by blast+
qed

end

section \<open>The end of the loop\<close>

text \<open>The loop returns without an error only when the channel is closed and empty.\<close>

lemma flush_on_not_ok: "flush_on ins env cur b s = (b', s') \<Longrightarrow> b_phase b' \<noteq> FReturned None"
  by (auto simp: flush_on_def split: prod.splits option.splits)

lemma batcher_step_returned:
  assumes "batcher_step ins cancelled cur (b, ch, s) (b', ch', s')" and "b_phase b' = FReturned None"
  shows "ch_closed ch' \<and> ch_buf ch' = []"
  using assms
  by (cases rule: batcher_step.cases)
    (auto simp: take_event_def Let_def append_event_def dest: flush_on_not_ok split: if_splits)

lemma batcher_step_running:
  "batcher_step ins cancelled cur (b, ch, s) (b', ch', s') \<Longrightarrow> b_phase b = FSelect \<or> b_phase b = FDrain"
  by (cases rule: batcher_step.cases) auto

text \<open>Once the channel is closed the loop can always finish: it takes what is left and returns.\<close>

lemma batcher_can_return:
  assumes "ch_closed ch"
  shows "\<exists>b' ch' s' r. (batcher_step ins True cur)\<^sup>*\<^sup>* (b, ch, s) (b', ch', s') \<and> b_phase b' = FReturned r"
  using assms
proof (induction "length (ch_buf ch)" arbitrary: b ch s rule: less_induct)
  case less
  have closed: "\<exists>b' ch' s' r. (batcher_step ins True cur)\<^sup>*\<^sup>* (b, ch, s) (b', ch', s') \<and> b_phase b' = FReturned r"
    if "b_phase b = FSelect" for b s
  proof (cases "ch_buf ch")
    case Nil
    obtain b' s' where f: "finish_flush ins undefined cur b s = (b', s')" by fastforce
    have "chan_recv ch = (Closed, ch)" using Nil less.prems by simp
    from select_closed [OF that this f] have "batcher_step ins True cur (b, ch, s) (b', ch, s')" .
    moreover have "\<exists>r. b_phase b' = FReturned r"
      using f by (auto simp: finish_flush_def split: prod.splits)
    ultimately show ?thesis by (blast intro: converse_rtranclp_into_rtranclp)
  next
    case (Cons ev evs)
    let ?ch = "ch\<lparr>ch_buf := evs\<rparr>"
    have "chan_recv ch = (Got ev, ?ch)" using Cons by simp
    from select_event [OF that this] have st: "batcher_step ins True cur (b, ch, s) (take_event b ev, ?ch, s)" .
    from less.hyps [of ?ch "take_event b ev" s] Cons less.prems st show ?thesis
      by (auto intro: converse_rtranclp_into_rtranclp)
  qed
  show ?case
  proof (cases "b_phase b")
    case FSelect
    then show ?thesis by (rule closed)
  next
    case (FReturned r)
    then show ?thesis by blast
  next
    case drain: FDrain
    show ?thesis
    proof (cases "int (length (b_batch b)) < b_max_batch b")
      case False
      obtain b' s' where f: "flush_on ins undefined cur b s = (b', s')" by fastforce
      from drain_full [OF drain _ f] False have st: "batcher_step ins True cur (b, ch, s) (b', ch, s')" by simp
      have "b_phase b' = FSelect \<or> (\<exists>r. b_phase b' = FReturned r)"
        using f by (auto simp: flush_on_def split: prod.splits option.splits)
      with closed [of b' s'] st show ?thesis by (blast intro: converse_rtranclp_into_rtranclp)
    next
      case room: True
      show ?thesis
      proof (cases "ch_buf ch")
        case Nil
        obtain b' s' where f: "finish_flush ins undefined cur b s = (b', s')" by fastforce
        have "chan_recv ch = (Closed, ch)" using Nil less.prems by simp
        from drain_closed [OF drain room this f] have "batcher_step ins True cur (b, ch, s) (b', ch, s')" .
        moreover have "\<exists>r. b_phase b' = FReturned r"
          using f by (auto simp: finish_flush_def split: prod.splits)
        ultimately show ?thesis by (blast intro: converse_rtranclp_into_rtranclp)
      next
        case (Cons ev evs)
        let ?ch = "ch\<lparr>ch_buf := evs\<rparr>"
        have "chan_recv ch = (Got ev, ?ch)" using Cons by simp
        from drain_event [OF drain room this] have st: "batcher_step ins True cur (b, ch, s) (append_event b ev, ?ch, s)" .
        from less.hyps [of ?ch "append_event b ev" s] Cons less.prems st show ?thesis
          by (auto intro: converse_rtranclp_into_rtranclp)
      qed
    qed
  qed
qed

section \<open>The store as a sink\<close>

definition store_sink :: "engine \<Rightarrow> (tx_env, store) sink" where
  "store_sink exec env evs st =
     (case insert_events exec json_marshal env st evs of (st', stats, err) \<Rightarrow> (st', err))"

definition store_good :: "store \<Rightarrow> bool" where
  "store_good st \<longleftrightarrow> store_ready st \<and> store_inv json_unmarshal st"

lemma stored_event_stored_as: "stored_as ev (stored_event stored_metadata i (stamp now ev))"
  unfolding stored_as_def using same_event_refl by blast

lemma stored_batch_stored_as:
  "list_all2 stored_as evs (stored_batch stored_metadata env i n evs)"
  by (induction evs arbitrary: i n) (simp_all add: stored_event_stored_as)

lemma store_event_sink:
  assumes "sql_engine exec"
  shows "event_sink (store_sink exec) store_good (store_events json_unmarshal)"
proof (unfold_locales, goal_cases)
  case (1 env evs s s' e)
  then show ?case
    using event_store.insert_events_unchanged [OF event_store_json [OF assms]]
    by (auto simp: store_sink_def split: prod.splits)
next
  case (2 env evs s s')
  then obtain stats where run: "insert_events exec json_marshal env s evs = (s', stats, None)"
    by (auto simp: store_sink_def split: prod.splits)
  show ?case
  proof (cases "evs = []")
    case True
    with run 2(2) show ?thesis by (simp add: insert_events_def batch_drops_def)
  next
    case False
    note app = event_store.insert_events_appends
      [OF event_store_json [OF assms] run False _ _ 2(3)]
    show ?thesis
      using app 2(2) stored_batch_stored_as [of evs env 0 "store_seq s"]
      by (auto simp: store_good_def stored_batch_drops)
  qed
qed

interpretation store_sink: event_sink "store_sink fragment_exec" store_good "store_events json_unmarshal"
  by (rule store_event_sink [OF frag.sql_engine_axioms])

text \<open>Every SQL engine gives a sink, so what is proved of a service over a sink holds of the recorder.\<close>

sublocale sql_engine \<subseteq> sink: event_sink "store_sink exec" store_good "store_events json_unmarshal"
  by (rule store_event_sink [OF sql_engine_axioms])

end
