(* ===== verification/PathFilter.thy ===== *)
theory PathFilter imports GoStrings begin

text \<open>
  Path filtering, \<open>internal/collector/filter.go\<close>, over \<open>filepath.Clean\<close> of the standard library
  on Unix. A path is read as the list of its components between slashes; \<open>path_clean\<close> folds
  them as Go documents it (empty and \<open>.\<close> dropped, \<open>..\<close> removes a preceding component, and is
  dropped at the root). The section after the definitions relates the string comparison of
  \<open>shouldIgnorePath\<close> to components.
\<close>

section \<open>Cleaning paths\<close>

abbreviation (input) slash :: char where "slash \<equiv> CHR ''/''"

text \<open>The pieces between separators; one more piece than separators.\<close>

fun split_on :: "char \<Rightarrow> string \<Rightarrow> string list" where
  "split_on d [] = [[]]"
| "split_on d (c # s) =
     (if c = d then [] # split_on d s
      else (c # hd (split_on d s)) # tl (split_on d s))"

text \<open>The components kept so far, last one first.\<close>

definition clean_step :: "bool \<Rightarrow> string list \<Rightarrow> string \<Rightarrow> string list" where
  "clean_step rooted stack c =
     (if c = [] \<or> c = ''.'' then stack
      else if c = ''..'' then
        (if stack \<noteq> [] \<and> hd stack \<noteq> ''..'' then tl stack
         else if rooted then stack
         else c # stack)
      else c # stack)"

definition is_rooted :: "string \<Rightarrow> bool" where
  "is_rooted p \<longleftrightarrow> p \<noteq> [] \<and> hd p = slash"

definition path_comps :: "string \<Rightarrow> string list" where
  "path_comps p = rev (foldl (clean_step (is_rooted p)) [] (split_on slash p))"

definition path_clean :: "string \<Rightarrow> string" where
  "path_clean p =
     (let s = (if is_rooted p then [slash] else []) @ join [slash] (path_comps p)
      in if s = [] then ''.'' else s)"

section \<open>The rules\<close>

definition default_ignore_paths :: "string list" where
  "default_ignore_paths =
     [''/proc'', ''/sys'', ''/dev'', ''/var/cache/apt'', ''/var/cache/dnf'', ''/var/cache/pacman'']"

text \<open>The loop of \<open>normalizeIgnoreRules\<close>; \<open>seen\<close> is the set of the rules put out so far.\<close>

fun normalize_loop :: "string set \<Rightarrow> string list \<Rightarrow> string list" where
  "normalize_loop seen [] = []"
| "normalize_loop seen (p # ps) =
     (let q = trim_space p in
      if q = [] then normalize_loop seen ps
      else
        let r = path_clean q
        in if r \<in> seen then normalize_loop seen ps
           else r # normalize_loop (insert r seen) ps)"

definition normalize_ignore_rules :: "string list \<Rightarrow> string list" where
  "normalize_ignore_rules paths = normalize_loop {} paths"

definition new_ignore_rules :: "string list \<Rightarrow> string list" where
  "new_ignore_rules extra = normalize_ignore_rules (default_ignore_paths @ extra)"

fun rule_loop :: "string \<Rightarrow> string list \<Rightarrow> bool" where
  "rule_loop normalized [] = False"
| "rule_loop normalized (rule # rules) =
     (if normalized = rule \<or> prefix (rule @ [slash]) normalized then True
      else rule_loop normalized rules)"

definition should_ignore_path :: "string list \<Rightarrow> string \<Rightarrow> bool" where
  "should_ignore_path rules path = (if path = [] then False else rule_loop (path_clean path) rules)"

section \<open>Components\<close>

lemma split_on_nonempty [simp]: "split_on d s \<noteq> []"
  by (induction s) auto

lemma split_on_no_sep: "x \<in> set (split_on d s) \<Longrightarrow> d \<notin> set x"
proof (induction s arbitrary: x)
  case (Cons c s)
  have "hd (split_on d s) \<in> set (split_on d s)" by simp
  moreover have "y \<in> set (split_on d s)" if "y \<in> set (tl (split_on d s))" for y
    using that by (meson list.set_sel(2) split_on_nonempty)
  ultimately show ?case using Cons by (auto split: if_splits)
qed simp

lemma join_split_on: "join [d] (split_on d s) = s"
proof (induction s)
  case (Cons c s)
  obtain x xs where "split_on d s = x # xs" by (cases "split_on d s") auto
  with Cons show ?case by (cases xs) auto
qed simp

definition comp_ok :: "string \<Rightarrow> bool" where
  "comp_ok c \<longleftrightarrow> c \<noteq> [] \<and> slash \<notin> set c \<and> c \<noteq> ''.''"

lemma clean_fold_ok:
  assumes "\<forall>c \<in> set cs. slash \<notin> set c" and "\<forall>c \<in> set stack. comp_ok c"
  shows "\<forall>c \<in> set (foldl (clean_step rooted) stack cs). comp_ok c"
  using assms
proof (induction cs arbitrary: stack)
  case (Cons c cs)
  have "\<forall>c \<in> set (clean_step rooted stack c). comp_ok c"
    using Cons.prems by (cases stack) (auto simp: clean_step_def comp_ok_def)
  with Cons show ?case by simp
qed simp

lemma path_comps_ok: "c \<in> set (path_comps p) \<Longrightarrow> comp_ok c"
  using clean_fold_ok [of "split_on slash p" "[]"] split_on_no_sep by (auto simp: path_comps_def)

text \<open>At the root there is nothing above: no \<open>..\<close> is left in a rooted path.\<close>

lemma clean_fold_rooted:
  "''..'' \<notin> set stack \<Longrightarrow> ''..'' \<notin> set (foldl (clean_step True) stack cs)"
proof (induction cs arbitrary: stack)
  case (Cons c cs)
  have "''..'' \<notin> set (clean_step True stack c)"
    using Cons.prems by (cases stack) (auto simp: clean_step_def)
  with Cons show ?case by simp
qed simp

lemma path_comps_rooted: "is_rooted p \<Longrightarrow> ''..'' \<notin> set (path_comps p)"
  by (simp add: path_comps_def clean_fold_rooted)

lemma join_no_slash_split:
  fixes d :: char
  assumes "cs \<noteq> []" and "\<forall>c \<in> set cs. d \<notin> set c"
  shows "split_on d (join [d] cs) = cs"
  using assms
proof (induction cs)
  case (Cons c cs)
  have one: "split_on d (c @ r) = (c @ hd (split_on d r)) # tl (split_on d r)" if "d \<notin> set c" for c r
    using that by (induction c) auto
  show ?case
    using Cons one [of c "[]"] one [of c "d # join [d] cs"] by (auto simp: join_Cons)
qed simp

lemma join_inject:
  fixes d :: char
  assumes "\<forall>c \<in> set as. d \<notin> set c" and "\<forall>c \<in> set bs. d \<notin> set c" and "as \<noteq> []" and "bs \<noteq> []"
  shows "join [d] as = join [d] bs \<longleftrightarrow> as = bs"
  using join_no_slash_split [OF assms(3,1)] join_no_slash_split [OF assms(4,2)] by metis

lemma join_prefix:
  fixes d :: char
  assumes "\<forall>c \<in> set as. d \<notin> set c" and "\<forall>c \<in> set bs. d \<notin> set c" and "as \<noteq> []" and "bs \<noteq> []"
  shows "prefix (join [d] as @ [d]) (join [d] bs) \<longleftrightarrow> (\<exists>x xs. bs = as @ x # xs)"
proof
  assume "prefix (join [d] as @ [d]) (join [d] bs)"
  then obtain r where r: "join [d] bs = join [d] as @ [d] @ r" by (auto simp: prefix_def)
  also have "\<dots> = join [d] (as @ split_on d r)"
    using assms(3) by (simp add: join_append join_split_on)
  finally have "bs = as @ split_on d r"
    using assms split_on_no_sep [of _ d r] by (subst (asm) join_inject) auto
  then show "\<exists>x xs. bs = as @ x # xs" by (metis list.exhaust split_on_nonempty)
next
  assume "\<exists>x xs. bs = as @ x # xs"
  then show "prefix (join [d] as @ [d]) (join [d] bs)"
    using assms(3) by (auto simp: join_append)
qed

section \<open>Rules and components\<close>

lemma path_clean_rooted: "is_rooted p \<Longrightarrow> path_clean p = slash # join [slash] (path_comps p)"
  by (simp add: path_clean_def)

text \<open>A rooted rule other than the root covers the paths below its components.\<close>

lemma rule_matches_components:
  assumes "is_rooted p" and "is_rooted r" and "path_comps r \<noteq> []"
  shows "path_clean p = path_clean r \<or> prefix (path_clean r @ [slash]) (path_clean p) \<longleftrightarrow>
    prefix (path_comps r) (path_comps p)"
proof (cases "path_comps p = []")
  case True
  obtain c cs where r: "path_comps r = c # cs" using assms(3) by (cases "path_comps r") auto
  then have "c \<noteq> []" using path_comps_ok [of c r] by (simp add: comp_ok_def)
  with True r assms show ?thesis
    by (auto simp: path_clean_rooted join_Cons)
next
  case False
  have ok: "\<forall>c \<in> set (path_comps q). slash \<notin> set c" for q
    using path_comps_ok by (auto simp: comp_ok_def)
  have "prefix (path_comps r) (path_comps p) \<longleftrightarrow>
      path_comps p = path_comps r \<or> (\<exists>x xs. path_comps p = path_comps r @ x # xs)"
    by (auto simp: prefix_def) (metis list.exhaust)
  then show ?thesis
    using assms False join_inject [OF ok ok False assms(3)] join_prefix [OF ok ok assms(3) False]
    by (simp add: path_clean_rooted)
qed

lemma rule_loop_iff:
  "rule_loop n rules \<longleftrightarrow> (\<exists>r \<in> set rules. n = r \<or> prefix (r @ [slash]) n)"
  by (induction rules) auto

lemma set_normalize_loop:
  "set (normalize_loop seen ps) \<union> seen =
     path_clean ` (trim_space ` set ps - {[]}) \<union> seen"
proof (induction ps arbitrary: seen)
  case (Cons p ps)
  let ?r = "path_clean (trim_space p)"
  show ?case
  proof (cases "trim_space p = []")
    case False
    have "insert ?r (set (normalize_loop seen ps) \<union> seen) =
        set (normalize_loop seen (p # ps)) \<union> seen"
    proof (cases "?r \<in> seen")
      case new: False
      have "set (normalize_loop (insert ?r seen) ps) \<union> insert ?r seen =
          insert ?r (set (normalize_loop seen ps) \<union> seen)"
        unfolding Cons.IH by simp
      with new False show ?thesis by (auto simp: Let_def)
    qed (use False in \<open>auto simp: Let_def\<close>)
    then show ?thesis using Cons.IH [of seen] False by (auto simp: image_iff)
  qed (use Cons in \<open>auto simp: Let_def\<close>)
qed simp

lemma set_normalize_ignore_rules:
  "set (normalize_ignore_rules ps) = path_clean ` (trim_space ` set ps - {[]})"
  using set_normalize_loop [of "{}" ps] by (simp add: normalize_ignore_rules_def)

lemma distinct_normalize_loop:
  "distinct (normalize_loop seen ps) \<and> set (normalize_loop seen ps) \<inter> seen = {}"
  by (induction ps arbitrary: seen) (auto simp: Let_def)

text \<open>A rule that is the root itself covers nothing but the root: no cleaned path starts with two
  slashes.\<close>

lemma root_rule_matches_only_root:
  "should_ignore_path [''/''] p \<longleftrightarrow> p \<noteq> [] \<and> path_clean p = ''/''"
proof -
  have "\<not> prefix ''//'' (path_clean p)"
  proof (cases "is_rooted p")
    case True
    then show ?thesis
      using path_comps_ok [of "hd (path_comps p)" p]
      by (cases "path_comps p")
        (auto simp: path_clean_rooted join_Cons comp_ok_def prefix_Cons neq_Nil_conv)
  next
    case False
    then show ?thesis
      using path_comps_ok [of "hd (path_comps p)" p]
      by (cases "path_comps p")
        (auto simp: path_clean_def join_Cons comp_ok_def prefix_Cons neq_Nil_conv)
  qed
  then show ?thesis by (simp add: should_ignore_path_def)
qed

lemma rules_match_components:
  assumes "is_rooted p"
    and "\<forall>q \<in> trim_space ` set raw. q \<noteq> [] \<longrightarrow> is_rooted q \<and> path_comps q \<noteq> []"
  shows "should_ignore_path (normalize_ignore_rules raw) p \<longleftrightarrow>
    (\<exists>q \<in> trim_space ` set raw. q \<noteq> [] \<and> prefix (path_comps q) (path_comps p))"
proof -
  have "p \<noteq> []" using assms(1) by (auto simp: is_rooted_def)
  then have "should_ignore_path (normalize_ignore_rules raw) p \<longleftrightarrow>
      (\<exists>q \<in> trim_space ` set raw - {[]}.
        path_clean p = path_clean q \<or> prefix (path_clean q @ [slash]) (path_clean p))"
    by (simp add: should_ignore_path_def rule_loop_iff set_normalize_ignore_rules)
  also have "\<dots> \<longleftrightarrow> (\<exists>q \<in> trim_space ` set raw - {[]}. prefix (path_comps q) (path_comps p))"
    using assms rule_matches_components [OF assms(1)] by (intro bex_cong) auto
  finally show ?thesis by blast
qed

lemma should_ignore_set_cong:
  "set ps = set qs \<Longrightarrow>
    should_ignore_path (new_ignore_rules ps) p = should_ignore_path (new_ignore_rules qs) p"
  by (simp add: should_ignore_path_def rule_loop_iff new_ignore_rules_def set_normalize_ignore_rules)

lemma default_ignore_paths_trimmed: "map trim_space default_ignore_paths = default_ignore_paths"
  by code_simp

lemma default_ignore_paths_rooted:
  "\<forall>q \<in> set default_ignore_paths. is_rooted q \<and> path_comps q \<noteq> []"
  by code_simp

end
