(* ===== verification/Collector.thy ===== *)
theory Collector imports PathFilter Json Channel begin

text \<open>
  The collector, \<open>internal/collector/collector.go\<close>: a goroutine that runs the event source into
  the channel \<open>in\<close>, and the loop of \<open>Run\<close> that filters events and forwards them to the ingest
  channel without ever blocking, counting what it drops. \<open>collector_step\<close> has one rule for each
  thing either goroutine can do; a \<open>select\<close> with several ready cases is several rules. The
  event source is an interface: it sends any events (the keys of a Go map being distinct), then
  returns any error.
\<close>

section \<open>State\<close>

record coll_config =
  cc_ignore_paths :: "string list"
  cc_buffer_size :: int

text \<open>\<open>New\<close>: the buffer size in use and the rules.\<close>

definition buffer_size :: "coll_config \<Rightarrow> int" where
  "buffer_size cfg = (if cc_buffer_size cfg \<le> 0 then 1024 else cc_buffer_size cfg)"

text \<open>The source's goroutine: \<open>src.Run\<close>, \<open>close(in)\<close>, \<open>done <- err\<close>.\<close>

datatype src_phase = SrcRunning | SrcReturned "go_error option" | SrcClosed "go_error option" | SrcDone

text \<open>The loop: at the \<open>select\<close>, draining after cancellation, in \<open>finish\<close>, returned; a panic
  stops it.\<close>

datatype coll_phase = CSelect | CDrain | CFinish | CReturned "go_error option" | CPanicked

text \<open>
  \<open>col_sent\<close>, \<open>col_seen\<close> and \<open>col_forwarded\<close> record the history: the events the source sent, those
  the loop received, those it put into the ingest channel; \<open>col_result\<close> is what the source
  returned. The code does not have these four.
\<close>

record collector =
  col_rules :: "string list"
  col_in :: "event chan"
  col_src :: src_phase
  col_done :: "go_error option option"
  col_phase :: coll_phase
  col_dropped :: int
  col_sent :: "event list"
  col_seen :: "event list"
  col_forwarded :: "event list"
  col_result :: "go_error option option"

definition new_collector :: "coll_config \<Rightarrow> collector" where
  "new_collector cfg =
     \<lparr>col_rules = new_ignore_rules (cc_ignore_paths cfg),
      col_in = make_chan (nat (buffer_size cfg)), col_src = SrcRunning, col_done = None,
      col_phase = CSelect, col_dropped = 0, col_sent = [], col_seen = [], col_forwarded = [],
      col_result = None\<rparr>"

definition dropped_events :: "collector \<Rightarrow> int" where
  "dropped_events c = col_dropped c"

section \<open>Steps\<close>

definition ignored :: "collector \<Rightarrow> event \<Rightarrow> bool" where
  "ignored c ev \<longleftrightarrow>
     should_ignore_path (col_rules c) (ev_path ev) \<or> should_ignore_path (col_rules c) (ev_old_path ev)"

text \<open>\<open>forward\<close>, a non-blocking send.\<close>

definition forward :: "event \<Rightarrow> collector \<times> event chan \<Rightarrow> collector \<times> event chan" where
  "forward ev s =
     (case s of (c, out) \<Rightarrow>
        if ignored c ev then (c, out)
        else case chan_send out ev of
          (Sent, out') \<Rightarrow> (c\<lparr>col_forwarded := col_forwarded c @ [ev]\<rparr>, out')
        | (Full, out') \<Rightarrow> (c\<lparr>col_dropped := wrap64 (col_dropped c + 1)\<rparr>, out')
        | (SendPanic, out') \<Rightarrow> (c\<lparr>col_phase := CPanicked\<rparr>, out'))"

text \<open>The received event is recorded, then forwarded.\<close>

definition receive :: "event \<Rightarrow> event chan \<Rightarrow> collector \<times> event chan \<Rightarrow> collector \<times> event chan" where
  "receive ev in' s =
     (case s of (c, out) \<Rightarrow> forward ev (c\<lparr>col_in := in', col_seen := col_seen c @ [ev]\<rparr>, out))"

definition finish_error :: "go_error option \<Rightarrow> go_error option" where
  "finish_error err =
     (case err of
        None \<Rightarrow> None
      | Some e \<Rightarrow> if e \<noteq> Canceled then Some e else None)"

text \<open>The steps of the source's goroutine and of the loop; the flag says that the context is
  cancelled.\<close>

inductive collector_step ::
    "bool \<Rightarrow> collector \<times> event chan \<Rightarrow> collector \<times> event chan \<Rightarrow> bool" where
  src_send: "col_src c = SrcRunning \<Longrightarrow> go_map (ev_metadata ev) \<Longrightarrow>
    chan_send (col_in c) ev = (Sent, in') \<Longrightarrow>
    collector_step cancelled (c, out) (c\<lparr>col_in := in', col_sent := col_sent c @ [ev]\<rparr>, out)"
| src_return: "col_src c = SrcRunning \<Longrightarrow>
    collector_step cancelled (c, out) (c\<lparr>col_src := SrcReturned err, col_result := Some err\<rparr>, out)"
| src_close: "col_src c = SrcReturned err \<Longrightarrow> chan_close (col_in c) = Inr in' \<Longrightarrow>
    collector_step cancelled (c, out) (c\<lparr>col_src := SrcClosed err, col_in := in'\<rparr>, out)"
| src_done: "col_src c = SrcClosed err \<Longrightarrow>
    collector_step cancelled (c, out) (c\<lparr>col_src := SrcDone, col_done := Some err\<rparr>, out)"
| select_cancelled: "col_phase c = CSelect \<Longrightarrow> cancelled \<Longrightarrow>
    collector_step cancelled (c, out) (c\<lparr>col_phase := CDrain\<rparr>, out)"
| loop_receive: "col_phase c \<in> {CSelect, CDrain} \<Longrightarrow> chan_recv (col_in c) = (Got ev, in') \<Longrightarrow>
    collector_step cancelled (c, out) (receive ev in' (c, out))"
| loop_closed: "col_phase c \<in> {CSelect, CDrain} \<Longrightarrow> chan_recv (col_in c) = (Closed, in') \<Longrightarrow>
    collector_step cancelled (c, out) (c\<lparr>col_phase := CFinish\<rparr>, out)"
| finish: "col_phase c = CFinish \<Longrightarrow> col_done c = Some err \<Longrightarrow>
    collector_step cancelled (c, out)
      (c\<lparr>col_done := None, col_phase := CReturned (finish_error err)\<rparr>, out)"

section \<open>Invariant\<close>

text \<open>
  Where the events are: the ones sent are the ones received, in order, and those still in the
  buffer; what was received and not ignored was forwarded or counted. The source's result
  is where its goroutine has brought it. Only this goroutine closes \<open>in\<close>.
\<close>

definition kept :: "collector \<Rightarrow> event list" where
  "kept c = filter (\<lambda>ev. \<not> ignored c ev) (col_seen c)"

definition events_inv :: "collector \<Rightarrow> bool" where
  "events_inv c \<longleftrightarrow>
     col_sent c = col_seen c @ ch_buf (col_in c) \<and>
     (\<forall>ev \<in> set (col_sent c). go_map (ev_metadata ev)) \<and>
     subseq (col_forwarded c) (kept c) \<and>
     col_dropped c = wrap64 (int (length (kept c)) - int (length (col_forwarded c)))"

definition source_inv :: "collector \<Rightarrow> bool" where
  "source_inv c \<longleftrightarrow>
     (case col_src c of
        SrcRunning \<Rightarrow> col_result c = None \<and> col_done c = None \<and> \<not> ch_closed (col_in c)
      | SrcReturned e \<Rightarrow> col_result c = Some e \<and> col_done c = None \<and> \<not> ch_closed (col_in c)
      | SrcClosed e \<Rightarrow> col_result c = Some e \<and> col_done c = None \<and> ch_closed (col_in c)
      | SrcDone \<Rightarrow> ch_closed (col_in c) \<and> col_result c \<noteq> None \<and>
          (case col_done c of
             None \<Rightarrow> (\<exists>r. col_phase c = CReturned r)
           | Some e \<Rightarrow> col_result c = Some e))"

definition phase_inv :: "collector \<Rightarrow> bool" where
  "phase_inv c \<longleftrightarrow>
     (case col_phase c of
        CSelect \<Rightarrow> True
      | CDrain \<Rightarrow> True
      | CFinish \<Rightarrow> ch_closed (col_in c) \<and> ch_buf (col_in c) = []
      | CReturned r \<Rightarrow> ch_closed (col_in c) \<and> ch_buf (col_in c) = [] \<and> col_src c = SrcDone \<and>
          (\<exists>e. col_result c = Some e \<and> r = finish_error e)
      | CPanicked \<Rightarrow> False)"

definition collector_inv :: "collector \<Rightarrow> bool" where
  "collector_inv c \<longleftrightarrow> events_inv c \<and> source_inv c \<and> phase_inv c"

lemma collector_inv_new: "collector_inv (new_collector cfg)"
  by (simp add: collector_inv_def events_inv_def source_inv_def phase_inv_def new_collector_def
      make_chan_def kept_def wrap64_def)

text \<open>The last two conjuncts do not depend on the filter or the counter.\<close>

lemma forward_cases:
  assumes "forward ev (c, out) = (c', out')" and "\<not> ch_closed out"
  obtains (Ignored) "ignored c ev" "c' = c" "out' = out"
  | (Sent) "\<not> ignored c ev" "c' = c\<lparr>col_forwarded := col_forwarded c @ [ev]\<rparr>"
      "out' = out\<lparr>ch_buf := ch_buf out @ [ev]\<rparr>" "length (ch_buf out) < ch_cap out"
  | (Dropped) "\<not> ignored c ev" "c' = c\<lparr>col_dropped := wrap64 (col_dropped c + 1)\<rparr>" "out' = out"
  using assms by (auto simp: forward_def chan_send_def split: if_splits)

lemma receive_inv:
  assumes "collector_inv c" and "col_phase c \<in> {CSelect, CDrain}"
    and "chan_recv (col_in c) = (Got ev, in')" and "\<not> ch_closed out"
    and "receive ev in' (c, out) = (c', out')"
  shows "collector_inv c'"
proof -
  let ?c = "c\<lparr>col_in := in', col_seen := col_seen c @ [ev]\<rparr>"
  have fwd: "forward ev (?c, out) = (c', out')" using assms(5) by (simp add: receive_def)
  have ign: "ignored ?c = ignored c" by (auto simp: ignored_def fun_eq_iff)
  have maps: "\<forall>ev \<in> set (col_sent c). go_map (ev_metadata ev)"
    using assms(1) by (simp add: collector_inv_def events_inv_def)
  have base: "col_sent c = col_seen c @ ev # ch_buf in'" "subseq (col_forwarded c) (kept c)"
    "col_dropped c = wrap64 (int (length (kept c)) - int (length (col_forwarded c)))"
    "source_inv c" "phase_inv c" "ch_closed in' = ch_closed (col_in c)"
    using assms(1,3) by (auto simp: collector_inv_def events_inv_def)
  have src: "source_inv c''" if "col_src c'' = col_src c" "col_result c'' = col_result c"
    "col_done c'' = col_done c" "ch_closed (col_in c'') = ch_closed (col_in c)"
    "col_phase c'' = col_phase c" for c''
    using base(4) that by (cases "col_src c"; cases "col_done c") (simp_all add: source_inv_def)
  have ph: "phase_inv c''" if "col_phase c'' = col_phase c" for c''
    using assms(2) that by (auto simp: phase_inv_def)
  from fwd assms(4) show ?thesis
  proof (cases rule: forward_cases)
    case Ignored
    then have "kept c' = kept c" by (simp add: kept_def ign)
    with Ignored base src [of c'] ph [of c'] show ?thesis
      using maps by (simp add: collector_inv_def events_inv_def)
  next
    case Sent
    then have "kept c' = kept c @ [ev]" by (simp add: kept_def ign) (simp add: ignored_def)
    with Sent base src [of c'] ph [of c'] show ?thesis
      using maps by (simp add: collector_inv_def events_inv_def list_emb_append_mono)
  next
    case Dropped
    then have "kept c' = kept c @ [ev]" by (simp add: kept_def ign) (simp add: ignored_def)
    moreover have "subseq (col_forwarded c) (kept c @ [ev])"
      using base(2) by (metis append_Nil2 list_emb_append_mono list_emb_Nil)
    ultimately show ?thesis
      using Dropped base maps src [of c'] ph [of c']
      by (simp add: collector_inv_def events_inv_def algebra_simps)
  qed
qed


lemma collector_step_inv:
  assumes "collector_step cancelled (c, out) (c', out')" and "collector_inv c" and "\<not> ch_closed out"
  shows "collector_inv c'"
  using assms(1)
proof (cases rule: collector_step.cases)
  case (loop_receive ev in')
  then have "receive ev in' (c, out) = (c', out')" by simp
  from receive_inv [OF assms(2) _ _ assms(3) this] loop_receive show ?thesis by simp
next
  case (src_send ev in')
  then show ?thesis
    using assms(2)
    by (auto simp: collector_inv_def events_inv_def source_inv_def phase_inv_def kept_def
        ignored_def split: coll_phase.splits)
next
  case (finish err)
  then show ?thesis
    using assms(2)
    by (auto simp: collector_inv_def events_inv_def source_inv_def phase_inv_def kept_def
        ignored_def split: src_phase.splits option.splits)
qed (use assms(2) in \<open>auto simp: collector_inv_def events_inv_def source_inv_def phase_inv_def kept_def
        ignored_def split: coll_phase.splits src_phase.splits option.splits\<close>)

text \<open>What a step does to the ingest channel: nothing, or one event more, which is recorded.\<close>

lemma collector_step_out:
  assumes "collector_step cancelled (c, out) (c', out')" and "\<not> ch_closed out"
  shows "\<exists>evs. out' = out\<lparr>ch_buf := ch_buf out @ evs\<rparr> \<and> col_forwarded c' = col_forwarded c @ evs"
  using assms(1)
proof (cases rule: collector_step.cases)
  case (loop_receive ev in')
  then have "forward ev (c\<lparr>col_in := in', col_seen := col_seen c @ [ev]\<rparr>, out) = (c', out')"
    by (simp add: receive_def)
  from this assms(2) show ?thesis by (cases rule: forward_cases) auto
qed auto

lemma collector_step_rules:
  assumes "collector_step cancelled (c, out) (c', out')"
  shows "col_rules c' = col_rules c"
  using assms
  by (cases rule: collector_step.cases)
    (auto simp: receive_def forward_def chan_send_def split: if_splits)

lemma collector_returned_stuck:
  assumes "collector_step cancelled (c, out) (c', out')" and "col_phase c = CReturned r" and "collector_inv c"
  shows False
  using assms by (cases rule: collector_step.cases) (auto simp: collector_inv_def phase_inv_def)

section \<open>The end of a run\<close>

text \<open>When \<open>Run\<close> returns, everything the source sent has been received, and each event is
  ignored, forwarded or counted; the error is the source's, cancellation excepted.\<close>

lemma collector_returned:
  assumes "collector_inv c" and "col_phase c = CReturned r"
  shows "col_seen c = col_sent c" and "ch_buf (col_in c) = []"
    and "\<exists>e. col_result c = Some e \<and> r = finish_error e"
  using assms by (auto simp: collector_inv_def phase_inv_def events_inv_def)

text \<open>Reachable states of a collector whose ingest channel is drained by someone else.\<close>

inductive collector_reach :: "coll_config \<Rightarrow> collector \<times> event chan \<Rightarrow> bool" for cfg where
  start: "collector_reach cfg (new_collector cfg, make_chan n)"
| step: "collector_reach cfg (c, out) \<Longrightarrow> collector_step cancelled (c, out) (c', out') \<Longrightarrow>
    collector_reach cfg (c', out')"
| consume: "collector_reach cfg (c, out) \<Longrightarrow> chan_recv out = (Got ev, out') \<Longrightarrow>
    collector_reach cfg (c, out')"

lemma collector_reach_inv:
  "collector_reach cfg s \<Longrightarrow> collector_inv (fst s) \<and> \<not> ch_closed (snd s) \<and>
     col_rules (fst s) = new_ignore_rules (cc_ignore_paths cfg)"
proof (induction rule: collector_reach.induct)
  case (start n)
  then show ?case by (simp add: collector_inv_new) (simp add: make_chan_def new_collector_def)
next
  case (step c out cancelled c' out')
  then show ?case
    using collector_step_inv [OF step(2)] collector_step_out [OF step(2)]
      collector_step_rules [OF step(2)] by auto
next
  case (consume c out ev out')
  then show ?case by auto
qed

text \<open>Once the source has delivered its result, the loop can always reach its return, whatever
  the ingest channel does: it never waits for the consumer.\<close>

lemma collector_can_return:
  assumes "collector_inv c" and "col_src c = SrcDone" and "\<not> ch_closed out"
  shows "\<exists>c' out' r. (collector_step True)\<^sup>*\<^sup>* (c, out) (c', out') \<and> col_phase c' = CReturned r"
  using assms
proof (induction "length (ch_buf (col_in c))" arbitrary: c out)
  case 0
  then have empty: "ch_buf (col_in c) = []" "ch_closed (col_in c)"
    by (auto simp: collector_inv_def source_inv_def)
  have fin: "\<exists>c' out' r. (collector_step True)\<^sup>*\<^sup>* (c, out) (c', out') \<and> col_phase c' = CReturned r"
    if phase: "col_phase c = CFinish" and inv: "collector_inv c" and src: "col_src c = SrcDone" for c
  proof -
    obtain err where "col_done c = Some err"
      using phase inv src by (cases "col_done c") (auto simp: collector_inv_def source_inv_def)
    from finish [OF phase this, of True out] show ?thesis
      by (intro exI conjI) (rule r_into_rtranclp, assumption, simp)
  qed
  have loop: ?case if phase: "col_phase c \<in> {CSelect, CDrain}"
  proof -
    let ?c = "c\<lparr>col_phase := CFinish\<rparr>"
    have "chan_recv (col_in c) = (Closed, col_in c)" using empty by simp
    from loop_closed [OF phase this] have st: "collector_step True (c, out) (?c, out)" .
    have "collector_inv ?c" by (rule collector_step_inv [OF st 0(2,4)])
    with fin [of ?c] 0(3) have "\<exists>c' out' r.
        (collector_step True)\<^sup>*\<^sup>* (?c, out) (c', out') \<and> col_phase c' = CReturned r" by simp
    with st show ?thesis by (blast intro: converse_rtranclp_into_rtranclp)
  qed
  show ?case
  proof (cases "col_phase c")
    case CFinish
    with fin 0 show ?thesis by blast
  next
    case (CReturned r)
    then show ?thesis by blast
  next
    case CPanicked
    with 0 show ?thesis by (simp add: collector_inv_def phase_inv_def)
  qed (use loop in simp_all)
next
  case (Suc n)
  then obtain ev buf where buf: "ch_buf (col_in c) = ev # buf" "length buf = n"
    by (cases "ch_buf (col_in c)") auto
  let ?in' = "(col_in c)\<lparr>ch_buf := buf\<rparr>"
  have got: "chan_recv (col_in c) = (Got ev, ?in')" using buf by simp
  have phase: "col_phase c \<in> {CSelect, CDrain}"
    using Suc.prems(1) buf by (cases "col_phase c") (auto simp: collector_inv_def phase_inv_def)
  obtain c1 out1 where r: "receive ev ?in' (c, out) = (c1, out1)" by fastforce
  with loop_receive [OF phase got] have st: "collector_step True (c, out) (c1, out1)" by metis
  have "col_in c1 = ?in'" "col_src c1 = col_src c"
    using r by (auto simp: receive_def forward_def chan_send_def split: if_splits)
  moreover have "collector_inv c1" by (rule collector_step_inv [OF st Suc.prems(1,3)])
  moreover have "\<not> ch_closed out1" using collector_step_out [OF st Suc.prems(3)] Suc.prems(3) by auto
  ultimately obtain c' out' r where "(collector_step True)\<^sup>*\<^sup>* (c1, out1) (c', out')" "col_phase c' = CReturned r"
    using Suc.hyps(1) [of c1 out1] Suc.prems(2) buf by auto
  with st show ?case by (blast intro: converse_rtranclp_into_rtranclp)
qed

end
