(* ===== verification/Service.thy ===== *)
theory Service imports Batcher Collector begin

text \<open>
  The recorder's pipeline, \<open>runWithSource\<close> of \<open>internal/daemon/service.go\<close>: the collector feeds
  the ingest channel, the flush stage empties it into the store, and the main goroutine waits for
  the first of them to stop or for cancellation, then shuts both down in order. \<open>service_step\<close>
  interleaves the steps of the three goroutines. The result channels \<open>colErr\<close> and \<open>flushErr\<close> have
  room for the one value sent to them, so a result is there when its goroutine has returned.
\<close>

section \<open>Configuration\<close>

record service_config =
  sc_ignore_paths :: "string list"
  sc_batch_size :: int
  sc_flush_period :: int

definition default_batch_size :: int where "default_batch_size = 4096"

definition default_max_flush_batch_size :: int where "default_max_flush_batch_size = 16384"

definition default_ingest_buffer_size :: nat where "default_ingest_buffer_size = 65536"

definition default_source_buffer_size :: int where "default_source_buffer_size = 65536"

text \<open>\<open>NewService\<close>.\<close>

definition new_service_config :: "service_config \<Rightarrow> service_config" where
  "new_service_config cfg =
     (let cfg1 = (if sc_batch_size cfg \<le> 0 then cfg\<lparr>sc_batch_size := default_batch_size\<rparr> else cfg)
      in if sc_flush_period cfg1 \<le> 0 then cfg1\<lparr>sc_flush_period := 10 ^ 9\<rparr> else cfg1)"

section \<open>State\<close>

text \<open>The main goroutine: at the first \<open>select\<close>, waiting for the collector, about to close the
  ingest channel, waiting for the flush stage, returned.\<close>

datatype main_phase = MSelect | MJoinCol | MClose | MJoinFlush | MReturned | MPanicked

record 's service =
  sv_cancelled :: bool
  sv_col :: collector
  sv_ingest :: "event chan"
  sv_flush :: batcher
  sv_store :: 's
  sv_main :: main_phase
  sv_err :: "go_error option"
  sv_col_done :: bool
  sv_flush_done :: bool

definition start_service :: "service_config \<Rightarrow> 's \<Rightarrow> 's service" where
  "start_service cfg0 s =
     (let cfg = new_service_config cfg0 in
      \<lparr>sv_cancelled = False,
       sv_col = new_collector \<lparr>cc_ignore_paths = sc_ignore_paths cfg,
         cc_buffer_size = default_source_buffer_size\<rparr>,
       sv_ingest = make_chan default_ingest_buffer_size,
       sv_flush = new_batcher (sc_batch_size cfg) default_max_flush_batch_size,
       sv_store = s, sv_main = MSelect, sv_err = None, sv_col_done = False,
       sv_flush_done = False\<rparr>)"

section \<open>Steps\<close>

text \<open>\<open>if err != nil && runErr == nil\<close>: the first error is kept.\<close>

definition keep_first :: "go_error option \<Rightarrow> go_error option \<Rightarrow> go_error option" where
  "keep_first run_err err = (if err \<noteq> None \<and> run_err = None then err else run_err)"

inductive service_step :: "('e, 's) sink \<Rightarrow> 's service \<Rightarrow> 's service \<Rightarrow> bool" for ins where
  parent_cancels: "service_step ins v (v\<lparr>sv_cancelled := True\<rparr>)"
| collector: "collector_step (sv_cancelled v) (sv_col v, sv_ingest v) (c', ch') \<Longrightarrow>
    service_step ins v (v\<lparr>sv_col := c', sv_ingest := ch'\<rparr>)"
| flush: "batcher_step ins (sv_cancelled v) (dropped_events (sv_col v))
      (sv_flush v, sv_ingest v, sv_store v) (b', ch', s') \<Longrightarrow>
    service_step ins v (v\<lparr>sv_flush := b', sv_ingest := ch', sv_store := s'\<rparr>)"
| main_cancelled: "sv_main v = MSelect \<Longrightarrow> sv_cancelled v \<Longrightarrow>
    service_step ins v (v\<lparr>sv_main := MJoinCol\<rparr>)"
| main_collector: "sv_main v = MSelect \<Longrightarrow> col_phase (sv_col v) = CReturned r \<Longrightarrow>
    service_step ins v
      (v\<lparr>sv_err := r, sv_col_done := True, sv_cancelled := True, sv_main := MJoinCol\<rparr>)"
| main_flush: "sv_main v = MSelect \<Longrightarrow> b_phase (sv_flush v) = FReturned r \<Longrightarrow>
    service_step ins v
      (v\<lparr>sv_err := r, sv_flush_done := True, sv_cancelled := True, sv_main := MJoinCol\<rparr>)"
| skip_collector: "sv_main v = MJoinCol \<Longrightarrow> sv_col_done v \<Longrightarrow>
    service_step ins v (v\<lparr>sv_main := MClose\<rparr>)"
| join_collector: "sv_main v = MJoinCol \<Longrightarrow> \<not> sv_col_done v \<Longrightarrow>
    col_phase (sv_col v) = CReturned r \<Longrightarrow>
    service_step ins v (v\<lparr>sv_err := keep_first (sv_err v) r, sv_main := MClose\<rparr>)"
| close_ingest: "sv_main v = MClose \<Longrightarrow> chan_close (sv_ingest v) = Inr ch' \<Longrightarrow>
    service_step ins v (v\<lparr>sv_ingest := ch', sv_main := MJoinFlush\<rparr>)"
| close_panics: "sv_main v = MClose \<Longrightarrow> chan_close (sv_ingest v) = Inl e \<Longrightarrow>
    service_step ins v (v\<lparr>sv_main := MPanicked\<rparr>)"
| skip_flush: "sv_main v = MJoinFlush \<Longrightarrow> sv_flush_done v \<Longrightarrow>
    service_step ins v (v\<lparr>sv_main := MReturned\<rparr>)"
| join_flush: "sv_main v = MJoinFlush \<Longrightarrow> \<not> sv_flush_done v \<Longrightarrow>
    b_phase (sv_flush v) = FReturned r \<Longrightarrow>
    service_step ins v (v\<lparr>sv_err := keep_first (sv_err v) r, sv_main := MReturned\<rparr>)"

inductive service_reach :: "('e, 's) sink \<Rightarrow> service_config \<Rightarrow> 's \<Rightarrow> 's service \<Rightarrow> bool"
    for ins cfg s0 where
  started: "service_reach ins cfg s0 (start_service cfg s0)"
| stepped: "service_reach ins cfg s0 v \<Longrightarrow> service_step ins v v' \<Longrightarrow> service_reach ins cfg s0 v'"

section \<open>Invariant\<close>

text \<open>The two stages meet in the ingest channel: what the collector forwarded is what the flush
  stage has taken and what is still queued.\<close>

definition stages_inv ::
    "('s \<Rightarrow> bool) \<Rightarrow> ('s \<Rightarrow> event list) \<Rightarrow> event list \<Rightarrow> 's service \<Rightarrow> bool" where
  "stages_inv good contents c0 v \<longleftrightarrow>
     collector_inv (sv_col v) \<and>
     batcher_inv good contents c0 (sv_flush v) (sv_store v) \<and>
     col_forwarded (sv_col v) = b_taken (sv_flush v) @ ch_buf (sv_ingest v) \<and>
     (b_phase (sv_flush v) = FReturned None \<longrightarrow> ch_closed (sv_ingest v) \<and> ch_buf (sv_ingest v) = [])"

text \<open>The order of the shutdown: the channel is closed after the collector returned, and only
  then does the main goroutine wait for the flush stage.\<close>

definition shutdown_inv :: "'s service \<Rightarrow> bool" where
  "shutdown_inv v \<longleftrightarrow>
     (case sv_main v of
        MSelect \<Rightarrow> \<not> ch_closed (sv_ingest v) \<and> \<not> sv_col_done v \<and> \<not> sv_flush_done v \<and> sv_err v = None
      | MJoinCol \<Rightarrow> \<not> ch_closed (sv_ingest v) \<and>
          (sv_col_done v \<longrightarrow> (\<exists>r. col_phase (sv_col v) = CReturned r \<and> (sv_err v = None \<longrightarrow> r = None)))
      | MClose \<Rightarrow> \<not> ch_closed (sv_ingest v) \<and>
          (\<exists>r. col_phase (sv_col v) = CReturned r \<and> (sv_err v = None \<longrightarrow> r = None))
      | MJoinFlush \<Rightarrow> ch_closed (sv_ingest v) \<and>
          (\<exists>r. col_phase (sv_col v) = CReturned r \<and> (sv_err v = None \<longrightarrow> r = None))
      | MReturned \<Rightarrow> ch_closed (sv_ingest v) \<and>
          (\<exists>r. col_phase (sv_col v) = CReturned r \<and> (sv_err v = None \<longrightarrow> r = None)) \<and>
          (\<exists>r. b_phase (sv_flush v) = FReturned r \<and> (sv_err v = None \<longrightarrow> r = None))
      | MPanicked \<Rightarrow> False) \<and>
     (sv_flush_done v \<longrightarrow> (\<exists>r. b_phase (sv_flush v) = FReturned r \<and> (sv_err v = None \<longrightarrow> r = None)))"

lemma stages_inv_start: "good s \<Longrightarrow> stages_inv good contents (contents s) (start_service cfg s)"
  by (simp add: stages_inv_def start_service_def Let_def collector_inv_new batcher_inv_new)
    (simp add: new_collector_def new_batcher_def make_chan_def)

lemma shutdown_inv_start: "shutdown_inv (start_service cfg s)"
  by (simp add: shutdown_inv_def start_service_def Let_def make_chan_def)

lemma forwarded_batch_ok:
  assumes "collector_inv c"
  shows "batch_ok (col_forwarded c)"
proof -
  have "set (col_forwarded c) \<subseteq> set (col_sent c)"
    using assms by (auto simp: collector_inv_def events_inv_def kept_def dest: list_emb_set)
  then show ?thesis using assms by (auto simp: batch_ok_def collector_inv_def events_inv_def)
qed

context event_sink begin

lemma stages_inv_step:
  assumes "service_step ins v v'" and "stages_inv good contents c0 v" and "shutdown_inv v"
  shows "stages_inv good contents c0 v'"
  using assms(1)
proof (cases rule: service_step.cases)
  case (collector c' ch')
  have running: "\<nexists>r. col_phase (sv_col v) = CReturned r"
    using collector_returned_stuck [OF collector(2)] assms(2) by (auto simp: stages_inv_def)
  then have open_ch: "\<not> ch_closed (sv_ingest v)"
    using assms(3) by (auto simp: shutdown_inv_def split: main_phase.splits)
  have "collector_inv c'"
    using collector_step_inv [OF collector(2) _ open_ch] assms(2) by (simp add: stages_inv_def)
  with collector_step_out [OF collector(2) open_ch] assms(2) open_ch collector(1) show ?thesis
    by (auto simp: stages_inv_def)
next
  case (flush b' ch' s')
  have ok: "batch_ok (b_taken (sv_flush v) @ ch_buf (sv_ingest v))"
    using assms(2) forwarded_batch_ok [of "sv_col v"] by (simp add: stages_inv_def)
  have inv: "batcher_inv good contents c0 (sv_flush v) (sv_store v)"
    using assms(2) by (simp add: stages_inv_def)
  show ?thesis
    using batcher_step_inv [OF flush(2) inv ok] batcher_step_returned [OF flush(2)] assms(2) flush(1)
    by (simp add: stages_inv_def)
next
  case (close_ingest ch')
  then show ?thesis using assms(2) by (auto simp: stages_inv_def)
qed (use assms(2) in \<open>simp_all add: stages_inv_def\<close>)

lemma shutdown_inv_step:
  assumes "service_step ins v v'" and "stages_inv good contents c0 v" and "shutdown_inv v"
  shows "shutdown_inv v'"
  using assms(1)
proof (cases rule: service_step.cases)
  case (collector c' ch')
  have running: "\<nexists>r. col_phase (sv_col v) = CReturned r"
    using collector_returned_stuck [OF collector(2)] assms(2) by (auto simp: stages_inv_def)
  then have open_ch: "\<not> ch_closed (sv_ingest v)"
    using assms(3) by (auto simp: shutdown_inv_def split: main_phase.splits)
  with collector_step_out [OF collector(2) open_ch] running assms(3) collector(1) show ?thesis
    by (auto simp: shutdown_inv_def split: main_phase.splits)
next
  case (flush b' ch' s')
  have ok: "batch_ok (b_taken (sv_flush v) @ ch_buf (sv_ingest v))"
    using assms(2) forwarded_batch_ok [of "sv_col v"] by (simp add: stages_inv_def)
  have inv: "batcher_inv good contents c0 (sv_flush v) (sv_store v)"
    using assms(2) by (simp add: stages_inv_def)
  show ?thesis
    using batcher_step_inv [OF flush(2) inv ok] batcher_step_running [OF flush(2)] assms(3) flush(1)
    by (auto simp: shutdown_inv_def split: main_phase.splits)
qed (use assms(3) in \<open>auto simp: shutdown_inv_def keep_first_def chan_close_def
      split: main_phase.splits if_splits\<close>)

lemma service_reach_inv:
  assumes "service_reach ins cfg s0 v" and "good s0"
  shows "stages_inv good contents (contents s0) v \<and> shutdown_inv v"
  using assms(1)
proof (induction rule: service_reach.induct)
  case started
  then show ?case using stages_inv_start [of good s0 contents cfg, OF assms(2)] shutdown_inv_start by auto
next
  case (stepped v v')
  then show ?case using stages_inv_step shutdown_inv_step by blast
qed

text \<open>Steps of one stage are steps of the service; cancellation stays.\<close>

lemma collector_steps_lift:
  assumes "(collector_step True)\<^sup>*\<^sup>* (sv_col v, sv_ingest v) (c', ch')" and "sv_cancelled v"
  shows "(service_step ins)\<^sup>*\<^sup>* v (v\<lparr>sv_col := c', sv_ingest := ch'\<rparr>)"
  using assms(1)
proof (induction "(c', ch')" arbitrary: c' ch' rule: rtranclp_induct)
  case (step s)
  obtain c ch where s: "s = (c, ch)" by fastforce
  let ?v = "v\<lparr>sv_col := c, sv_ingest := ch\<rparr>"
  have "service_step ins ?v (?v\<lparr>sv_col := c', sv_ingest := ch'\<rparr>)"
    using step(2) assms(2) s by (intro collector) simp
  with step(3) [OF s] show ?case by simp
qed simp

lemma batcher_steps_lift:
  assumes "(batcher_step ins True (dropped_events (sv_col v)))\<^sup>*\<^sup>*
      (sv_flush v, sv_ingest v, sv_store v) (b', ch', s')" and "sv_cancelled v"
  shows "(service_step ins)\<^sup>*\<^sup>* v (v\<lparr>sv_flush := b', sv_ingest := ch', sv_store := s'\<rparr>)"
  using assms(1)
proof (induction "(b', ch', s')" arbitrary: b' ch' s' rule: rtranclp_induct)
  case (step x)
  obtain b ch s where x: "x = (b, ch, s)" by (cases x)
  let ?v = "v\<lparr>sv_flush := b, sv_ingest := ch, sv_store := s\<rparr>"
  have "service_step ins ?v (?v\<lparr>sv_flush := b', sv_ingest := ch', sv_store := s'\<rparr>)"
    using step(2) assms(2) x by (intro flush) simp
  with step(3) [OF x] show ?case by simp
qed simp

lemma service_steps_inv:
  assumes "(service_step ins)\<^sup>*\<^sup>* v v'" and "stages_inv good contents c0 v" and "shutdown_inv v"
  shows "stages_inv good contents c0 v' \<and> shutdown_inv v'"
  using assms by (induction rule: rtranclp_induct) (auto intro: stages_inv_step shutdown_inv_step)

text \<open>The shutdown cannot get stuck: the flush stage finishes once the channel is closed, so from
  the close on, and then from any point at which the collector has returned, the service can
  return.\<close>

lemma service_finishes_closed:
  assumes "stages_inv good contents c0 v" and "shutdown_inv v" and "sv_cancelled v"
    and "sv_main v = MJoinFlush"
  shows "\<exists>v'. (service_step ins)\<^sup>*\<^sup>* v v' \<and> sv_main v' = MReturned"
proof -
  have "ch_closed (sv_ingest v)" using assms(2,4) by (simp add: shutdown_inv_def)
  from batcher_can_return [OF this, of ins "dropped_events (sv_col v)" "sv_flush v" "sv_store v"]
  obtain b' ch' s' r where run: "(batcher_step ins True (dropped_events (sv_col v)))\<^sup>*\<^sup>*
      (sv_flush v, sv_ingest v, sv_store v) (b', ch', s')" and r: "b_phase b' = FReturned r" by blast
  let ?v = "v\<lparr>sv_flush := b', sv_ingest := ch', sv_store := s'\<rparr>"
  have "(service_step ins)\<^sup>*\<^sup>* v ?v" by (rule batcher_steps_lift [OF run assms(3)])
  moreover have "\<exists>v'. service_step ins ?v v' \<and> sv_main v' = MReturned"
  proof (cases "sv_flush_done v")
    case True
    from skip_flush [of ?v] True assms(4) show ?thesis by (intro exI conjI) (assumption | simp)+
  next
    case False
    from join_flush [of ?v r] False r assms(4) show ?thesis by (intro exI conjI) (assumption | simp)+
  qed
  ultimately show ?thesis by (meson rtranclp.rtrancl_into_rtrancl)
qed

lemma service_can_return:
  assumes "stages_inv good contents c0 v" and "shutdown_inv v" and "col_src (sv_col v) = SrcDone"
  shows "\<exists>v'. (service_step ins)\<^sup>*\<^sup>* v v' \<and> sv_main v' = MReturned"
proof -
  let ?goal = "\<lambda>v. \<exists>v'. (service_step ins)\<^sup>*\<^sup>* v v' \<and> sv_main v' = MReturned"
  have step: "?goal v" if "service_step ins v w" "?goal w" for v w
    using that by (meson converse_rtranclp_into_rtranclp)
  have close: "?goal v" if "stages_inv good contents c0 v" "shutdown_inv v" "sv_cancelled v" "sv_main v = MClose" for v
  proof -
    have "chan_close (sv_ingest v) = Inr ((sv_ingest v)\<lparr>ch_closed := True\<rparr>)"
      using that by (simp add: shutdown_inv_def)
    note st = close_ingest [OF that(4) this, of ins]
    show ?thesis
      by (rule step [OF st], rule service_finishes_closed [OF stages_inv_step [OF st that(1,2)]
            shutdown_inv_step [OF st that(1,2)]]) (simp_all add: that(3))
  qed
  have join: "?goal v" if v: "stages_inv good contents c0 v" "shutdown_inv v" "sv_cancelled v"
    "sv_main v = MJoinCol" "col_src (sv_col v) = SrcDone" for v
  proof (cases "sv_col_done v")
    case True
    note st = skip_collector [OF v(4) True, of ins]
    show ?thesis
      by (rule step [OF st], rule close [OF stages_inv_step [OF st v(1,2)] shutdown_inv_step [OF st v(1,2)]])
        (simp_all add: v(3))
  next
    case False
    have "\<not> ch_closed (sv_ingest v)" using v(2,4) by (simp add: shutdown_inv_def)
    from collector_can_return [OF _ v(5) this] v(1) obtain c' ch' r where
      run: "(collector_step True)\<^sup>*\<^sup>* (sv_col v, sv_ingest v) (c', ch')" and r: "col_phase c' = CReturned r"
      by (auto simp: stages_inv_def)
    let ?v = "v\<lparr>sv_col := c', sv_ingest := ch'\<rparr>"
    have lift: "(service_step ins)\<^sup>*\<^sup>* v ?v" by (rule collector_steps_lift [OF run v(3)])
    have inv: "stages_inv good contents c0 ?v" "shutdown_inv ?v"
      using service_steps_inv [OF lift v(1,2)] by auto
    have st: "service_step ins ?v (?v\<lparr>sv_err := keep_first (sv_err ?v) r, sv_main := MClose\<rparr>)"
      using v(4) False r by (intro join_collector) simp_all
    have "?goal ?v"
      by (rule step [OF st], rule close [OF stages_inv_step [OF st inv] shutdown_inv_step [OF st inv]])
        (simp_all add: v(3))
    with lift show ?thesis by (meson rtranclp_trans)
  qed
  let ?v = "v\<lparr>sv_cancelled := True\<rparr>"
  note st = parent_cancels [of ins v]
  have inv: "stages_inv good contents c0 ?v" "shutdown_inv ?v"
    using stages_inv_step [OF st assms(1,2)] shutdown_inv_step [OF st assms(1,2)] by auto
  have src: "col_src (sv_col ?v) = SrcDone" using assms(3) by simp
  have "?goal ?v"
  proof (cases "sv_main v")
    case MSelect
    then have st2: "service_step ins ?v (?v\<lparr>sv_main := MJoinCol\<rparr>)" by (intro main_cancelled) simp_all
    show ?thesis
      by (rule step [OF st2], rule join [OF stages_inv_step [OF st2 inv] shutdown_inv_step [OF st2 inv]])
        (simp_all add: assms(3))
  next
    case MJoinCol
    then show ?thesis by (intro join [OF inv _ _ src]) simp_all
  next
    case MClose
    then show ?thesis by (intro close [OF inv]) simp_all
  next
    case MJoinFlush
    then show ?thesis by (intro service_finishes_closed [OF inv]) simp_all
  next
    case MReturned
    then show ?thesis by (intro exI [of _ ?v]) simp
  next
    case MPanicked
    then show ?thesis using assms(2) by (simp add: shutdown_inv_def)
  qed
  with step [OF st] show ?thesis .
qed

text \<open>What a run that ends without an error has done with the events of its source.\<close>

lemma service_clean_return:
  assumes "service_reach ins cfg s0 v" and "good s0" and "sv_main v = MReturned" and "sv_err v = None"
  shows "col_seen (sv_col v) = col_sent (sv_col v)"
    and "\<exists>recs. contents (sv_store v) = contents s0 @ recs \<and>
      list_all2 stored_as (col_forwarded (sv_col v)) recs"
    and "wrap64 (batch_drops (contents (sv_store v))) =
      wrap64 (batch_drops (contents s0) + batch_drops (col_forwarded (sv_col v)) +
        b_last_dropped (sv_flush v))"
proof -
  have inv: "stages_inv good contents (contents s0) v" "shutdown_inv v"
    using service_reach_inv [OF assms(1,2)] by blast+
  obtain col: "col_phase (sv_col v) = CReturned None" and fl: "b_phase (sv_flush v) = FReturned None"
    using inv(2) assms(3,4) by (auto simp: shutdown_inv_def)
  show "col_seen (sv_col v) = col_sent (sv_col v)"
    using collector_returned(1) [OF _ col] inv(1) by (simp add: stages_inv_def)
  have empty: "b_batch (sv_flush v) = []" "col_forwarded (sv_col v) = b_taken (sv_flush v)"
    using inv(1) fl by (auto simp: stages_inv_def batcher_inv_def)
  then show "\<exists>recs. contents (sv_store v) = contents s0 @ recs \<and>
      list_all2 stored_as (col_forwarded (sv_col v)) recs"
    and "wrap64 (batch_drops (contents (sv_store v))) =
      wrap64 (batch_drops (contents s0) + batch_drops (col_forwarded (sv_col v)) +
        b_last_dropped (sv_flush v))"
    using inv(1) by (auto simp: stages_inv_def batcher_inv_def records_inv_def drops_inv_def drop_acct)
qed

end

end
