(* ===== verification/PipelineProps.thy ===== *)
theory PipelineProps imports Service StoreProps begin

text \<open>
  The properties of the recording pipeline: what the path filter ignores, what the collector does
  with every event, how the shutdown ends, and what is in the store afterwards. The sink is
  \<open>InsertEvents\<close> over any engine of the interface.
\<close>

section \<open>The filter\<close>



section \<open>The collector\<close>

text \<open>
  When the collector's \<open>Run\<close> returns, after whatever interleaving of the source, the loop and
  the consumer, every event the source sent has been received; those not ignored were forwarded,
  in order, or are counted as dropped; and the error returned is the source's own, with
  cancellation turned into success.
\<close>

theorem collector_accounts_for_every_event:
  assumes "collector_reach cfg (c, out)" and "col_phase c = CReturned r"
  shows "subseq (col_forwarded c) (filter (\<lambda>ev. \<not> ignored c ev) (col_sent c)) \<and>
    dropped_events c = wrap64 (int (length (filter (\<lambda>ev. \<not> ignored c ev) (col_sent c))) -
      int (length (col_forwarded c))) \<and>
    (\<exists>e. col_result c = Some e \<and> r = finish_error e)"
proof -
  have inv: "collector_inv c" using collector_reach_inv [OF assms(1)] by simp
  note r = collector_returned [OF inv assms(2)]
  show ?thesis
    using inv r by (simp add: collector_inv_def events_inv_def kept_def dropped_events_def)
qed

text \<open>A run of the collector on one event whose source fails.\<close>

definition ended_collector :: "collector \<times> event chan" where
  "ended_collector =
     (let c0 = new_collector \<lparr>cc_ignore_paths = [], cc_buffer_size = 0\<rparr>
      in (c0\<lparr>col_sent := [sample_event], col_seen := [sample_event], col_forwarded := [sample_event],
            col_src := SrcDone, col_in := (col_in c0)\<lparr>ch_closed := True\<rparr>,
            col_result := Some (Some (Err ''lost'')), col_phase := CReturned (Some (Err ''lost''))\<rparr>,
          (make_chan 1)\<lparr>ch_buf := [sample_event]\<rparr>))"

lemma sample_not_ignored:
  "\<not> should_ignore_path (new_ignore_rules []) (ev_path sample_event)"
  "\<not> should_ignore_path (new_ignore_rules []) (ev_old_path sample_event)"
  by code_simp+

lemma sample_go_map: "go_map (ev_metadata sample_event)"
  by code_simp

lemma ended_collector_reach: "collector_reach \<lparr>cc_ignore_paths = [], cc_buffer_size = 0\<rparr> ended_collector"
proof -
  let ?cfg = "\<lparr>cc_ignore_paths = [], cc_buffer_size = 0\<rparr>" and ?err = "Some (Err ''lost'')"
  let ?c0 = "new_collector ?cfg" and ?o0 = "make_chan 1 :: event chan"
  let ?c1 = "?c0\<lparr>col_in := (col_in ?c0)\<lparr>ch_buf := [sample_event]\<rparr>, col_sent := [sample_event]\<rparr>"
  let ?o1 = "?o0\<lparr>ch_buf := [sample_event]\<rparr>"
  let ?c2 = "?c0\<lparr>col_sent := [sample_event], col_seen := [sample_event], col_forwarded := [sample_event]\<rparr>"
  let ?c3 = "?c2\<lparr>col_src := SrcReturned ?err, col_result := Some ?err\<rparr>"
  let ?c4 = "?c2\<lparr>col_src := SrcClosed ?err, col_result := Some ?err,
    col_in := (col_in ?c0)\<lparr>ch_closed := True\<rparr>\<rparr>"
  let ?c5 = "?c2\<lparr>col_src := SrcDone, col_result := Some ?err, col_done := Some ?err,
    col_in := (col_in ?c0)\<lparr>ch_closed := True\<rparr>\<rparr>"
  note defs = new_collector_def make_chan_def buffer_size_def receive_def forward_def ignored_def
    sample_not_ignored chan_send_def finish_error_def
  have "collector_step False (?c0, ?o0) (?c1, ?o0)"
    using src_send [of ?c0 sample_event "(col_in ?c0)\<lparr>ch_buf := [sample_event]\<rparr>" False ?o0]
    by (simp add: defs sample_go_map)
  from collector_reach.step [OF collector_reach.start this] have "collector_reach ?cfg (?c1, ?o0)" .
  moreover have "collector_step False (?c1, ?o0) (?c2, ?o1)"
    using loop_receive [of ?c1 sample_event "col_in ?c0" False ?o0] by (simp add: defs)
  ultimately have "collector_reach ?cfg (?c2, ?o1)" by (rule collector_reach.step)
  moreover have "collector_step False (?c2, ?o1) (?c3, ?o1)"
    using src_return [of ?c2 False ?o1 ?err] by (simp add: defs)
  ultimately have "collector_reach ?cfg (?c3, ?o1)" by (rule collector_reach.step)
  moreover have "collector_step False (?c3, ?o1) (?c4, ?o1)"
    using src_close [of ?c3 ?err "(col_in ?c0)\<lparr>ch_closed := True\<rparr>" False ?o1] by (simp add: defs)
  ultimately have "collector_reach ?cfg (?c4, ?o1)" by (rule collector_reach.step)
  moreover have "collector_step False (?c4, ?o1) (?c5, ?o1)"
    using src_done [of ?c4 ?err False ?o1] by (simp add: defs)
  ultimately have "collector_reach ?cfg (?c5, ?o1)" by (rule collector_reach.step)
  moreover have "collector_step False (?c5, ?o1) (?c5\<lparr>col_phase := CFinish\<rparr>, ?o1)"
    using loop_closed [of ?c5 "col_in ?c5" False ?o1] by (simp add: defs)
  ultimately have "collector_reach ?cfg (?c5\<lparr>col_phase := CFinish\<rparr>, ?o1)" by (rule collector_reach.step)
  moreover have "collector_step False (?c5\<lparr>col_phase := CFinish\<rparr>, ?o1)
      (fst ended_collector, snd ended_collector)"
    using finish [of "?c5\<lparr>col_phase := CFinish\<rparr>" ?err False ?o1]
    by (simp add: defs ended_collector_def Let_def)
  ultimately have "collector_reach ?cfg (fst ended_collector, snd ended_collector)"
    by (rule collector_reach.step)
  then show ?thesis by simp
qed

theorem collector_accounts_for_every_event_witness:
  "dropped_events (fst ended_collector) = 0"
proof -
  have phase: "col_phase (fst ended_collector) = CReturned (Some (Err ''lost''))"
    by (simp add: ended_collector_def Let_def)
  have reach: "collector_reach \<lparr>cc_ignore_paths = [], cc_buffer_size = 0\<rparr>
      (fst ended_collector, snd ended_collector)"
    using ended_collector_reach by simp
  from collector_accounts_for_every_event [OF reach phase] show ?thesis
    by (simp add: ended_collector_def Let_def ignored_def new_collector_def sample_not_ignored wrap64_def)
qed


text \<open>
  The collector never panics by sending on a closed channel, and once its source has ended it
  can always return, whatever the ingest channel does: it does not wait for the consumer.
\<close>

theorem collector_never_stuck:
  assumes "collector_reach cfg (c, out)"
  shows "col_phase c \<noteq> CPanicked \<and>
    (col_src c = SrcDone \<longrightarrow>
      (\<exists>c' out' r. (collector_step True)\<^sup>*\<^sup>* (c, out) (c', out') \<and> col_phase c' = CReturned r))"
  using collector_reach_inv [OF assms] collector_can_return [of c out]
  by (auto simp: collector_inv_def phase_inv_def)

theorem collector_never_stuck_witness: "col_phase (fst ended_collector) \<noteq> CPanicked"
  using collector_never_stuck [of "\<lparr>cc_ignore_paths = [], cc_buffer_size = 0\<rparr>" "fst ended_collector" "snd ended_collector"]
    ended_collector_reach by simp

section \<open>The service\<close>

text \<open>The recorder is the service over the store as its sink.\<close>

context sql_engine
begin

lemmas recorder_inv = sink.service_reach_inv
lemmas recorder_can_return = sink.service_can_return
lemmas recorder_clean_return = sink.service_clean_return

end




lemma sample_store_good: "store_good sample_store"
  using sample_store_inv by (simp add: store_good_def)


text \<open>A run on one event: it is forwarded, taken and stored, the source ends, the service returns.\<close>

lemma one_event_run:
  assumes "go_map (ev_metadata ev)" and "\<not> should_ignore_path (new_ignore_rules []) (ev_path ev)"
    and "\<not> should_ignore_path (new_ignore_rules []) (ev_old_path ev)"
  shows "\<exists>v. service_reach (store_sink fragment_exec)
      \<lparr>sc_ignore_paths = [], sc_batch_size = 2, sc_flush_period = 0\<rparr> sample_store v \<and>
    sv_main v = MReturned \<and> sv_err v = None \<and> col_forwarded (sv_col v) = [ev] \<and>
    col_sent (sv_col v) = [ev] \<and> dropped_events (sv_col v) = 0"
proof -
  let ?ins = "store_sink fragment_exec"
    and ?cfg = "\<lparr>sc_ignore_paths = [], sc_batch_size = 2, sc_flush_period = 0\<rparr>"
  let ?reach = "service_reach ?ins ?cfg sample_store"
  let ?v0 = "start_service ?cfg sample_store"
  let ?c0 = "sv_col ?v0" and ?o0 = "sv_ingest ?v0" and ?b0 = "sv_flush ?v0"
  let ?o1 = "?o0\<lparr>ch_buf := [ev]\<rparr>"
  let ?c1 = "?c0\<lparr>col_in := (col_in ?c0)\<lparr>ch_buf := [ev]\<rparr>, col_sent := [ev]\<rparr>"
  let ?c2 = "?c0\<lparr>col_sent := [ev], col_seen := [ev], col_forwarded := [ev]\<rparr>"
  let ?c3 = "?c2\<lparr>col_src := SrcReturned None, col_result := Some None\<rparr>"
  let ?closed = "(col_in ?c0)\<lparr>ch_closed := True\<rparr>"
  let ?c4 = "?c2\<lparr>col_src := SrcClosed None, col_result := Some None, col_in := ?closed\<rparr>"
  let ?c5 = "?c2\<lparr>col_src := SrcDone, col_result := Some None, col_done := Some None, col_in := ?closed\<rparr>"
  let ?c6 = "?c5\<lparr>col_phase := CFinish\<rparr>"
  let ?c7 = "?c2\<lparr>col_src := SrcDone, col_result := Some None, col_in := ?closed, col_phase := CReturned None\<rparr>"
  let ?b1 = "?b0\<lparr>b_batch := [ev], b_taken := [ev]\<rparr>"
  let ?v1 = "?v0\<lparr>sv_col := ?c7, sv_flush := ?b1, sv_err := None, sv_col_done := True,
      sv_cancelled := True, sv_main := MJoinFlush, sv_ingest := ?o0\<lparr>ch_closed := True\<rparr>\<rparr>"
  note defs = start_service_def new_service_config_def new_collector_def make_chan_def buffer_size_def
    receive_def forward_def ignored_def assms(2,3) chan_send_def finish_error_def Let_def
    default_source_buffer_size_def default_ingest_buffer_size_def new_batcher_def take_event_def
    append_event_def dropped_events_def
  have lift: "?reach (v\<lparr>sv_col := c', sv_ingest := ch'\<rparr>)"
    if "?reach v" "collector_step False (sv_col v, sv_ingest v) (c', ch')" "\<not> sv_cancelled v" for v c' ch'
    using that by (intro service_reach.stepped [OF that(1)] service_step.collector) simp
  have "?reach (?v0\<lparr>sv_col := ?c1, sv_ingest := ?o0\<rparr>)"
    by (rule lift [OF service_reach.started])
      (use src_send [of ?c0 ev "(col_in ?c0)\<lparr>ch_buf := [ev]\<rparr>" False ?o0]
        in \<open>simp_all add: defs assms(1)\<close>)
  then have "?reach (?v0\<lparr>sv_col := ?c1\<rparr>)" by simp
  from lift [OF this, of ?c2 ?o1] have "?reach (?v0\<lparr>sv_col := ?c2, sv_ingest := ?o1\<rparr>)"
    using loop_receive [of ?c1 ev "col_in ?c0" False ?o0] by (simp add: defs)
  moreover have "batcher_step ?ins False 0 (?b0, ?o1, sample_store) (?b1, ?o0, sample_store)"
    using select_event [of ?b0 ?o1 ev ?o0 ?ins False 0 sample_store] by (simp add: defs)
  ultimately have "?reach (?v0\<lparr>sv_col := ?c2, sv_flush := ?b1\<rparr>)"
    using service_reach.stepped [OF _ service_step.flush, of ?ins ?cfg sample_store
        "?v0\<lparr>sv_col := ?c2, sv_ingest := ?o1\<rparr>" ?b1 ?o0 sample_store] by (simp add: defs)
  from lift [OF this, of ?c3 ?o0] have "?reach (?v0\<lparr>sv_col := ?c3, sv_flush := ?b1\<rparr>)"
    using src_return [of ?c2 False ?o0 None] by (simp add: defs)
  from lift [OF this, of ?c4 ?o0] have "?reach (?v0\<lparr>sv_col := ?c4, sv_flush := ?b1\<rparr>)"
    using src_close [of ?c3 None ?closed False ?o0] by (simp add: defs)
  from lift [OF this, of ?c5 ?o0] have "?reach (?v0\<lparr>sv_col := ?c5, sv_flush := ?b1\<rparr>)"
    using src_done [of ?c4 None False ?o0] by (simp add: defs)
  from lift [OF this, of ?c6 ?o0] have "?reach (?v0\<lparr>sv_col := ?c6, sv_flush := ?b1\<rparr>)"
    using loop_closed [of ?c5 ?closed False ?o0] by (simp add: defs)
  from lift [OF this, of ?c7 ?o0] have "?reach (?v0\<lparr>sv_col := ?c7, sv_flush := ?b1\<rparr>)"
    using finish [of ?c6 None False ?o0] by (simp add: defs)
  from service_reach.stepped [OF this main_collector [of _ None]] have
    "?reach (?v0\<lparr>sv_col := ?c7, sv_flush := ?b1, sv_err := None, sv_col_done := True,
      sv_cancelled := True, sv_main := MJoinCol\<rparr>)" by (simp add: defs)
  from service_reach.stepped [OF this skip_collector] have
    "?reach (?v0\<lparr>sv_col := ?c7, sv_flush := ?b1, sv_err := None, sv_col_done := True,
      sv_cancelled := True, sv_main := MClose\<rparr>)" by simp
  from service_reach.stepped [OF this close_ingest [of _ "?o0\<lparr>ch_closed := True\<rparr>"]] have joining:
    "?reach ?v1" by (simp add: defs)
  obtain st' stats where run:
    "insert_events fragment_exec json_marshal sample_env sample_store [ev] = (st', stats, None)"
    using es.insert_events_returns [OF sample_store_db(1) _ _ sample_store_db(2) sample_env_fine,
        of "[ev]"] by auto
  let ?b2 = "?b1\<lparr>b_batch := [], b_phase := FReturned None\<rparr>"
  have "finish_flush ?ins sample_env 0 ?b1 sample_store = (?b2, st')"
    using run by (simp add: finish_flush_def flush_def record_drops_def store_sink_def defs)
  then have "batcher_step ?ins True 0 (?b1, ?o0\<lparr>ch_closed := True\<rparr>, sample_store)
      (?b2, ?o0\<lparr>ch_closed := True\<rparr>, st')"
    by (intro select_closed) (simp_all add: defs)
  then have "?reach (?v1\<lparr>sv_flush := ?b2, sv_store := st'\<rparr>)"
    using service_reach.stepped [OF joining service_step.flush, of ?b2 "?o0\<lparr>ch_closed := True\<rparr>" st']
    by (simp add: defs)
  from service_reach.stepped [OF this join_flush [of _ None]] show ?thesis
    by (intro exI conjI) (assumption | simp add: keep_first_def | simp add: defs)+
qed

lemma sample_service_run:
  "\<exists>v. service_reach (store_sink fragment_exec)
      \<lparr>sc_ignore_paths = [], sc_batch_size = 2, sc_flush_period = 0\<rparr> sample_store v \<and>
    sv_main v = MReturned \<and> sv_err v = None \<and> col_forwarded (sv_col v) = [sample_event]"
  using one_event_run [OF sample_go_map] sample_not_ignored by blast



end
