(* ===== verification/PipelineBounds.thy ===== *)
theory PipelineBounds imports PipelineProps begin

text \<open>
  The memory the recorder's pipeline holds: the capacity of its two channels and the size of the
  batch, whatever the source sends and however long the store takes.
\<close>

section \<open>The batch\<close>

definition batch_bound :: "int \<Rightarrow> int \<Rightarrow> batcher \<Rightarrow> bool" where
  "batch_bound n m b \<longleftrightarrow> b_batch_size b = n \<and> b_max_batch b = m \<and>
     (b_phase b = FSelect \<longrightarrow> int (length (b_batch b)) < n) \<and> int (length (b_batch b)) \<le> max n m"

lemma flush_bound:
  "flush ins env cur b s = (b', s', e) \<Longrightarrow>
    b_batch_size b' = b_batch_size b \<and> b_max_batch b' = b_max_batch b \<and>
    length (b_batch b') \<le> length (b_batch b) \<and> (e = None \<longrightarrow> b_batch b' = [])"
  by (auto simp: flush_def record_drops_def Let_def split: if_splits prod.splits option.splits)

lemma flush_on_bound:
  "flush_on ins env cur b s = (b', s') \<Longrightarrow> batch_bound n m b \<Longrightarrow> n > 0 \<Longrightarrow> batch_bound n m b'"
  by (auto simp: flush_on_def batch_bound_def split: prod.splits option.splits dest!: flush_bound)

lemma finish_flush_bound:
  "finish_flush ins env cur b s = (b', s') \<Longrightarrow> batch_bound n m b \<Longrightarrow> batch_bound n m b'"
  by (auto simp: finish_flush_def batch_bound_def split: prod.splits dest!: flush_bound)

lemma batcher_step_bound:
  "batcher_step ins cancelled cur (b, ch, s) (b', ch', s') \<Longrightarrow> batch_bound n m b \<Longrightarrow> n > 0 \<Longrightarrow>
    batch_bound n m b'"
proof (induction "(b, ch, s)" "(b', ch', s')" rule: batcher_step.induct)
  case select_event
  then show ?case by (auto simp: batch_bound_def take_event_def append_event_def Let_def)
next
  case drain_event
  then show ?case by (auto simp: batch_bound_def append_event_def)
qed (blast intro: flush_on_bound finish_flush_bound)+

section \<open>The channels\<close>

definition chan_bound :: "nat \<Rightarrow> 'a chan \<Rightarrow> bool" where
  "chan_bound n ch \<longleftrightarrow> ch_cap ch = n \<and> length (ch_buf ch) \<le> n"

lemma batcher_step_chan:
  "batcher_step ins cancelled cur (b, ch, s) (b', ch', s') \<Longrightarrow> chan_bound n ch \<Longrightarrow> chan_bound n ch'"
  by (induction "(b, ch, s)" "(b', ch', s')" rule: batcher_step.induct) (auto simp: chan_bound_def)

lemma forward_bound:
  "forward ev (c, out) = (c', out') \<Longrightarrow> chan_bound n out \<Longrightarrow> chan_bound n out' \<and> col_in c' = col_in c"
  by (auto simp: forward_def chan_send_def chan_bound_def split: if_splits)

lemma collector_step_bound:
  "collector_step cancelled (c, out) (c', out') \<Longrightarrow> chan_bound n (col_in c) \<Longrightarrow> chan_bound m out \<Longrightarrow>
    chan_bound n (col_in c') \<and> chan_bound m out'"
proof (induction "(c, out)" "(c', out')" rule: collector_step.induct)
  case (loop_receive ev in')
  then show ?case
    using forward_bound [of ev "c\<lparr>col_in := in', col_seen := col_seen c @ [ev]\<rparr>" out c' out' m]
    by (auto simp: receive_def chan_bound_def)
qed (auto simp: chan_bound_def)

definition service_bound :: "int \<Rightarrow> 's service \<Rightarrow> bool" where
  "service_bound n v \<longleftrightarrow> chan_bound 65536 (col_in (sv_col v)) \<and> chan_bound 65536 (sv_ingest v) \<and>
     batch_bound n 16384 (sv_flush v)"

lemma service_step_bound:
  assumes "service_step ins v v'" and "service_bound n v" and "n > 0"
  shows "service_bound n v'"
  using assms
proof (induction rule: service_step.induct)
  case collector
  then show ?case using collector_step_bound by (fastforce simp: service_bound_def)
next
  case flush
  then show ?case using batcher_step_chan batcher_step_bound by (fastforce simp: service_bound_def)
next
  case close_ingest
  then show ?case by (auto simp: service_bound_def chan_bound_def)
qed (simp_all add: service_bound_def)

text \<open>
  C18: The recorder's memory is bounded: whatever the source sends and the store does, each channel
  holds at most 65536 events and the batch at most the configured size or 16384 events, whichever is
  more. A burst makes the collector count drops, it never makes the pipeline grow.
\<close>

theorem pipeline_is_bounded:
  assumes "service_reach ins cfg s0 v"
  shows "length (ch_buf (col_in (sv_col v))) \<le> 65536 \<and> length (ch_buf (sv_ingest v)) \<le> 65536 \<and>
    int (length (b_batch (sv_flush v))) \<le> max (sc_batch_size (new_service_config cfg)) 16384"
proof -
  let ?n = "sc_batch_size (new_service_config cfg)"
  have n: "?n > 0" by (simp add: new_service_config_def default_batch_size_def Let_def)
  from assms have "service_bound ?n v"
  proof induction
    case started
    then show ?case
      using n by (simp add: service_bound_def chan_bound_def batch_bound_def start_service_def Let_def
          new_collector_def make_chan_def new_batcher_def buffer_size_def default_source_buffer_size_def
          default_ingest_buffer_size_def default_max_flush_batch_size_def)
  next
    case stepped
    then show ?case using service_step_bound n by blast
  qed
  then show ?thesis by (simp add: service_bound_def chan_bound_def batch_bound_def)
qed

theorem pipeline_is_bounded_witness:
  "\<exists>v :: store service. sv_main v = MReturned \<and> int (length (b_batch (sv_flush v))) \<le> 16384"
proof -
  obtain v where "service_reach (store_sink fragment_exec)
      \<lparr>sc_ignore_paths = [], sc_batch_size = 2, sc_flush_period = 0\<rparr> sample_store v" "sv_main v = MReturned"
    using sample_service_run by blast
  with pipeline_is_bounded [OF this(1)] show ?thesis by (auto simp: new_service_config_def Let_def)
qed

end
