(* ===== verification/KernelEvent.thy ===== *)
theory KernelEvent imports Json "HOL-Library.Word" "HOL-Library.State_Monad" "HOL-Library.AList" begin

text \<open>
  The kernel's event as it crosses into the program. \<open>collector_event\<close> is the struct of
  \<open>internal/ebpf/collector_bpfel.go\<close>, \<open>encode_event\<close> the bytes the kernel lays out for it
  (\<open>internal/abi/kernel_event.gen.h\<close>), \<open>decode_kernel_event\<close> and \<open>convert_kernel_event\<close> are those of
  \<open>internal/ebpf/decode_linux.go\<close>. A \<open>uint64\<close> is a \<open>64 word\<close>, a C \<open>char\<close> array a list of bytes. The
  file system is a function from paths to contents.
\<close>

section \<open>Little-endian bytes\<close>

type_synonym byte = "8 word"

fun le_val :: "byte list \<Rightarrow> nat" where
  "le_val [] = 0"
| "le_val (b # bs) = unat b + 256 * le_val bs"

fun le_bytes :: "nat \<Rightarrow> nat \<Rightarrow> byte list" where
  "le_bytes 0 v = []"
| "le_bytes (Suc n) v = word_of_nat v # le_bytes n (v div 256)"

lemma length_le_bytes [simp]: "length (le_bytes n v) = n"
  by (induction n arbitrary: v) auto

lemma le_val_bytes: "le_val (le_bytes n v) = v mod 256 ^ n"
  by (induction n arbitrary: v) (simp_all add: unat_of_nat mod_mult2_eq)

lemma unat_byte_lt: "unat (b :: byte) < 256"
  using unsigned_less [where 'a = nat, of b] by simp

lemma le_val_lt: "le_val bs < 256 ^ length bs"
proof (induction bs)
  case (Cons b bs)
  with unat_byte_lt [of b] show ?case by simp
qed simp

lemma le_bytes_val [simp]: "le_bytes (length bs) (le_val bs) = bs"
proof (induction bs)
  case (Cons b bs)
  have "unat (word_of_nat (unat b + 256 * le_val bs) :: byte) = unat b"
    using unat_byte_lt [of b] by (simp add: unat_of_nat del: of_nat_add of_nat_mult)
  then have "word_of_nat (unat b + 256 * le_val bs) = b" by (rule unsigned_word_eqI)
  with unat_byte_lt [of b] Cons show ?case by simp
qed simp

section \<open>The struct and its layout\<close>

record collector_event =
  ke_ts_ns :: "64 word"
  ke_bytes :: "64 word"
  ke_pid :: "32 word"
  ke_uid :: "32 word"
  ke_local_port :: "16 word"
  ke_remote_port :: "16 word"
  ke_local_ip4 :: "32 word"
  ke_remote_ip4 :: "32 word"
  ke_comm :: "byte list"
  ke_category :: "byte list"
  ke_action :: "byte list"
  ke_path :: "byte list"
  ke_old_path :: "byte list"
  ke_syscall_nr :: "32 word"
  ke_fd :: "32 word"
  ke_aux :: "32 word"

text \<open>The lengths of the arrays, a Go array's being part of its type.\<close>

definition event_shape :: "collector_event \<Rightarrow> bool" where
  "event_shape e \<longleftrightarrow> length (ke_comm e) = 16 \<and> length (ke_category e) = 16 \<and>
     length (ke_action e) = 16 \<and> length (ke_path e) = 128 \<and> length (ke_old_path e) = 128"

definition le_word :: "'a::len word \<Rightarrow> byte list" where
  "le_word w = le_bytes (LENGTH('a) div 8) (unat w)"

definition event_parts :: "collector_event \<Rightarrow> byte list list" where
  "event_parts e =
     [le_word (ke_ts_ns e), le_word (ke_bytes e), le_word (ke_pid e), le_word (ke_uid e),
      le_word (ke_local_port e), le_word (ke_remote_port e), le_word (ke_local_ip4 e),
      le_word (ke_remote_ip4 e), ke_comm e, ke_category e, ke_action e, ke_path e, ke_old_path e,
      le_word (ke_syscall_nr e), le_word (ke_fd e), le_word (ke_aux e)]"

definition encode_event :: "collector_event \<Rightarrow> byte list" where
  "encode_event e = concat (event_parts e)"

section \<open>Decoding\<close>

text \<open>
  \<open>binary.Read\<close> with \<open>binary.LittleEndian\<close>: as many bytes as the struct has are read, an error if
  there are fewer, and the fields taken from them in order. Bytes after them stay unread.
\<close>

definition read_bytes :: "nat \<Rightarrow> (byte list, byte list) state" where
  "read_bytes n = State (\<lambda>bs. (take n bs, drop n bs))"

definition read_word :: "(byte list, 'a::len word) state" where
  "read_word = State (\<lambda>bs.
     (word_of_nat (le_val (take (LENGTH('a) div 8) bs)), drop (LENGTH('a) div 8) bs))"

definition event_size :: nat where
  "event_size = 352"

definition read_event :: "(byte list, collector_event) state" where
  "read_event = do {
     ts \<leftarrow> read_word; n \<leftarrow> read_word; pid \<leftarrow> read_word; uid \<leftarrow> read_word;
     lport \<leftarrow> read_word; rport \<leftarrow> read_word; lip \<leftarrow> read_word; rip \<leftarrow> read_word;
     comm \<leftarrow> read_bytes 16; category \<leftarrow> read_bytes 16; action \<leftarrow> read_bytes 16;
     path \<leftarrow> read_bytes 128; old_path \<leftarrow> read_bytes 128;
     nr \<leftarrow> read_word; fd \<leftarrow> read_word; aux \<leftarrow> read_word;
     State_Monad.return \<lparr>ke_ts_ns = ts, ke_bytes = n, ke_pid = pid, ke_uid = uid, ke_local_port = lport,
       ke_remote_port = rport, ke_local_ip4 = lip, ke_remote_ip4 = rip, ke_comm = comm,
       ke_category = category, ke_action = action, ke_path = path, ke_old_path = old_path,
       ke_syscall_nr = nr, ke_fd = fd, ke_aux = aux\<rparr>
   }"

definition decode_kernel_event :: "byte list \<Rightarrow> collector_event result" where
  "decode_kernel_event raw =
     (if raw = [] then Inl (Err ''EOF'')
      else if length raw < event_size then Inl (Err ''unexpected EOF'')
      else Inr (fst (run_state read_event raw)))"

lemma length_le_word [simp]: "length (le_word (w :: 'a::len word)) = LENGTH('a) div 8"
  by (simp add: le_word_def)

lemma run_read_bytes [simp]: "run_state (read_bytes n) bs = (take n bs, drop n bs)"
  by (simp add: read_bytes_def)

lemma run_read_word:
  "run_state read_word bs = (word_of_nat (le_val (take (LENGTH('a) div 8) bs)) :: 'a::len word,
     drop (LENGTH('a) div 8) bs)"
  by (simp add: read_word_def)

lemma run_bind: "run_state (State_Monad.bind m f) s =
    (case run_state m s of (a, s') \<Rightarrow> run_state (f a) s')"
  by (simp add: State_Monad.bind_def)

lemma read_le_word:
  "8 dvd LENGTH('a) \<Longrightarrow> run_state read_word (le_word (w :: 'a::len word) @ rest) = (w, rest)"
proof -
  assume "8 dvd LENGTH('a)"
  then obtain k where k: "LENGTH('a) = 8 * k" by (auto simp: dvd_def)
  have "unat w < 2 ^ LENGTH('a)" by (rule unsigned_less)
  then have "unat w mod 256 ^ k = unat w" by (simp add: k power_mult)
  then have "word_of_nat (le_val (le_word w)) = w"
    by (simp add: le_word_def le_val_bytes k)
  then show ?thesis by (simp add: read_word_def)
qed

lemma le_word_read:
  assumes "n = LENGTH('a::len) div 8" and "8 dvd LENGTH('a)" and "n + m \<le> length raw"
  shows "le_word (word_of_nat (le_val (take n (drop m raw))) :: 'a word) = take n (drop m raw)"
proof -
  let ?bs = "take n (drop m raw)"
  have len: "length ?bs = LENGTH('a) div 8" using assms(1,3) by simp
  obtain k where k: "LENGTH('a) = 8 * k" using assms(2) by (auto simp: dvd_def)
  have "le_val ?bs < 2 ^ LENGTH('a)"
    using le_val_lt [of ?bs] len by (simp add: k power_mult)
  then have "unat (word_of_nat (le_val ?bs) :: 'a word) = le_val ?bs"
    by (simp add: unat_of_nat)
  with len le_bytes_val [of ?bs] show ?thesis by (simp add: le_word_def)
qed

lemmas le_word_read_front = le_word_read [where m = 0, simplified]

lemma length_encode_event: "event_shape e \<Longrightarrow> length (encode_event e) = event_size"
  by (simp add: encode_event_def event_parts_def event_shape_def event_size_def)

lemma read_encode_event: "event_shape e \<Longrightarrow> run_state read_event (encode_event e @ junk) = (e, junk)"
  by (simp add: read_event_def encode_event_def event_parts_def event_shape_def run_bind read_le_word)

lemma take_drop_append: "take i xs @ take j (drop i xs) @ rest = take (i + j) xs @ rest"
  by (simp add: take_add)

lemma encode_read_event:
  assumes "event_size \<le> length raw" and "run_state read_event raw = (e, rest)"
  shows "event_shape e \<and> raw = encode_event e @ rest"
  using assms
  by (auto simp: read_event_def event_size_def event_shape_def encode_event_def event_parts_def
      run_bind run_read_word le_word_read le_word_read_front take_drop_append)

text \<open>Decoding inverts the layout: of an event's bytes, whatever follows them, and of nothing else.\<close>

lemma decode_iff_encoded:
  "decode_kernel_event raw = Inr e \<longleftrightarrow> event_shape e \<and> (\<exists>rest. raw = encode_event e @ rest)"
proof
  assume *: "decode_kernel_event raw = Inr e"
  then have "event_size \<le> length raw" and "e = fst (run_state read_event raw)"
    by (auto simp: decode_kernel_event_def split: if_splits)
  with encode_read_event [OF this(1), of e "snd (run_state read_event raw)"]
  show "event_shape e \<and> (\<exists>rest. raw = encode_event e @ rest)"
    by (metis prod.collapse)
next
  assume "event_shape e \<and> (\<exists>rest. raw = encode_event e @ rest)"
  then obtain rest where e: "event_shape e" and raw: "raw = encode_event e @ rest" by blast
  from e have "event_size \<le> length raw" by (simp add: raw length_encode_event)
  moreover from this have "raw \<noteq> []" by (auto simp: event_size_def)
  ultimately show "decode_kernel_event raw = Inr e"
    using read_encode_event [OF e, of rest] by (simp add: decode_kernel_event_def raw)
qed

section \<open>Converting\<close>

text \<open>\<open>cstring\<close>: the bytes before the first NUL, or all of them.\<close>

fun cstring :: "byte list \<Rightarrow> string" where
  "cstring [] = []"
| "cstring (b # bs) = (if b \<noteq> 0 then char_of (unat b) # cstring bs else [])"

definition ipv4_string :: "32 word \<Rightarrow> string" where
  "ipv4_string v = join ''.'' (map (\<lambda>b. itoa (int (unat b))) (le_bytes 4 (unat v)))"

text \<open>\<open>readPPID\<close> of \<open>internal/ebpf/proc_linux.go\<close>: the second field after the last parenthesis.\<close>

type_synonym read_file = "string \<Rightarrow> string result"

fun after_last :: "char \<Rightarrow> string \<Rightarrow> string option" where
  "after_last c [] = None"
| "after_last c (d # s) =
     (case after_last c s of Some r \<Rightarrow> Some r | None \<Rightarrow> if d = c then Some s else None)"

definition read_ppid :: "read_file \<Rightarrow> int \<Rightarrow> int option" where
  "read_ppid fs pid =
     (case fs (''/proc/'' @ itoa pid @ ''/stat'') of
        Inl e \<Rightarrow> None
      | Inr s \<Rightarrow>
          (case after_last CHR '')'' s of
             None \<Rightarrow> None
           | Some rest \<Rightarrow>
               if rest = [] then None
               else case split_fields rest of
                 st # ppid # others \<Rightarrow> atoi ppid
               | _ \<Rightarrow> None))"

text \<open>
  \<open>convertKernelEvent\<close>. \<open>time.Duration(ke.TsNs)\<close> reads the unsigned nanoseconds as signed, as
  \<open>int64(dropped)\<close> does the count; the instant \<open>bootTime.Add\<close> is an exact sum.
\<close>

definition metadata_of :: "collector_event \<Rightarrow> metadata" where
  "metadata_of ke = Some [(''syscall_nr'', AInt (uint (ke_syscall_nr ke))),
     (''fd'', AInt (sint (ke_fd ke))), (''aux'', AInt (uint (ke_aux ke)))]"

definition block_metadata :: "collector_event \<Rightarrow> metadata" where
  "block_metadata ke = Some [(''dev'', AInt (uint (ke_aux ke))),
     (''nr_sector'', AInt (uint (ke_syscall_nr ke))), (''rwbs'', AString (cstring (ke_path ke)))]"

definition set_meta :: "string \<Rightarrow> any_value \<Rightarrow> metadata \<Rightarrow> metadata" where
  "set_meta k v m = map_option (AList.update k v) m"

definition base_event :: "gotime \<Rightarrow> collector_event \<Rightarrow> 64 word \<Rightarrow> event" where
  "base_event boot ke dropped = empty_event\<lparr>
     ev_schema_version := schema_version,
     ev_timestamp := boot + sint (ke_ts_ns ke),
     ev_category := cstring (ke_category ke),
     ev_action := cstring (ke_action ke),
     ev_pid := uint (ke_pid ke),
     ev_uid := uint (ke_uid ke),
     ev_comm := cstring (ke_comm ke),
     ev_path := cstring (ke_path ke),
     ev_old_path := cstring (ke_old_path ke),
     ev_local_port := uint (ke_local_port ke),
     ev_remote_port := uint (ke_remote_port ke),
     ev_metadata := metadata_of ke,
     ev_dropped_before := sint dropped\<rparr>"

definition is_kind :: "string \<Rightarrow> string \<Rightarrow> event \<Rightarrow> bool" where
  "is_kind cat act ev \<longleftrightarrow> ev_category ev = cat \<and> ev_action ev = act"

text \<open>The conditional changes, in the order of the code.\<close>

definition add_local_addr :: "collector_event \<Rightarrow> event \<Rightarrow> event" where
  "add_local_addr ke ev =
     (if ke_local_ip4 ke \<noteq> 0 then ev\<lparr>ev_local_addr := ipv4_string (ke_local_ip4 ke)\<rparr> else ev)"

definition add_remote_addr :: "collector_event \<Rightarrow> event \<Rightarrow> event" where
  "add_remote_addr ke ev =
     (if ke_remote_ip4 ke \<noteq> 0 then ev\<lparr>ev_remote_addr := ipv4_string (ke_remote_ip4 ke)\<rparr> else ev)"

definition add_exe :: "event \<Rightarrow> event" where
  "add_exe ev =
     (if is_kind ''process'' ''exec'' ev \<and> ev_path ev \<noteq> [] then ev\<lparr>ev_exe := ev_path ev\<rparr> else ev)"

definition as_block :: "collector_event \<Rightarrow> event \<Rightarrow> event" where
  "as_block ke ev =
     (if ev_category ev = ''block'' then ev\<lparr>ev_path := [], ev_metadata := block_metadata ke\<rparr> else ev)"

definition add_fork_parent :: "collector_event \<Rightarrow> event \<Rightarrow> event" where
  "add_fork_parent ke ev =
     (if is_kind ''process'' ''fork'' ev \<and> ke_aux ke \<noteq> 0
      then ev\<lparr>ev_ppid := uint (ke_aux ke)\<rparr> else ev)"

definition add_target :: "collector_event \<Rightarrow> event \<Rightarrow> event" where
  "add_target ke ev =
     (if is_kind ''process'' ''kill'' ev \<and> sint (ke_fd ke) > 0
      then ev\<lparr>ev_target_pid := sint (ke_fd ke)\<rparr> else ev)"

definition add_parent :: "read_file \<Rightarrow> event \<Rightarrow> event" where
  "add_parent fs ev =
     (if ev_pid ev > 0 \<and> ev_ppid ev = 0 \<and> ev_action ev \<noteq> ''fork''
      then (case read_ppid fs (ev_pid ev) of Some ppid \<Rightarrow> ev\<lparr>ev_ppid := ppid\<rparr> | None \<Rightarrow> ev)
      else ev)"

definition add_listen_fd :: "collector_event \<Rightarrow> event \<Rightarrow> event" where
  "add_listen_fd ke ev =
     (if ev_action ev = ''listen'' \<and> ev_local_addr ev = [] \<and> sint (ke_fd ke) \<ge> 0
      then ev\<lparr>ev_metadata := set_meta ''listen_fd'' (AInt (sint (ke_fd ke))) (ev_metadata ev)\<rparr>
      else ev)"

definition convert_kernel_event :: "read_file \<Rightarrow> gotime \<Rightarrow> collector_event \<Rightarrow> 64 word \<Rightarrow> event" where
  "convert_kernel_event fs boot ke dropped =
     (let e1 = add_local_addr ke (base_event boot ke dropped);
          e2 = add_remote_addr ke e1;
          e3 = add_exe e2;
          e4 = as_block ke e3;
          e5 = add_fork_parent ke e4;
          e6 = add_target ke e5;
          e7 = add_parent fs e6
      in add_listen_fd ke e7)"

lemma base_event_simps [simp]:
  "ev_pid (base_event boot ke d) = uint (ke_pid ke)"
  "ev_uid (base_event boot ke d) = uint (ke_uid ke)"
  "ev_schema_version (base_event boot ke d) = schema_version"
  "ev_timestamp (base_event boot ke d) = boot + sint (ke_ts_ns ke)"
  "ev_category (base_event boot ke d) = cstring (ke_category ke)"
  "ev_action (base_event boot ke d) = cstring (ke_action ke)"
  "ev_comm (base_event boot ke d) = cstring (ke_comm ke)"
  "ev_old_path (base_event boot ke d) = cstring (ke_old_path ke)"
  "ev_dropped_before (base_event boot ke d) = sint d"
  by (simp_all add: base_event_def)

text \<open>No change touches these fields.\<close>

definition fixed_part :: "event \<Rightarrow> (int \<times> int \<times> int \<times> int) \<times> gotime \<times> string \<times> string \<times> string \<times> string" where
  "fixed_part ev = ((ev_pid ev, ev_uid ev, ev_schema_version ev, ev_dropped_before ev),
     ev_timestamp ev, ev_category ev, ev_action ev, ev_comm ev, ev_old_path ev)"

lemma fixed_part_steps [simp]:
  "fixed_part (add_local_addr ke ev) = fixed_part ev"
  "fixed_part (add_remote_addr ke ev) = fixed_part ev"
  "fixed_part (add_exe ev) = fixed_part ev"
  "fixed_part (as_block ke ev) = fixed_part ev"
  "fixed_part (add_fork_parent ke ev) = fixed_part ev"
  "fixed_part (add_target ke ev) = fixed_part ev"
  "fixed_part (add_parent fs ev) = fixed_part ev"
  "fixed_part (add_listen_fd ke ev) = fixed_part ev"
  by (simp_all add: fixed_part_def add_local_addr_def add_remote_addr_def add_exe_def as_block_def
      add_fork_parent_def add_target_def add_parent_def add_listen_fd_def split: option.splits)

lemma convert_fixed_part: "fixed_part (convert_kernel_event fs boot ke d) = fixed_part (base_event boot ke d)"
  by (simp add: convert_kernel_event_def Let_def)

lemma convert_fields [simp]:
  "ev_pid (convert_kernel_event fs boot ke d) = uint (ke_pid ke)"
  "ev_uid (convert_kernel_event fs boot ke d) = uint (ke_uid ke)"
  "ev_schema_version (convert_kernel_event fs boot ke d) = schema_version"
  "ev_dropped_before (convert_kernel_event fs boot ke d) = sint d"
  "ev_timestamp (convert_kernel_event fs boot ke d) = boot + sint (ke_ts_ns ke)"
  "ev_category (convert_kernel_event fs boot ke d) = cstring (ke_category ke)"
  "ev_action (convert_kernel_event fs boot ke d) = cstring (ke_action ke)"
  "ev_comm (convert_kernel_event fs boot ke d) = cstring (ke_comm ke)"
  "ev_old_path (convert_kernel_event fs boot ke d) = cstring (ke_old_path ke)"
  using convert_fixed_part [of fs boot ke d] by (simp_all add: fixed_part_def)

lemma go_map_set_meta: "go_map m \<Longrightarrow> go_map (set_meta k v m)"
  by (auto simp: go_map_def set_meta_def distinct_update split: option.splits)

lemma go_map_steps:
  "go_map (ev_metadata (base_event boot ke d))"
  "go_map (ev_metadata (add_local_addr ke ev)) = go_map (ev_metadata ev)"
  "go_map (ev_metadata (add_remote_addr ke ev)) = go_map (ev_metadata ev)"
  "go_map (ev_metadata (add_exe ev)) = go_map (ev_metadata ev)"
  "go_map (ev_metadata ev) \<Longrightarrow> go_map (ev_metadata (as_block ke ev))"
  "go_map (ev_metadata (add_fork_parent ke ev)) = go_map (ev_metadata ev)"
  "go_map (ev_metadata (add_target ke ev)) = go_map (ev_metadata ev)"
  "go_map (ev_metadata (add_parent fs ev)) = go_map (ev_metadata ev)"
  "go_map (ev_metadata ev) \<Longrightarrow> go_map (ev_metadata (add_listen_fd ke ev))"
  by (simp_all add: base_event_def metadata_of_def add_local_addr_def add_remote_addr_def
      add_exe_def as_block_def add_fork_parent_def add_target_def add_parent_def add_listen_fd_def
      go_map_set_meta split: option.splits)
    (simp_all add: go_map_def block_metadata_def)

lemma convert_go_map: "go_map (ev_metadata (convert_kernel_event fs boot ke d))"
  by (simp add: convert_kernel_event_def Let_def go_map_steps)

end
