(* ===== verification/KernelSource.thy ===== *)
theory KernelSource imports KernelEvent PathFilter begin

text \<open>
  The event source on Linux, \<open>internal/ebpf\<close>: the tracepoint table (\<open>internal/abi/tracepoints_gen.go\<close>)
  and its attachment (\<open>attach_linux.go\<close>), the boot time (\<open>proc_linux.go\<close>), and \<open>Run\<close>
  (\<open>collector_linux.go\<close>), which reads records, decodes them and stamps each event with the growth of
  the kernel's drop counter. What the eBPF library and the kernel answer (programs in the
  collection, links, records, per-CPU counters) are parameters.
\<close>

section \<open>The tracepoint table\<close>

record tracepoint_spec =
  tp_group :: string
  tp_event :: string
  tp_program :: string
  tp_optional :: bool

definition collector_tracepoints :: "tracepoint_spec list" where
  "collector_tracepoints = [
     \<lparr>tp_group = ''sched'', tp_event = ''sched_process_fork'', tp_program = ''trace_sched_process_fork'', tp_optional = False\<rparr>,
     \<lparr>tp_group = ''sched'', tp_event = ''sched_process_exit'', tp_program = ''trace_sched_process_exit'', tp_optional = False\<rparr>,
     \<lparr>tp_group = ''block'', tp_event = ''block_rq_issue'', tp_program = ''trace_block_rq_issue'', tp_optional = True\<rparr>,
     \<lparr>tp_group = ''syscalls'', tp_event = ''sys_enter_execve'', tp_program = ''trace_sys_enter_execve'', tp_optional = False\<rparr>,
     \<lparr>tp_group = ''syscalls'', tp_event = ''sys_enter_execveat'', tp_program = ''trace_sys_enter_execveat'', tp_optional = False\<rparr>,
     \<lparr>tp_group = ''syscalls'', tp_event = ''sys_enter_clone'', tp_program = ''trace_sys_enter_clone'', tp_optional = False\<rparr>,
     \<lparr>tp_group = ''syscalls'', tp_event = ''sys_enter_clone3'', tp_program = ''trace_sys_enter_clone3'', tp_optional = True\<rparr>,
     \<lparr>tp_group = ''syscalls'', tp_event = ''sys_enter_kill'', tp_program = ''trace_sys_enter_kill'', tp_optional = False\<rparr>,
     \<lparr>tp_group = ''syscalls'', tp_event = ''sys_enter_tgkill'', tp_program = ''trace_sys_enter_tgkill'', tp_optional = False\<rparr>,
     \<lparr>tp_group = ''syscalls'', tp_event = ''sys_enter_open'', tp_program = ''trace_sys_enter_open'', tp_optional = False\<rparr>,
     \<lparr>tp_group = ''syscalls'', tp_event = ''sys_enter_openat'', tp_program = ''trace_sys_enter_openat'', tp_optional = False\<rparr>,
     \<lparr>tp_group = ''syscalls'', tp_event = ''sys_enter_openat2'', tp_program = ''trace_sys_enter_openat2'', tp_optional = False\<rparr>,
     \<lparr>tp_group = ''syscalls'', tp_event = ''sys_exit_open'', tp_program = ''trace_sys_exit_open'', tp_optional = False\<rparr>,
     \<lparr>tp_group = ''syscalls'', tp_event = ''sys_exit_openat'', tp_program = ''trace_sys_exit_openat'', tp_optional = False\<rparr>,
     \<lparr>tp_group = ''syscalls'', tp_event = ''sys_exit_openat2'', tp_program = ''trace_sys_exit_openat2'', tp_optional = False\<rparr>,
     \<lparr>tp_group = ''syscalls'', tp_event = ''sys_enter_close'', tp_program = ''trace_sys_enter_close'', tp_optional = False\<rparr>,
     \<lparr>tp_group = ''syscalls'', tp_event = ''sys_enter_read'', tp_program = ''trace_sys_enter_read'', tp_optional = False\<rparr>,
     \<lparr>tp_group = ''syscalls'', tp_event = ''sys_enter_pread64'', tp_program = ''trace_sys_enter_pread64'', tp_optional = False\<rparr>,
     \<lparr>tp_group = ''syscalls'', tp_event = ''sys_enter_write'', tp_program = ''trace_sys_enter_write'', tp_optional = False\<rparr>,
     \<lparr>tp_group = ''syscalls'', tp_event = ''sys_enter_pwrite64'', tp_program = ''trace_sys_enter_pwrite64'', tp_optional = False\<rparr>,
     \<lparr>tp_group = ''syscalls'', tp_event = ''sys_enter_readv'', tp_program = ''trace_sys_enter_readv'', tp_optional = False\<rparr>,
     \<lparr>tp_group = ''syscalls'', tp_event = ''sys_enter_writev'', tp_program = ''trace_sys_enter_writev'', tp_optional = False\<rparr>,
     \<lparr>tp_group = ''syscalls'', tp_event = ''sys_enter_lseek'', tp_program = ''trace_sys_enter_lseek'', tp_optional = False\<rparr>,
     \<lparr>tp_group = ''syscalls'', tp_event = ''sys_enter_truncate'', tp_program = ''trace_sys_enter_truncate'', tp_optional = False\<rparr>,
     \<lparr>tp_group = ''syscalls'', tp_event = ''sys_enter_ftruncate'', tp_program = ''trace_sys_enter_ftruncate'', tp_optional = False\<rparr>,
     \<lparr>tp_group = ''syscalls'', tp_event = ''sys_enter_unlinkat'', tp_program = ''trace_sys_enter_unlinkat'', tp_optional = False\<rparr>,
     \<lparr>tp_group = ''syscalls'', tp_event = ''sys_enter_renameat2'', tp_program = ''trace_sys_enter_renameat2'', tp_optional = False\<rparr>,
     \<lparr>tp_group = ''syscalls'', tp_event = ''sys_enter_linkat'', tp_program = ''trace_sys_enter_linkat'', tp_optional = False\<rparr>,
     \<lparr>tp_group = ''syscalls'', tp_event = ''sys_enter_symlinkat'', tp_program = ''trace_sys_enter_symlinkat'', tp_optional = False\<rparr>,
     \<lparr>tp_group = ''syscalls'', tp_event = ''sys_enter_mkdirat'', tp_program = ''trace_sys_enter_mkdirat'', tp_optional = False\<rparr>,
     \<lparr>tp_group = ''syscalls'', tp_event = ''sys_enter_mkdir'', tp_program = ''trace_sys_enter_mkdir'', tp_optional = True\<rparr>,
     \<lparr>tp_group = ''syscalls'', tp_event = ''sys_enter_rmdir'', tp_program = ''trace_sys_enter_rmdir'', tp_optional = True\<rparr>,
     \<lparr>tp_group = ''syscalls'', tp_event = ''sys_enter_readlinkat'', tp_program = ''trace_sys_enter_readlinkat'', tp_optional = False\<rparr>,
     \<lparr>tp_group = ''syscalls'', tp_event = ''sys_enter_chmod'', tp_program = ''trace_sys_enter_chmod'', tp_optional = False\<rparr>,
     \<lparr>tp_group = ''syscalls'', tp_event = ''sys_enter_fchmod'', tp_program = ''trace_sys_enter_fchmod'', tp_optional = False\<rparr>,
     \<lparr>tp_group = ''syscalls'', tp_event = ''sys_enter_fchmodat'', tp_program = ''trace_sys_enter_fchmodat'', tp_optional = False\<rparr>,
     \<lparr>tp_group = ''syscalls'', tp_event = ''sys_enter_chown'', tp_program = ''trace_sys_enter_chown'', tp_optional = False\<rparr>,
     \<lparr>tp_group = ''syscalls'', tp_event = ''sys_enter_fchown'', tp_program = ''trace_sys_enter_fchown'', tp_optional = False\<rparr>,
     \<lparr>tp_group = ''syscalls'', tp_event = ''sys_enter_fchownat'', tp_program = ''trace_sys_enter_fchownat'', tp_optional = False\<rparr>,
     \<lparr>tp_group = ''syscalls'', tp_event = ''sys_enter_newfstatat'', tp_program = ''trace_sys_enter_newfstatat'', tp_optional = False\<rparr>,
     \<lparr>tp_group = ''syscalls'', tp_event = ''sys_enter_access'', tp_program = ''trace_sys_enter_access'', tp_optional = False\<rparr>,
     \<lparr>tp_group = ''syscalls'', tp_event = ''sys_enter_faccessat'', tp_program = ''trace_sys_enter_faccessat'', tp_optional = False\<rparr>,
     \<lparr>tp_group = ''syscalls'', tp_event = ''sys_enter_pipe2'', tp_program = ''trace_sys_enter_pipe2'', tp_optional = False\<rparr>,
     \<lparr>tp_group = ''syscalls'', tp_event = ''sys_enter_dup'', tp_program = ''trace_sys_enter_dup'', tp_optional = False\<rparr>,
     \<lparr>tp_group = ''syscalls'', tp_event = ''sys_enter_dup2'', tp_program = ''trace_sys_enter_dup2'', tp_optional = False\<rparr>,
     \<lparr>tp_group = ''syscalls'', tp_event = ''sys_enter_dup3'', tp_program = ''trace_sys_enter_dup3'', tp_optional = False\<rparr>,
     \<lparr>tp_group = ''syscalls'', tp_event = ''sys_enter_mmap'', tp_program = ''trace_sys_enter_mmap'', tp_optional = False\<rparr>,
     \<lparr>tp_group = ''syscalls'', tp_event = ''sys_enter_munmap'', tp_program = ''trace_sys_enter_munmap'', tp_optional = False\<rparr>,
     \<lparr>tp_group = ''syscalls'', tp_event = ''sys_enter_mprotect'', tp_program = ''trace_sys_enter_mprotect'', tp_optional = False\<rparr>,
     \<lparr>tp_group = ''syscalls'', tp_event = ''sys_enter_sendfile'', tp_program = ''trace_sys_enter_sendfile'', tp_optional = False\<rparr>,
     \<lparr>tp_group = ''syscalls'', tp_event = ''sys_enter_copy_file_range'', tp_program = ''trace_sys_enter_copy_file_range'', tp_optional = True\<rparr>,
     \<lparr>tp_group = ''syscalls'', tp_event = ''sys_enter_splice'', tp_program = ''trace_sys_enter_splice'', tp_optional = False\<rparr>,
     \<lparr>tp_group = ''syscalls'', tp_event = ''sys_enter_socket'', tp_program = ''trace_sys_enter_socket'', tp_optional = False\<rparr>,
     \<lparr>tp_group = ''syscalls'', tp_event = ''sys_enter_connect'', tp_program = ''trace_sys_enter_connect'', tp_optional = False\<rparr>,
     \<lparr>tp_group = ''syscalls'', tp_event = ''sys_enter_bind'', tp_program = ''trace_sys_enter_bind'', tp_optional = False\<rparr>,
     \<lparr>tp_group = ''syscalls'', tp_event = ''sys_enter_listen'', tp_program = ''trace_sys_enter_listen'', tp_optional = False\<rparr>,
     \<lparr>tp_group = ''syscalls'', tp_event = ''sys_enter_accept'', tp_program = ''trace_sys_enter_accept'', tp_optional = False\<rparr>,
     \<lparr>tp_group = ''syscalls'', tp_event = ''sys_enter_accept4'', tp_program = ''trace_sys_enter_accept4'', tp_optional = False\<rparr>,
     \<lparr>tp_group = ''syscalls'', tp_event = ''sys_enter_sendto'', tp_program = ''trace_sys_enter_sendto'', tp_optional = False\<rparr>,
     \<lparr>tp_group = ''syscalls'', tp_event = ''sys_enter_recvfrom'', tp_program = ''trace_sys_enter_recvfrom'', tp_optional = False\<rparr>,
     \<lparr>tp_group = ''syscalls'', tp_event = ''sys_enter_sendmsg'', tp_program = ''trace_sys_enter_sendmsg'', tp_optional = False\<rparr>,
     \<lparr>tp_group = ''syscalls'', tp_event = ''sys_enter_recvmsg'', tp_program = ''trace_sys_enter_recvmsg'', tp_optional = False\<rparr>,
     \<lparr>tp_group = ''syscalls'', tp_event = ''sys_enter_shutdown'', tp_program = ''trace_sys_enter_shutdown'', tp_optional = False\<rparr>]"

section \<open>Attaching\<close>

definition missing_program :: "tracepoint_spec \<Rightarrow> go_error" where
  "missing_program tp = Err (''missing bpf program '' @ quote_go (tp_program tp) @
     ''; rebuild collector_bpfel.o with '' @ [CHR 0x60] @ ''make ebpf'' @ [CHR 0x60])"

text \<open>\<open>attachTracepoints\<close>: the links made so far, and the counts.\<close>

fun attach_loop ::
    "(string \<Rightarrow> bool) \<Rightarrow> (tracepoint_spec \<Rightarrow> 'link option) \<Rightarrow> tracepoint_spec list \<Rightarrow>
      'link list \<Rightarrow> int \<Rightarrow> int \<Rightarrow> ('link list \<times> int \<times> int) result" where
  "attach_loop programs attach [] links attached skipped = Inr (links, attached, skipped)"
| "attach_loop programs attach (tp # tps) links attached skipped =
     (if \<not> programs (tp_program tp) then
        (if tp_optional tp then attach_loop programs attach tps links attached (skipped + 1)
         else Inl (missing_program tp))
      else case attach tp of
        None \<Rightarrow> attach_loop programs attach tps links attached (skipped + 1)
      | Some l \<Rightarrow> attach_loop programs attach tps (links @ [l]) (attached + 1) skipped)"

definition attach_tracepoints ::
    "(string \<Rightarrow> bool) \<Rightarrow> (tracepoint_spec \<Rightarrow> 'link option) \<Rightarrow> ('link list \<times> int \<times> int) result" where
  "attach_tracepoints programs attach =
     attach_loop programs attach collector_tracepoints [] 0 0"

section \<open>Boot time\<close>

text \<open>\<open>strconv.ParseInt\<close> in base 10 and 64 bits.\<close>

definition parse_int :: "string \<Rightarrow> int result" where
  "parse_int s =
     (case atoi s of
        Some n \<Rightarrow> Inr n
      | None \<Rightarrow> Inl (num_error ''ParseInt'' s))"

fun btime_loop :: "string list \<Rightarrow> gotime result" where
  "btime_loop [] = Inl (Err ''btime not found in /proc/stat'')"
| "btime_loop (line # ls) =
     (if prefix ''btime '' line
      then rbind (parse_int (trim_space (drop 6 line))) (\<lambda>sec. Inr (sec * 10 ^ 9))
      else btime_loop ls)"

definition wall_clock_boot_time :: "read_file \<Rightarrow> gotime result" where
  "wall_clock_boot_time fs =
     rbind (fs ''/proc/stat'') (\<lambda>data. btime_loop (split_on CHR 0x0A data))"

section \<open>Reading records\<close>

text \<open>\<open>readRingbufDrops\<close>: no map and a failed lookup (\<open>Some None\<close>) both count as 0; the counters
  of the CPUs are added in 64 bits.\<close>

definition read_ringbuf_drops :: "64 word list option option \<Rightarrow> 64 word" where
  "read_ringbuf_drops drops =
     (case drops of None \<Rightarrow> 0 | Some None \<Rightarrow> 0 | Some (Some per_cpu) \<Rightarrow> sum_list per_cpu)"

text \<open>
  What the loop meets: a record with the drop counters as they are read after it and whether the
  send of its event goes through (otherwise the cancellation wins the \<open>select\<close>), the closed reader,
  or another read error.
\<close>

datatype reading =
    Record "byte list" "64 word list option option" bool
  | ReadClosed
  | ReadFailed go_error

record source_state =
  ss_last_dropped :: "64 word"
  ss_decode_errors :: "64 word"

definition source_init :: source_state where
  "source_init = \<lparr>ss_last_dropped = 0, ss_decode_errors = 0\<rparr>"

definition stamp_record ::
    "read_file \<Rightarrow> gotime \<Rightarrow> collector_event \<Rightarrow> 64 word list option option \<Rightarrow> source_state \<Rightarrow>
      event \<times> source_state" where
  "stamp_record fs boot ke drops s =
     (let kernel_dropped = read_ringbuf_drops drops;
          dropped = kernel_dropped - ss_last_dropped s
      in (convert_kernel_event fs boot ke dropped, s\<lparr>ss_last_dropped := kernel_dropped\<rparr>))"

text \<open>The events sent, the state, and what \<open>Run\<close> returns, \<open>None\<close> while it has not.\<close>

fun source_loop ::
    "read_file \<Rightarrow> gotime \<Rightarrow> reading list \<Rightarrow> source_state \<Rightarrow>
      event list \<times> source_state \<times> go_error option option" where
  "source_loop fs boot [] s = ([], s, None)"
| "source_loop fs boot (ReadClosed # rs) s = ([], s, Some None)"
| "source_loop fs boot (ReadFailed e # rs) s = ([], s, Some (Some e))"
| "source_loop fs boot (Record raw drops sent # rs) s =
     (case decode_kernel_event raw of
        Inl e \<Rightarrow> source_loop fs boot rs (s\<lparr>ss_decode_errors := ss_decode_errors s + 1\<rparr>)
      | Inr ke \<Rightarrow>
          (let (ev, s') = stamp_record fs boot ke drops s in
           if sent then
             (let (evs, r) = source_loop fs boot rs s' in (ev # evs, r))
           else ([], s', Some None)))"

text \<open>\<open>setSelfPID\<close>: the recorder's pid goes under key 0 of the map, if the collection has it.\<close>

definition set_self_pid :: "(32 word \<Rightarrow> 32 word \<Rightarrow> go_error option) option \<Rightarrow> int \<Rightarrow> go_error option" where
  "set_self_pid pid_map pid =
     (case pid_map of None \<Rightarrow> None | Some update \<Rightarrow> update 0 (word_of_int pid))"

text \<open>\<open>Run\<close> up to the loop. The map of the collection is its update operation.\<close>

record 'link source_env =
  se_remove_memlock :: "go_error option"
  se_files :: read_file
  se_load :: "go_error option"
  se_collection :: "go_error + (string \<Rightarrow> bool)"
  se_self_pid :: "(32 word \<Rightarrow> 32 word \<Rightarrow> go_error option) option"
  se_getpid :: int
  se_attach :: "tracepoint_spec \<Rightarrow> 'link option"
  se_reader :: "go_error option"

definition check :: "go_error option \<Rightarrow> unit result" where
  "check e = (case e of None \<Rightarrow> Inr () | Some e \<Rightarrow> Inl e)"

definition source_start :: "'link source_env \<Rightarrow> (gotime \<times> 'link list) result" where
  "source_start env =
     rbind (check (se_remove_memlock env)) (\<lambda>_.
     rbind (wall_clock_boot_time (se_files env)) (\<lambda>boot.
     rbind (check (map_option (wrap_err ''load embedded ebpf object'') (se_load env))) (\<lambda>_.
     rbind (map_sum (wrap_err ''create ebpf collection'') id (se_collection env)) (\<lambda>programs.
     rbind (check (set_self_pid (se_self_pid env) (se_getpid env))) (\<lambda>_.
     rbind (attach_tracepoints programs (se_attach env)) (\<lambda>(links, attached, skipped).
     if attached = 0 then
       Inl (Err ''no tracepoints could be attached; recording needs root with CAP_BPF and CAP_PERFMON'')
     else rbind (check (map_option (wrap_err ''create ringbuf reader'') (se_reader env)))
       (\<lambda>_. Inr (boot, links))))))))"

definition source_run ::
    "'link source_env \<Rightarrow> reading list \<Rightarrow> event list \<times> go_error option option" where
  "source_run env readings =
     (case source_start env of
        Inl e \<Rightarrow> ([], Some (Some e))
      | Inr (boot, links) \<Rightarrow>
          (case source_loop (se_files env) boot readings source_init of
             (evs, s, r) \<Rightarrow> (evs, r)))"

text \<open>Elsewhere than on Linux, \<open>Run\<close> of \<open>collector_stub.go\<close>.\<close>

definition err_not_implemented :: go_error where
  "err_not_implemented = Err ''eBPF collector not implemented on this platform''"

definition stub_run :: "event list \<times> go_error option option" where
  "stub_run = ([], Some (Some err_not_implemented))"

section \<open>The events sent\<close>

lemma source_loop_events:
  "source_loop fs boot rs s = (evs, s', r) \<Longrightarrow> ev \<in> set evs \<Longrightarrow>
    \<exists>ke d. ev = convert_kernel_event fs boot ke d"
proof (induction fs boot rs s arbitrary: evs s' r rule: source_loop.induct)
  case (4 fs boot raw drops sent rs s)
  show ?case
  proof (cases "decode_kernel_event raw")
    case (Inl e)
    with 4 show ?thesis by simp
  next
    case (Inr ke)
    obtain ev1 s1 where s1: "stamp_record fs boot ke drops s = (ev1, s1)" by fastforce
    then have ev1: "ev1 = convert_kernel_event fs boot ke (read_ringbuf_drops drops - ss_last_dropped s)"
      by (simp add: stamp_record_def Let_def)
    obtain evs1 s2 r1 where loop: "source_loop fs boot rs s1 = (evs1, s2, r1)" by (metis prod_cases3)
    show ?thesis
    proof (cases "sent \<and> ev \<in> set evs1")
      case True
      with 4(2) [OF Inr s1 [symmetric] refl _ loop] show ?thesis by blast
    next
      case False
      with 4(3,4) Inr s1 loop have "ev = ev1" by (auto split: if_splits)
      with ev1 show ?thesis by blast
    qed
  qed
qed auto

end
