(* ===== verification/KernelProps.thy ===== *)
theory KernelProps imports KernelSource Collector begin

text \<open>
  The properties of the event source: decoding is the inverse of the kernel's layout, the drop
  counts of the events add up to the kernel's counter, the events are ones the collector and the
  store accept, and what \<open>attachTracepoints\<close> attaches.
\<close>

text \<open>
  C19: \<open>decodeKernelEvent\<close> is the inverse of the struct's layout in \<open>kernel_event.gen.h\<close>: a record
  decodes to an event exactly when it starts with the 352 bytes of that event, and it is refused
  exactly when it is shorter.
\<close>

theorem decode_inverts_layout:
  "(decode_kernel_event raw = Inr e \<longleftrightarrow> event_shape e \<and> (\<exists>rest. raw = encode_event e @ rest)) \<and>
   (isl (decode_kernel_event raw) \<longleftrightarrow> length raw < 352)"
  by (auto simp: decode_iff_encoded) (auto simp: decode_kernel_event_def event_size_def split: if_splits)

section \<open>Drop counts\<close>

lemma wrap64_sint: "wrap64 k = sint (word_of_int k :: 64 word)"
  by (simp add: wrap64_def sint_sbintrunc' signed_take_bit_eq_take_bit_shift take_bit_eq_mod)

lemma sint_wrap64: "sint (w :: 64 word) = wrap64 (uint w)"
  by (simp add: wrap64_sint)

lemma source_loop_drops:
  assumes "source_loop fs boot rs s = (evs, s', r)" and "\<forall>raw d. Record raw d False \<notin> set rs"
  shows "word_of_int (sum_list (map ev_dropped_before evs)) = ss_last_dropped s' - ss_last_dropped s"
  using assms
proof (induction fs boot rs s arbitrary: evs s' r rule: source_loop.induct)
  case (4 fs boot raw drops sent rs s)
  from 4(4) have sent by auto
  show ?case
  proof (cases "decode_kernel_event raw")
    case (Inl e)
    with 4(1) [OF Inl] 4(3,4) show ?thesis by simp
  next
    case (Inr ke)
    obtain ev s1 where s1: "stamp_record fs boot ke drops s = (ev, s1)" by fastforce
    obtain evs1 where loop: "source_loop fs boot rs s1 = (evs1, s', r)" and evs: "evs = ev # evs1"
      using 4(3) Inr s1 \<open>sent\<close> by (auto split: prod.splits)
    have "word_of_int (sum_list (map ev_dropped_before evs1)) = ss_last_dropped s' - ss_last_dropped s1"
      by (rule 4(2) [OF Inr s1 [symmetric] refl \<open>sent\<close> loop]) (use 4(4) in auto)
    moreover have "word_of_int (ev_dropped_before ev) = ss_last_dropped s1 - ss_last_dropped s"
      using s1 by (auto simp: stamp_record_def Let_def)
    ultimately show ?thesis by (simp add: evs)
  qed
qed auto


definition exec_event :: collector_event where
  "exec_event = \<lparr>ke_ts_ns = 7, ke_bytes = 0, ke_pid = 42, ke_uid = 0, ke_local_port = 0,
     ke_remote_port = 0, ke_local_ip4 = 0, ke_remote_ip4 = 0,
     ke_comm = 118 # 105 # replicate 14 0,
     ke_category = [112, 114, 111, 99, 101, 115, 115] @ replicate 9 0,
     ke_action = [101, 120, 101, 99] @ replicate 12 0,
     ke_path = [47, 118, 105] @ replicate 125 0, ke_old_path = replicate 128 0,
     ke_syscall_nr = 59, ke_fd = 0, ke_aux = 0\<rparr>"

lemma exec_event_decoded: "decode_kernel_event (encode_event exec_event) = Inr exec_event"
  using decode_iff_encoded [of "encode_event exec_event" exec_event]
  by (simp add: event_shape_def exec_event_def)


text \<open>A failed lookup of the counters reads as 0, so that the next event carries a negative count.\<close>

lemma failed_lookup_goes_negative:
  "ev_dropped_before (fst (stamp_record fs boot ke (Some None) \<lparr>ss_last_dropped = 5, ss_decode_errors = 0\<rparr>))
    = -5"
  by (simp add: stamp_record_def Let_def read_ringbuf_drops_def)

section \<open>The events sent\<close>


definition sample_source :: "unit source_env" where
  "sample_source = \<lparr>se_remove_memlock = None,
     se_files = (\<lambda>p. if p = ''/proc/stat'' then Inr ''btime 100'' else Inl (Err ''none'')),
     se_load = None, se_collection = Inr (\<lambda>p. True), se_self_pid = None, se_getpid = 1,
     se_attach = (\<lambda>tp. Some ()), se_reader = None\<rparr>"

lemma attach_all:
  "attach_loop (\<lambda>p. True) (\<lambda>tp. Some ()) tps links a k =
    Inr (links @ map (\<lambda>tp. ()) tps, a + int (length tps), k)"
  by (induction tps arbitrary: links a) auto

lemma sample_source_starts: "\<exists>links. source_start sample_source = Inr (100 * 10 ^ 9, links)"
proof -
  have "wall_clock_boot_time (\<lambda>p. if p = ''/proc/stat'' then Inr ''btime 100'' else Inl (Err ''none'')) =
      Inr (100 * 10 ^ 9)" by code_simp
  moreover have "length collector_tracepoints = 63" by (simp add: collector_tracepoints_def)
  ultimately show ?thesis
    by (simp add: source_start_def sample_source_def check_def set_self_pid_def attach_tracepoints_def attach_all
        del: power_numeral)
qed


section \<open>Attaching\<close>

definition required_missing :: "(string \<Rightarrow> bool) \<Rightarrow> tracepoint_spec \<Rightarrow> bool" where
  "required_missing programs tp \<longleftrightarrow> \<not> tp_optional tp \<and> \<not> programs (tp_program tp)"

definition try_attach ::
    "(string \<Rightarrow> bool) \<Rightarrow> (tracepoint_spec \<Rightarrow> 'link option) \<Rightarrow> tracepoint_spec \<Rightarrow> 'link option" where
  "try_attach programs attach tp = (if programs (tp_program tp) then attach tp else None)"

lemma attach_loop_result:
  "attach_loop programs attach tps links a k =
    (case filter (required_missing programs) tps of
       tp # tps \<Rightarrow> Inl (missing_program tp)
     | [] \<Rightarrow>
         (let new = List.map_filter (try_attach programs attach) tps in
          Inr (links @ new, a + int (length new), k + int (length tps) - int (length new))))"
  by (induction tps arbitrary: links a k)
    (auto simp: required_missing_def try_attach_def Let_def List.map_filter_simps
      split: option.splits list.splits)

text \<open>
  \<open>attachTracepoints\<close> fails exactly when the program of a tracepoint that is not optional is
  missing, naming the first such, and gives no link then (those made before it are not closed).
  Otherwise it links every tracepoint whose program is there and whose attachment works, in the
  order of the table, and the two counts add up to the table's 63 entries.
\<close>

theorem attach_links_all_it_can:
  "attach_tracepoints programs attach =
    (case filter (required_missing programs) collector_tracepoints of
       tp # tps \<Rightarrow> Inl (missing_program tp)
     | [] \<Rightarrow>
         (let links = List.map_filter (try_attach programs attach) collector_tracepoints in
          Inr (links, int (length links), 63 - int (length links))))"
proof -
  have "length collector_tracepoints = 63" by (simp add: collector_tracepoints_def)
  then show ?thesis
    by (simp add: attach_tracepoints_def attach_loop_result split: list.splits)
qed

end
