(* ===== verification/RecorderProps.thy ===== *)
theory RecorderProps imports PipelineBounds KernelProps begin

text \<open>
  The recorder from end to end: the event source of \<open>internal/ebpf\<close> feeding the pipeline of
  \<open>internal/daemon\<close> over the store.
\<close>

lemma service_reach_rules:
  "service_reach ins cfg s0 v \<Longrightarrow> col_rules (sv_col v) = new_ignore_rules (sc_ignore_paths cfg)"
proof (induction rule: service_reach.induct)
  case started
  then show ?case
    by (simp add: start_service_def new_service_config_def new_collector_def Let_def)
next
  case (stepped v v')
  from stepped(2,3) show ?case
    by (induction rule: service_step.induct) (auto dest: collector_step_rules)
qed

text \<open>An event the ignore rules of the configuration leave in.\<close>

definition wanted :: "string list \<Rightarrow> event \<Rightarrow> bool" where
  "wanted paths ev \<longleftrightarrow>
     \<not> should_ignore_path (new_ignore_rules paths) (ev_path ev) \<and>
     \<not> should_ignore_path (new_ignore_rules paths) (ev_old_path ev)"

lemma subseq_length_eq: "subseq xs ys \<Longrightarrow> length xs = length ys \<Longrightarrow> xs = ys"
  using subseq_same_length by blast

lemma wrap64_zero_cases:
  assumes "wrap64 (int m - int n) = 0" and "n \<le> m" and "m < 2 ^ 63"
  shows "m = n"
proof -
  have "int64_range (int m - int n)" using assms(2,3) by (simp add: int64_range_def)
  with assms(1) show ?thesis by (simp add: wrap64_id)
qed

text \<open>
  The history of the machine from end to end: when the recorder has shut down without error, the
  store holds what it held before followed by a record of each event that was forwarded; these are
  among the conversions of the kernel's records that the ignore rules leave in, in the order they
  were read, and the drop counter says how many are missing. If it is zero, none is.
\<close>

theorem recorder_keeps_the_history:
  assumes "sql_engine exec" and "service_reach (store_sink exec) cfg s0 v" and "store_good s0"
    and "sv_main v = MReturned" and "sv_err v = None"
    and "col_sent (sv_col v) = fst (source_run senv readings)"
    and "history = filter (wanted (sc_ignore_paths cfg)) (fst (source_run senv readings))"
  shows "\<exists>stored recs. store_events json_unmarshal (sv_store v) = store_events json_unmarshal s0 @ recs \<and>
    list_all2 stored_as stored recs \<and> subseq stored history \<and>
    dropped_events (sv_col v) = wrap64 (int (length history) - int (length stored)) \<and>
    (dropped_events (sv_col v) = 0 \<longrightarrow> length history < 2 ^ 63 \<longrightarrow> stored = history)"
proof -
  note clean = sql_engine.recorder_clean_return [OF assms(1-5)]
  have "collector_inv (sv_col v)"
    using sql_engine.recorder_inv [OF assms(1-3)] by (simp add: stages_inv_def)
  then have inv: "events_inv (sv_col v)" by (simp add: collector_inv_def)
  have "ignored (sv_col v) = (\<lambda>ev. \<not> wanted (sc_ignore_paths cfg) ev)"
    by (simp add: fun_eq_iff ignored_def wanted_def service_reach_rules [OF assms(2)])
  then have kept: "kept (sv_col v) = history"
    using clean(1) assms(6,7) by (simp add: kept_def)
  obtain recs where recs: "store_events json_unmarshal (sv_store v) = store_events json_unmarshal s0 @ recs"
      "list_all2 stored_as (col_forwarded (sv_col v)) recs" using clean(2) by blast
  have sub: "subseq (col_forwarded (sv_col v)) history"
    and drops: "dropped_events (sv_col v) =
      wrap64 (int (length history) - int (length (col_forwarded (sv_col v))))"
    using inv kept by (simp_all add: events_inv_def dropped_events_def)
  have "col_forwarded (sv_col v) = history" if "dropped_events (sv_col v) = 0" "length history < 2 ^ 63"
  proof -
    have "length history = length (col_forwarded (sv_col v))"
      using wrap64_zero_cases that drops list_emb_length [OF sub] by metis
    then show ?thesis using subseq_length_eq [OF sub] by simp
  qed
  with recs sub drops show ?thesis by blast
qed

theorem recorder_keeps_the_history_witness:
  "\<exists>(v :: store service) ev recs.
    fst (source_run sample_source [Record (encode_event exec_event) None True]) = [ev] \<and>
    store_events json_unmarshal (sv_store v) = store_events json_unmarshal sample_store @ recs \<and>
    list_all2 stored_as [ev] recs"
proof -
  let ?rs = "[Record (encode_event exec_event) None True]"
    and ?cfg = "\<lparr>sc_ignore_paths = [], sc_batch_size = 2, sc_flush_period = 0\<rparr>"
  obtain links where start: "source_start sample_source = Inr (100 * 10 ^ 9, links)"
    using sample_source_starts by blast
  define ev where "ev = convert_kernel_event (se_files sample_source) (100 * 10 ^ 9) exec_event 0"
  have sent: "fst (source_run sample_source ?rs) = [ev]"
    by (simp add: source_run_def start exec_event_decoded stamp_record_def Let_def
        read_ringbuf_drops_def source_init_def ev_def)
  have paths: "ev_path ev = ''/vi''" "ev_old_path ev = []"
    unfolding ev_def by code_simp+
  have "\<not> should_ignore_path (new_ignore_rules []) ''/vi''" "\<not> should_ignore_path (new_ignore_rules []) []"
    by code_simp+
  with paths have not_ignored: "\<not> should_ignore_path (new_ignore_rules []) (ev_path ev)"
    "\<not> should_ignore_path (new_ignore_rules []) (ev_old_path ev)" by simp_all
  have "go_map (ev_metadata ev)" by (simp add: ev_def convert_go_map)
  from one_event_run [OF this not_ignored] obtain v where
    v: "service_reach (store_sink fragment_exec) ?cfg sample_store v" "sv_main v = MReturned"
      "sv_err v = None" "col_sent (sv_col v) = [ev]" "dropped_events (sv_col v) = 0" by blast
  have wanted: "filter (wanted (sc_ignore_paths ?cfg)) (fst (source_run sample_source ?rs)) = [ev]"
    using not_ignored by (simp add: sent wanted_def)
  from recorder_keeps_the_history [OF frag.sql_engine_axioms v(1) sample_store_good v(2,3) v(4)[folded sent] refl]
    wanted v(5) sent show ?thesis by auto
qed

end
