(* ===== verification/KernelPrograms.thy ===== *)
theory KernelPrograms imports KernelSource begin

text \<open>
  The programs that run in the kernel, \<open>internal/ebpf/collector.bpf.c\<close>: their maps as a state, each
  helper function as a definition, and the tables of the programs by section and symbol. The struct
  \<open>event\<close> of the C code is \<open>collector_event\<close>, the layout of \<open>kernel_event.gen.h\<close>.

  A run of a program is one step: \<open>hook_env\<close> holds what the kernel's helpers answer during the run
  (the current task, the clock, reads of user memory, whether the ring buffer has room), which are
  parameters. User memory is the same for all reads of one run. Every program returns 0; the
  definitions return the state.
\<close>

section \<open>State and environment\<close>

text \<open>
  The maps. \<open>self_pid\<close>, \<open>ringbuf_drops\<close> and \<open>path_scratch\<close> are arrays of one element (the last two
  with one per CPU); \<open>None\<close> is a lookup that gives a null pointer. \<open>bs_records\<close> are the events
  submitted to the ring buffer, oldest first, and \<open>bs_asked\<close> counts the reservations asked for.
\<close>

type_synonym u32 = "32 word"
type_synonym u64 = "64 word"

record bpf_state =
  bs_records :: "collector_event list"
  bs_pending_open :: "u32 \<rightharpoonup> byte list"
  bs_fd_path :: "u32 \<times> u32 \<rightharpoonup> byte list"
  bs_self_pid :: "u32 option"
  bs_ringbuf_drops :: "nat \<Rightarrow> u64 option"
  bs_path_scratch :: "nat \<Rightarrow> byte list option"
  bs_asked :: nat

text \<open>
  \<open>hk_read_str dst src\<close> is \<open>bpf_probe_read_user_str\<close>: the contents of \<open>dst\<close> after it, and its result;
  \<open>hk_read_user n src\<close> is \<open>bpf_probe_read_user\<close>, \<open>None\<close> on a fault; \<open>hk_reserve i\<close> says whether the
  \<open>i\<close>-th reservation gets room; \<open>hk_update_ok\<close> whether a map update goes through (a full hash map
  refuses); \<open>hk_value_addr\<close> is the kernel address of the map value a lookup points to; \<open>hk_after\<close>
  the bytes that lie behind a string literal.
\<close>

record hook_env =
  hk_pid_tgid :: u64
  hk_uid_gid :: u64
  hk_boot_ns :: u64
  hk_comm :: "byte list"
  hk_cpu :: nat
  hk_read_str :: "byte list \<Rightarrow> u64 \<Rightarrow> byte list \<times> int"
  hk_read_user :: "nat \<Rightarrow> u64 \<Rightarrow> byte list option"
  hk_reserve :: "nat \<Rightarrow> bool"
  hk_update_ok :: bool
  hk_value_addr :: u64
  hk_after :: "string \<Rightarrow> byte list"

text \<open>The tracepoints' contexts, as far as the programs read them.\<close>

record sched_process_exit_ctx =
  tx_comm :: "byte list"
  tx_pid :: u32

record sched_process_fork_ctx =
  tf_parent_pid :: u32
  tf_child_comm :: "byte list"
  tf_child_pid :: u32

record sys_enter_ctx =
  te_id :: u64
  te_args :: "nat \<Rightarrow> u64"

record sys_exit_ctx =
  tr_ret :: u64

record block_rq_issue_ctx =
  tb_dev :: u32
  tb_nr_sector :: u32
  tb_bytes :: u32
  tb_rwbs :: "byte list"
  tb_comm :: "byte list"

section \<open>Helpers\<close>

definition ch :: "char \<Rightarrow> byte" where
  "ch c = word_of_nat (of_char c)"

definition current_pid :: "hook_env \<Rightarrow> u32" where
  "current_pid k = ucast (drop_bit 32 (hk_pid_tgid k))"

definition fill_common :: "hook_env \<Rightarrow> collector_event \<Rightarrow> collector_event" where
  "fill_common k ev = ev\<lparr>ke_ts_ns := hk_boot_ns k, ke_pid := current_pid k,
     ke_uid := ucast (hk_uid_gid k), ke_comm := hk_comm k\<rparr>"

definition should_skip :: "hook_env \<Rightarrow> bpf_state \<Rightarrow> bool" where
  "should_skip k s = (case bs_self_pid s of None \<Rightarrow> False | Some self \<Rightarrow> current_pid k = self)"

definition path_boundary :: "byte \<Rightarrow> bool" where
  "path_boundary c \<longleftrightarrow> c = 0 \<or> c = ch CHR ''/''"

definition path_ignored_prefix :: "byte list \<Rightarrow> bool" where
  "path_ignored_prefix p =
     (if p ! 0 \<noteq> ch CHR ''/'' then False
      else if p ! 1 = ch CHR ''p'' \<and> p ! 2 = ch CHR ''r'' \<and> p ! 3 = ch CHR ''o'' \<and>
        p ! 4 = ch CHR ''c'' \<and> path_boundary (p ! 5) then True
      else if p ! 1 = ch CHR ''s'' \<and> p ! 2 = ch CHR ''y'' \<and> p ! 3 = ch CHR ''s'' \<and>
        path_boundary (p ! 4) then True
      else if p ! 1 = ch CHR ''d'' \<and> p ! 2 = ch CHR ''e'' \<and> p ! 3 = ch CHR ''v'' \<and>
        path_boundary (p ! 4) then True
      else False)"

definition path_ignored_user :: "hook_env \<Rightarrow> u64 \<Rightarrow> bool" where
  "path_ignored_user k path =
     (case hk_read_str k (replicate 7 0) path of
        (buf, n) \<Rightarrow> if n \<le> 0 then False else path_ignored_prefix buf)"

text \<open>\<open>set_category_action\<close> copies 16 bytes from each literal, which are shorter: the copy goes on
  behind the literal's NUL.\<close>

definition literal_bytes :: "hook_env \<Rightarrow> string \<Rightarrow> byte list" where
  "literal_bytes k lit = take 16 (map ch lit @ 0 # hk_after k lit)"

definition set_category_action ::
    "hook_env \<Rightarrow> string \<Rightarrow> string \<Rightarrow> collector_event \<Rightarrow> collector_event" where
  "set_category_action k category action ev =
     ev\<lparr>ke_category := literal_bytes k category, ke_action := literal_bytes k action\<rparr>"

definition count_ringbuf_drop :: "hook_env \<Rightarrow> bpf_state \<Rightarrow> bpf_state" where
  "count_ringbuf_drop k s =
     (case bs_ringbuf_drops s (hk_cpu k) of
        None \<Rightarrow> s
      | Some d \<Rightarrow> s\<lparr>bs_ringbuf_drops := (bs_ringbuf_drops s)(hk_cpu k := Some (d + 1))\<rparr>)"

definition submit :: "collector_event \<Rightarrow> bpf_state \<Rightarrow> bpf_state" where
  "submit ev s = s\<lparr>bs_records := bs_records s @ [ev]\<rparr>"

definition zero_event :: collector_event where
  "zero_event = \<lparr>ke_ts_ns = 0, ke_bytes = 0, ke_pid = 0, ke_uid = 0, ke_local_port = 0,
     ke_remote_port = 0, ke_local_ip4 = 0, ke_remote_ip4 = 0, ke_comm = replicate 16 0,
     ke_category = replicate 16 0, ke_action = replicate 16 0, ke_path = replicate 128 0,
     ke_old_path = replicate 128 0, ke_syscall_nr = 0, ke_fd = 0, ke_aux = 0\<rparr>"

definition reserve_event :: "hook_env \<Rightarrow> bpf_state \<Rightarrow> collector_event option \<times> bpf_state" where
  "reserve_event k s =
     (let s1 = s\<lparr>bs_asked := bs_asked s + 1\<rparr> in
      if hk_reserve k (bs_asked s) then (Some zero_event, s1)
      else (None, count_ringbuf_drop k s1))"

text \<open>\<open>read_path\<close>: the contents of \<open>dst\<close> after it (its result is used nowhere).\<close>

definition read_path :: "hook_env \<Rightarrow> byte list \<Rightarrow> u64 \<Rightarrow> byte list" where
  "read_path k dst src = fst (hk_read_str k dst src)"

section \<open>Paths of descriptors\<close>

definition path_temp :: "hook_env \<Rightarrow> bpf_state \<Rightarrow> byte list option" where
  "path_temp k s = bs_path_scratch s (hk_cpu k)"

definition set_temp :: "hook_env \<Rightarrow> byte list \<Rightarrow> bpf_state \<Rightarrow> bpf_state" where
  "set_temp k p s = s\<lparr>bs_path_scratch := (bs_path_scratch s)(hk_cpu k := Some p)\<rparr>"

definition save_pending_open :: "hook_env \<Rightarrow> u32 \<Rightarrow> u64 \<Rightarrow> bpf_state \<Rightarrow> bpf_state" where
  "save_pending_open k pid path s =
     (if path_ignored_user k path then s
      else case path_temp k s of
        None \<Rightarrow> s
      | Some st \<Rightarrow>
          let p = fst (hk_read_str k st path);
              s1 = set_temp k p s
          in if hk_update_ok k then s1\<lparr>bs_pending_open := (bs_pending_open s1)(pid \<mapsto> p)\<rparr> else s1)"

definition save_fd_path :: "hook_env \<Rightarrow> u32 \<Rightarrow> u32 \<Rightarrow> u64 \<Rightarrow> bpf_state \<Rightarrow> bpf_state" where
  "save_fd_path k pid fd path s =
     (if fd > 1024 \<or> path_ignored_user k path then s
      else case path_temp k s of
        None \<Rightarrow> s
      | Some st \<Rightarrow>
          let p = fst (hk_read_str k st path);
              s1 = set_temp k p s
          in if hk_update_ok k then s1\<lparr>bs_fd_path := (bs_fd_path s1)((pid, fd) \<mapsto> p)\<rparr> else s1)"

definition delete_fd_path :: "u32 \<Rightarrow> u32 \<Rightarrow> bpf_state \<Rightarrow> bpf_state" where
  "delete_fd_path pid fd s = s\<lparr>bs_fd_path := (bs_fd_path s)((pid, fd) := None)\<rparr>"

definition lookup_fd_path :: "u32 \<Rightarrow> u32 \<Rightarrow> bpf_state \<Rightarrow> byte list option" where
  "lookup_fd_path pid fd s = bs_fd_path s (pid, fd)"

definition delete_pending :: "u32 \<Rightarrow> bpf_state \<Rightarrow> bpf_state" where
  "delete_pending pid s = s\<lparr>bs_pending_open := (bs_pending_open s)(pid := None)\<rparr>"

section \<open>Emitting\<close>

text \<open>A null pointer is the address 0.\<close>

definition emit_event ::
    "hook_env \<Rightarrow> string \<Rightarrow> string \<Rightarrow> u64 \<Rightarrow> u64 \<Rightarrow> u64 \<Rightarrow> u32 \<Rightarrow> u32 \<Rightarrow> u64 \<Rightarrow> bpf_state \<Rightarrow> bpf_state" where
  "emit_event k category action path old_path bytes fd aux syscall_nr s =
     (if should_skip k s then s
      else if path \<noteq> 0 \<and> path_ignored_user k path then s
      else if old_path \<noteq> 0 \<and> path_ignored_user k old_path then s
      else case reserve_event k s of
        (None, s1) \<Rightarrow> s1
      | (Some ev0, s1) \<Rightarrow>
          let ev1 = set_category_action k category action (fill_common k ev0);
              ev2 = ev1\<lparr>ke_bytes := bytes, ke_fd := fd, ke_aux := aux,
                ke_syscall_nr := ucast syscall_nr\<rparr>;
              ev3 = (if path \<noteq> 0 then ev2\<lparr>ke_path := read_path k (ke_path ev2) path\<rparr> else ev2);
              ev4 = (if old_path \<noteq> 0 then ev3\<lparr>ke_old_path := read_path k (ke_old_path ev3) old_path\<rparr>
                else ev3)
          in submit ev4 s1)"

definition emit_fd_io ::
    "hook_env \<Rightarrow> string \<Rightarrow> string \<Rightarrow> u32 \<Rightarrow> u64 \<Rightarrow> u64 \<Rightarrow> bpf_state \<Rightarrow> bpf_state" where
  "emit_fd_io k category action fd bytes syscall_nr s =
     (if should_skip k s then s
      else case lookup_fd_path (current_pid k) fd s of
        None \<Rightarrow> emit_event k category action 0 0 bytes fd 0 syscall_nr s
      | Some path \<Rightarrow>
          if path_ignored_prefix path then s
          else (case reserve_event k s of
              (None, s1) \<Rightarrow> s1
            | (Some ev0, s1) \<Rightarrow>
                let ev1 = set_category_action k category action (fill_common k ev0)
                in submit (ev1\<lparr>ke_bytes := bytes, ke_fd := fd, ke_syscall_nr := ucast syscall_nr,
                     ke_path := path\<rparr>) s1))"

text \<open>A value of two or four bytes read from user memory, in the machine's byte order.\<close>

definition read_user_word :: "hook_env \<Rightarrow> u64 \<Rightarrow> 'a::len word option" where
  "read_user_word k addr =
     map_option (\<lambda>bs. word_of_nat (le_val bs)) (hk_read_user k (LENGTH('a) div 8) addr)"

definition bswap16 :: "16 word \<Rightarrow> 16 word" where
  "bswap16 w = push_bit 8 w + drop_bit 8 w"

definition emit_sockaddr :: "hook_env \<Rightarrow> string \<Rightarrow> u64 \<Rightarrow> u64 \<Rightarrow> bpf_state \<Rightarrow> bpf_state" where
  "emit_sockaddr k action uaddr syscall_nr s =
     (if should_skip k s \<or> uaddr = 0 then s
      else
        let plain = emit_event k ''network'' action 0 0 0 (- 1) 0 syscall_nr s in
        case (read_user_word k uaddr :: 16 word option) of
          None \<Rightarrow> plain
        | Some family \<Rightarrow>
            if family \<noteq> 2 then plain
            else (case (read_user_word k (uaddr + 2) :: 16 word option) of
              None \<Rightarrow> plain
            | Some port \<Rightarrow>
                (case (read_user_word k (uaddr + 4) :: 32 word option) of
                   None \<Rightarrow> plain
                 | Some ip4 \<Rightarrow>
                     (case reserve_event k s of
                        (None, s1) \<Rightarrow> s1
                      | (Some ev0, s1) \<Rightarrow>
                          let ev1 = set_category_action k ''network'' action (fill_common k ev0);
                              ev2 = ev1\<lparr>ke_syscall_nr := ucast syscall_nr\<rparr>
                          in submit
                               (if hd action = CHR ''b'' \<or> hd action = CHR ''l''
                                then ev2\<lparr>ke_local_port := bswap16 port, ke_local_ip4 := ip4\<rparr>
                                else ev2\<lparr>ke_remote_port := bswap16 port, ke_remote_ip4 := ip4\<rparr>) s1))))"

definition handle_open_enter :: "nat \<Rightarrow> hook_env \<Rightarrow> sys_enter_ctx \<Rightarrow> bpf_state \<Rightarrow> bpf_state" where
  "handle_open_enter path_arg k ctx s =
     (let filename = te_args ctx path_arg
      in emit_event k ''file'' ''open'' filename 0 0 (- 1) (ucast (te_args ctx 2)) (te_id ctx)
           (save_pending_open k (current_pid k) filename s))"

text \<open>\<open>pending->path\<close> is an address inside the map, handed on to \<open>save_fd_path\<close>.\<close>

definition handle_open_exit :: "hook_env \<Rightarrow> sys_exit_ctx \<Rightarrow> bpf_state \<Rightarrow> bpf_state" where
  "handle_open_exit k ctx s =
     (let pid = current_pid k in
      if sint (tr_ret ctx) < 0 then delete_pending pid s
      else case bs_pending_open s pid of
        None \<Rightarrow> s
      | Some pending \<Rightarrow>
          delete_pending pid (save_fd_path k pid (ucast (tr_ret ctx)) (hk_value_addr k) s))"

section \<open>Programs on the scheduler's and the block layer's tracepoints\<close>

definition trace_sched_process_fork ::
    "hook_env \<Rightarrow> sched_process_fork_ctx \<Rightarrow> bpf_state \<Rightarrow> bpf_state" where
  "trace_sched_process_fork k ctx s =
     (if should_skip k s then s
      else case reserve_event k s of
        (None, s1) \<Rightarrow> s1
      | (Some ev0, s1) \<Rightarrow>
          let ev1 = set_category_action k ''process'' ''fork'' (fill_common k ev0)
          in submit (ev1\<lparr>ke_pid := tf_child_pid ctx, ke_aux := tf_parent_pid ctx,
               ke_comm := tf_child_comm ctx\<rparr>) s1)"

definition trace_sched_process_exit ::
    "hook_env \<Rightarrow> sched_process_exit_ctx \<Rightarrow> bpf_state \<Rightarrow> bpf_state" where
  "trace_sched_process_exit k ctx s =
     (if should_skip k s then s
      else case reserve_event k s of
        (None, s1) \<Rightarrow> s1
      | (Some ev0, s1) \<Rightarrow>
          let ev1 = (fill_common k ev0)\<lparr>ke_pid := tx_pid ctx, ke_comm := tx_comm ctx\<rparr>
          in submit (set_category_action k ''process'' ''exit'' ev1) s1)"

definition trace_block_rq_issue ::
    "hook_env \<Rightarrow> block_rq_issue_ctx \<Rightarrow> bpf_state \<Rightarrow> bpf_state" where
  "trace_block_rq_issue k ctx s =
     (if should_skip k s then s
      else case reserve_event k s of
        (None, s1) \<Rightarrow> s1
      | (Some ev0, s1) \<Rightarrow>
          let ev1 = set_category_action k ''block'' ''io'' (fill_common k ev0)
          in submit (ev1\<lparr>ke_bytes := ucast (tb_bytes ctx), ke_aux := tb_dev ctx,
               ke_syscall_nr := tb_nr_sector ctx, ke_comm := tb_comm ctx,
               ke_path := tb_rwbs ctx @ drop 8 (ke_path ev1)\<rparr>) s1)"

section \<open>Programs on the system calls\<close>

definition trace_sys_enter_close :: "hook_env \<Rightarrow> sys_enter_ctx \<Rightarrow> bpf_state \<Rightarrow> bpf_state" where
  "trace_sys_enter_close k ctx s =
     (let fd = ucast (te_args ctx 0)
      in emit_fd_io k ''file'' ''close'' fd 0 (te_id ctx) (delete_fd_path (current_pid k) fd s))"

text \<open>The programs by the event of their section \<open>tracepoint/syscalls\<close>, with their symbol and body.\<close>

type_synonym 'ctx program = "string \<times> string \<times> (hook_env \<Rightarrow> 'ctx \<Rightarrow> bpf_state \<Rightarrow> bpf_state)"

definition process_programs :: "sys_enter_ctx program list" where
  "process_programs = [
     (''sys_enter_execve'', ''trace_sys_enter_execve'',
       \<lambda>k c. emit_event k ''process'' ''exec'' (te_args c 0) 0 0 (- 1) 0 (te_id c)),
     (''sys_enter_execveat'', ''trace_sys_enter_execveat'',
       \<lambda>k c. emit_event k ''process'' ''exec'' (te_args c 1) 0 0 (- 1) 0 (te_id c)),
     (''sys_enter_clone'', ''trace_sys_enter_clone'',
       \<lambda>k c. emit_event k ''process'' ''clone'' 0 0 0 (- 1) (ucast (te_args c 0)) (te_id c)),
     (''sys_enter_clone3'', ''trace_sys_enter_clone3'',
       \<lambda>k c. emit_event k ''process'' ''clone'' 0 0 0 (- 1) 0 (te_id c)),
     (''sys_enter_kill'', ''trace_sys_enter_kill'',
       \<lambda>k c. emit_event k ''process'' ''kill'' 0 0 0 (ucast (te_args c 0)) (ucast (te_args c 1)) (te_id c)),
     (''sys_enter_tgkill'', ''trace_sys_enter_tgkill'',
       \<lambda>k c. emit_event k ''process'' ''kill'' 0 0 0 (ucast (te_args c 1)) (ucast (te_args c 2)) (te_id c))]"

definition open_programs :: "sys_enter_ctx program list" where
  "open_programs = [
     (''sys_enter_open'', ''trace_sys_enter_open'', handle_open_enter 0),
     (''sys_enter_openat'', ''trace_sys_enter_openat'', handle_open_enter 1),
     (''sys_enter_openat2'', ''trace_sys_enter_openat2'', handle_open_enter 1)]"

definition open_exit_programs :: "sys_exit_ctx program list" where
  "open_exit_programs = [
     (''sys_exit_open'', ''trace_sys_exit_open'', handle_open_exit),
     (''sys_exit_openat'', ''trace_sys_exit_openat'', handle_open_exit),
     (''sys_exit_openat2'', ''trace_sys_exit_openat2'', handle_open_exit)]"

definition descriptor_programs :: "sys_enter_ctx program list" where
  "descriptor_programs = [
     (''sys_enter_close'', ''trace_sys_enter_close'', trace_sys_enter_close),
     (''sys_enter_read'', ''trace_sys_enter_read'',
       \<lambda>k c. emit_fd_io k ''file'' ''read'' (ucast (te_args c 0)) (te_args c 2) (te_id c)),
     (''sys_enter_pread64'', ''trace_sys_enter_pread64'',
       \<lambda>k c. emit_fd_io k ''file'' ''read'' (ucast (te_args c 0)) (te_args c 2) (te_id c)),
     (''sys_enter_write'', ''trace_sys_enter_write'',
       \<lambda>k c. emit_fd_io k ''file'' ''write'' (ucast (te_args c 0)) (te_args c 2) (te_id c)),
     (''sys_enter_pwrite64'', ''trace_sys_enter_pwrite64'',
       \<lambda>k c. emit_fd_io k ''file'' ''write'' (ucast (te_args c 0)) (te_args c 2) (te_id c)),
     (''sys_enter_readv'', ''trace_sys_enter_readv'',
       \<lambda>k c. emit_fd_io k ''file'' ''read'' (ucast (te_args c 0)) 0 (te_id c)),
     (''sys_enter_writev'', ''trace_sys_enter_writev'',
       \<lambda>k c. emit_fd_io k ''file'' ''write'' (ucast (te_args c 0)) 0 (te_id c)),
     (''sys_enter_lseek'', ''trace_sys_enter_lseek'',
       \<lambda>k c. emit_fd_io k ''file'' ''seek'' (ucast (te_args c 0)) (te_args c 1) (te_id c)),
     (''sys_enter_truncate'', ''trace_sys_enter_truncate'',
       \<lambda>k c. emit_event k ''file'' ''truncate'' (te_args c 0) 0 (te_args c 1) (- 1) 0 (te_id c)),
     (''sys_enter_ftruncate'', ''trace_sys_enter_ftruncate'',
       \<lambda>k c. emit_fd_io k ''file'' ''truncate'' (ucast (te_args c 0)) (te_args c 1) (te_id c))]"

definition path_programs :: "sys_enter_ctx program list" where
  "path_programs = [
     (''sys_enter_unlinkat'', ''trace_sys_enter_unlinkat'',
       \<lambda>k c. emit_event k ''file'' ''unlink'' (te_args c 1) 0 0 (- 1) 0 (te_id c)),
     (''sys_enter_renameat2'', ''trace_sys_enter_renameat2'',
       \<lambda>k c. emit_event k ''file'' ''rename'' (te_args c 3) (te_args c 1) 0 (- 1) 0 (te_id c)),
     (''sys_enter_linkat'', ''trace_sys_enter_linkat'',
       \<lambda>k c. emit_event k ''file'' ''link'' (te_args c 3) (te_args c 1) 0 (- 1) 0 (te_id c)),
     (''sys_enter_symlinkat'', ''trace_sys_enter_symlinkat'',
       \<lambda>k c. emit_event k ''file'' ''symlink'' (te_args c 2) (te_args c 0) 0 (- 1) 0 (te_id c)),
     (''sys_enter_mkdirat'', ''trace_sys_enter_mkdirat'',
       \<lambda>k c. emit_event k ''file'' ''mkdir'' (te_args c 1) 0 0 (- 1) (ucast (te_args c 2)) (te_id c)),
     (''sys_enter_mkdir'', ''trace_sys_enter_mkdir'',
       \<lambda>k c. emit_event k ''file'' ''mkdir'' (te_args c 0) 0 0 (- 1) (ucast (te_args c 1)) (te_id c)),
     (''sys_enter_rmdir'', ''trace_sys_enter_rmdir'',
       \<lambda>k c. emit_event k ''file'' ''rmdir'' (te_args c 0) 0 0 (- 1) 0 (te_id c)),
     (''sys_enter_readlinkat'', ''trace_sys_enter_readlinkat'',
       \<lambda>k c. emit_event k ''file'' ''readlink'' (te_args c 1) 0 0 (- 1) 0 (te_id c)),
     (''sys_enter_chmod'', ''trace_sys_enter_chmod'',
       \<lambda>k c. emit_event k ''file'' ''chmod'' (te_args c 0) 0 0 (- 1) (ucast (te_args c 1)) (te_id c)),
     (''sys_enter_fchmod'', ''trace_sys_enter_fchmod'',
       \<lambda>k c. emit_fd_io k ''file'' ''chmod'' (ucast (te_args c 0)) (te_args c 1) (te_id c)),
     (''sys_enter_fchmodat'', ''trace_sys_enter_fchmodat'',
       \<lambda>k c. emit_event k ''file'' ''chmod'' (te_args c 1) 0 0 (- 1) (ucast (te_args c 2)) (te_id c)),
     (''sys_enter_chown'', ''trace_sys_enter_chown'',
       \<lambda>k c. emit_event k ''file'' ''chown'' (te_args c 0) 0 0 (- 1) (ucast (te_args c 1)) (te_id c)),
     (''sys_enter_fchown'', ''trace_sys_enter_fchown'',
       \<lambda>k c. emit_fd_io k ''file'' ''chown'' (ucast (te_args c 0)) (te_args c 1) (te_id c)),
     (''sys_enter_fchownat'', ''trace_sys_enter_fchownat'',
       \<lambda>k c. emit_event k ''file'' ''chown'' (te_args c 1) 0 0 (- 1) (ucast (te_args c 2)) (te_id c)),
     (''sys_enter_newfstatat'', ''trace_sys_enter_newfstatat'',
       \<lambda>k c. emit_event k ''file'' ''stat'' (te_args c 1) 0 0 (- 1) 0 (te_id c)),
     (''sys_enter_access'', ''trace_sys_enter_access'',
       \<lambda>k c. emit_event k ''file'' ''access'' (te_args c 0) 0 0 (- 1) (ucast (te_args c 1)) (te_id c)),
     (''sys_enter_faccessat'', ''trace_sys_enter_faccessat'',
       \<lambda>k c. emit_event k ''file'' ''access'' (te_args c 1) 0 0 (- 1) (ucast (te_args c 2)) (te_id c)),
     (''sys_enter_pipe2'', ''trace_sys_enter_pipe2'',
       \<lambda>k c. emit_event k ''file'' ''pipe'' 0 0 0 (- 1) (ucast (te_args c 1)) (te_id c)),
     (''sys_enter_dup'', ''trace_sys_enter_dup'',
       \<lambda>k c. emit_fd_io k ''file'' ''dup'' (ucast (te_args c 0)) 0 (te_id c)),
     (''sys_enter_dup2'', ''trace_sys_enter_dup2'',
       \<lambda>k c. emit_event k ''file'' ''dup'' 0 0 0 (ucast (te_args c 0)) (ucast (te_args c 1)) (te_id c)),
     (''sys_enter_dup3'', ''trace_sys_enter_dup3'',
       \<lambda>k c. emit_event k ''file'' ''dup'' 0 0 0 (ucast (te_args c 0)) (ucast (te_args c 1)) (te_id c))]"

definition memory_programs :: "sys_enter_ctx program list" where
  "memory_programs = [
     (''sys_enter_mmap'', ''trace_sys_enter_mmap'',
       \<lambda>k c. emit_fd_io k ''memory'' ''mmap'' (ucast (te_args c 4)) (te_args c 1) (te_id c)),
     (''sys_enter_munmap'', ''trace_sys_enter_munmap'',
       \<lambda>k c. emit_event k ''memory'' ''munmap'' 0 0 (te_args c 1) (- 1) 0 (te_id c)),
     (''sys_enter_mprotect'', ''trace_sys_enter_mprotect'',
       \<lambda>k c. emit_event k ''memory'' ''mprotect'' 0 0 (te_args c 1) (- 1) (ucast (te_args c 2)) (te_id c))]"

definition copy_programs :: "sys_enter_ctx program list" where
  "copy_programs = [
     (''sys_enter_sendfile'', ''trace_sys_enter_sendfile'',
       \<lambda>k c s. emit_fd_io k ''file'' ''write'' (ucast (te_args c 0)) (te_args c 2) (te_id c)
         (emit_fd_io k ''file'' ''read'' (ucast (te_args c 1)) (te_args c 2) (te_id c) s)),
     (''sys_enter_copy_file_range'', ''trace_sys_enter_copy_file_range'',
       \<lambda>k c s. emit_fd_io k ''file'' ''write'' (ucast (te_args c 2)) (te_args c 4) (te_id c)
         (emit_fd_io k ''file'' ''read'' (ucast (te_args c 0)) (te_args c 4) (te_id c) s)),
     (''sys_enter_splice'', ''trace_sys_enter_splice'',
       \<lambda>k c s. emit_fd_io k ''file'' ''write'' (ucast (te_args c 2)) (te_args c 4) (te_id c)
         (emit_fd_io k ''file'' ''read'' (ucast (te_args c 0)) (te_args c 4) (te_id c) s))]"

definition network_programs :: "sys_enter_ctx program list" where
  "network_programs = [
     (''sys_enter_socket'', ''trace_sys_enter_socket'',
       \<lambda>k c. emit_event k ''network'' ''socket'' 0 0 0 (- 1) (ucast (te_args c 0)) (te_id c)),
     (''sys_enter_connect'', ''trace_sys_enter_connect'',
       \<lambda>k c. emit_sockaddr k ''connect'' (te_args c 1) (te_id c)),
     (''sys_enter_bind'', ''trace_sys_enter_bind'',
       \<lambda>k c. emit_sockaddr k ''bind'' (te_args c 1) (te_id c)),
     (''sys_enter_listen'', ''trace_sys_enter_listen'',
       \<lambda>k c. emit_event k ''network'' ''listen'' 0 0 0 (ucast (te_args c 0)) (ucast (te_args c 1)) (te_id c)),
     (''sys_enter_accept'', ''trace_sys_enter_accept'',
       \<lambda>k c. emit_event k ''network'' ''accept'' 0 0 0 (ucast (te_args c 0)) 0 (te_id c)),
     (''sys_enter_accept4'', ''trace_sys_enter_accept4'',
       \<lambda>k c. emit_event k ''network'' ''accept'' 0 0 0 (ucast (te_args c 0)) (ucast (te_args c 3)) (te_id c)),
     (''sys_enter_sendto'', ''trace_sys_enter_sendto'',
       \<lambda>k c s. emit_sockaddr k ''send'' (te_args c 4) (te_id c)
         (emit_fd_io k ''network'' ''send'' (ucast (te_args c 0)) (te_args c 2) (te_id c) s)),
     (''sys_enter_recvfrom'', ''trace_sys_enter_recvfrom'',
       \<lambda>k c s. emit_sockaddr k ''recv'' (te_args c 4) (te_id c)
         (emit_fd_io k ''network'' ''recv'' (ucast (te_args c 0)) (te_args c 2) (te_id c) s)),
     (''sys_enter_sendmsg'', ''trace_sys_enter_sendmsg'',
       \<lambda>k c. emit_fd_io k ''network'' ''send'' (ucast (te_args c 0)) 0 (te_id c)),
     (''sys_enter_recvmsg'', ''trace_sys_enter_recvmsg'',
       \<lambda>k c. emit_fd_io k ''network'' ''recv'' (ucast (te_args c 0)) 0 (te_id c)),
     (''sys_enter_shutdown'', ''trace_sys_enter_shutdown'',
       \<lambda>k c. emit_fd_io k ''network'' ''shutdown'' (ucast (te_args c 0)) (te_args c 1) (te_id c))]"

definition sys_enter_programs :: "sys_enter_ctx program list" where
  "sys_enter_programs = process_programs @ open_programs @ descriptor_programs @ path_programs @
     memory_programs @ copy_programs @ network_programs"

text \<open>Every program of the object in the order of the source: group, event and symbol.\<close>

definition syscall_program :: "'ctx program \<Rightarrow> string \<times> string \<times> string" where
  "syscall_program = (\<lambda>(e, n, p). (''syscalls'', e, n))"

definition object_programs :: "(string \<times> string \<times> string) list" where
  "object_programs =
     [(''sched'', ''sched_process_fork'', ''trace_sched_process_fork''),
      (''sched'', ''sched_process_exit'', ''trace_sched_process_exit''),
      (''block'', ''block_rq_issue'', ''trace_block_rq_issue'')] @
     map syscall_program (process_programs @ open_programs) @
     map syscall_program open_exit_programs @
     map syscall_program (descriptor_programs @ path_programs @ memory_programs @ copy_programs @
       network_programs)"

section \<open>Runs\<close>

text \<open>
  What the kernel documents of the sizes: the command name has 16 bytes, a read fills no more than
  its buffer, the literals lie in memory that goes on for 16 bytes.
\<close>

definition hook_ok :: "hook_env \<Rightarrow> bool" where
  "hook_ok k \<longleftrightarrow> length (hk_comm k) = 16 \<and>
     (\<forall>dst a. length (fst (hk_read_str k dst a)) = length dst) \<and>
     (\<forall>lit. 16 \<le> length (hk_after k lit))"

text \<open>One run of a program, in an environment that satisfies \<open>K\<close>.\<close>

inductive bpf_step :: "(hook_env \<Rightarrow> bool) \<Rightarrow> bpf_state \<Rightarrow> bpf_state \<Rightarrow> bool" for K where
  step_fork: "K k \<Longrightarrow> length (tf_child_comm c) = 16 \<Longrightarrow> bpf_step K s (trace_sched_process_fork k c s)"
| step_exit: "K k \<Longrightarrow> length (tx_comm c) = 16 \<Longrightarrow> bpf_step K s (trace_sched_process_exit k c s)"
| step_block: "K k \<Longrightarrow> length (tb_comm c) = 16 \<Longrightarrow> length (tb_rwbs c) = 8 \<Longrightarrow>
    bpf_step K s (trace_block_rq_issue k c s)"
| step_enter: "K k \<Longrightarrow> (e, n, p) \<in> set sys_enter_programs \<Longrightarrow> bpf_step K s (p k c s)"
| step_leave: "K k \<Longrightarrow> (e, n, q) \<in> set open_exit_programs \<Longrightarrow> bpf_step K s (q k d s)"

inductive bpf_run :: "(hook_env \<Rightarrow> bool) \<Rightarrow> bpf_state \<Rightarrow> bpf_state \<Rightarrow> bool" for K s where
  run_start: "bpf_run K s s"
| run_step: "bpf_run K s s' \<Longrightarrow> bpf_step K s' s'' \<Longrightarrow> bpf_run K s s''"

text \<open>The maps as they are created, with \<open>self_pid\<close> as user space sets it before it attaches the
  programs.\<close>

definition bpf_init :: "u32 \<Rightarrow> bpf_state" where
  "bpf_init self = \<lparr>bs_records = [], bs_pending_open = Map.empty, bs_fd_path = Map.empty,
     bs_self_pid = Some self, bs_ringbuf_drops = (\<lambda>cpu. Some 0),
     bs_path_scratch = (\<lambda>cpu. Some (replicate 128 0)), bs_asked = 0\<rparr>"

end
