(* ===== verification/ProgramRuns.thy ===== *)
theory ProgramRuns imports KernelPrograms begin

text \<open>
  What all the programs of \<open>collector.bpf.c\<close> have in common. Each either leaves the ring buffer alone
  or attempts one record (\<open>attempt\<close>) per emission; the locale \<open>kernel_invariant\<close> states what an
  invariant must satisfy of the few operations the programs are made of, and gives it of every run.
\<close>

section \<open>Attempts\<close>

definition attempt :: "hook_env \<Rightarrow> collector_event \<Rightarrow> bpf_state \<Rightarrow> bpf_state" where
  "attempt k ev s = (case reserve_event k s of (None, s1) \<Rightarrow> s1 | (Some ev0, s1) \<Rightarrow> submit ev s1)"

lemma attempt_cases:
  "attempt k ev s =
    (if hk_reserve k (bs_asked s) then submit ev (s\<lparr>bs_asked := bs_asked s + 1\<rparr>)
     else count_ringbuf_drop k (s\<lparr>bs_asked := bs_asked s + 1\<rparr>))"
  by (simp add: attempt_def reserve_event_def Let_def)

lemma reserve_attempt:
  "(case reserve_event k s of (None, s1) \<Rightarrow> s1 | (Some ev0, s1) \<Rightarrow> submit (f ev0) s1) =
    attempt k (f zero_event) s"
  by (simp add: attempt_def reserve_event_def Let_def)

lemma count_drop_simps [simp]:
  "bs_records (count_ringbuf_drop k s) = bs_records s"
  "bs_pending_open (count_ringbuf_drop k s) = bs_pending_open s"
  "bs_fd_path (count_ringbuf_drop k s) = bs_fd_path s"
  "bs_self_pid (count_ringbuf_drop k s) = bs_self_pid s"
  "bs_path_scratch (count_ringbuf_drop k s) = bs_path_scratch s"
  "bs_asked (count_ringbuf_drop k s) = bs_asked s"
  by (simp_all add: count_ringbuf_drop_def split: option.split)

lemma submit_simps [simp]:
  "bs_records (submit ev s) = bs_records s @ [ev]"
  "bs_pending_open (submit ev s) = bs_pending_open s"
  "bs_fd_path (submit ev s) = bs_fd_path s"
  "bs_self_pid (submit ev s) = bs_self_pid s"
  "bs_ringbuf_drops (submit ev s) = bs_ringbuf_drops s"
  "bs_path_scratch (submit ev s) = bs_path_scratch s"
  "bs_asked (submit ev s) = bs_asked s"
  by (simp_all add: submit_def)

lemma attempt_simps [simp]:
  "bs_pending_open (attempt k ev s) = bs_pending_open s"
  "bs_fd_path (attempt k ev s) = bs_fd_path s"
  "bs_self_pid (attempt k ev s) = bs_self_pid s"
  "bs_path_scratch (attempt k ev s) = bs_path_scratch s"
  "bs_asked (attempt k ev s) = Suc (bs_asked s)"
  by (simp_all add: attempt_cases)

lemma attempt_records:
  "bs_records (attempt k ev s) = bs_records s @ (if hk_reserve k (bs_asked s) then [ev] else [])"
  by (simp add: attempt_cases)

section \<open>The records built\<close>

text \<open>The fields every record has in common, and those of each kind of emission.\<close>

definition labelled :: "hook_env \<Rightarrow> string \<Rightarrow> string \<Rightarrow> collector_event" where
  "labelled k category action = set_category_action k category action (fill_common k zero_event)"

definition path_field :: "hook_env \<Rightarrow> u64 \<Rightarrow> byte list" where
  "path_field k a = (if a = 0 then replicate 128 0 else read_path k (replicate 128 0) a)"

definition event_record ::
    "hook_env \<Rightarrow> string \<Rightarrow> string \<Rightarrow> u64 \<Rightarrow> u64 \<Rightarrow> u64 \<Rightarrow> u32 \<Rightarrow> u32 \<Rightarrow> u64 \<Rightarrow> collector_event" where
  "event_record k category action path old_path bytes fd aux nr =
     (labelled k category action)\<lparr>ke_bytes := bytes, ke_fd := fd, ke_aux := aux,
       ke_syscall_nr := ucast nr, ke_path := path_field k path, ke_old_path := path_field k old_path\<rparr>"

lemma labelled_simps [simp]:
  "ke_category (labelled k c a) = literal_bytes k c"
  "ke_action (labelled k c a) = literal_bytes k a"
  "ke_pid (labelled k c a) = current_pid k"
  "ke_uid (labelled k c a) = ucast (hk_uid_gid k)"
  "ke_ts_ns (labelled k c a) = hk_boot_ns k"
  "ke_comm (labelled k c a) = hk_comm k"
  "ke_path (labelled k c a) = replicate 128 0"
  "ke_old_path (labelled k c a) = replicate 128 0"
  "ke_fd (labelled k c a) = 0"
  "ke_aux (labelled k c a) = 0"
  "ke_syscall_nr (labelled k c a) = 0"
  "ke_local_port (labelled k c a) = 0" "ke_remote_port (labelled k c a) = 0"
  "ke_local_ip4 (labelled k c a) = 0" "ke_remote_ip4 (labelled k c a) = 0"
  "ke_bytes (labelled k c a) = 0"
  by (simp_all add: labelled_def set_category_action_def fill_common_def zero_event_def)

text \<open>The paths an emission looks at; an ignored one ends it.\<close>

definition ignored_path :: "hook_env \<Rightarrow> u64 \<Rightarrow> bool" where
  "ignored_path k a \<longleftrightarrow> a \<noteq> 0 \<and> path_ignored_user k a"

lemma ignored_path_null [simp]: "\<not> ignored_path k 0"
  by (simp add: ignored_path_def)

lemma emit_event_attempt:
  "emit_event k category action path old_path bytes fd aux nr s =
    (if should_skip k s \<or> ignored_path k path \<or> ignored_path k old_path then s
     else attempt k (event_record k category action path old_path bytes fd aux nr) s)"
  by (auto simp: emit_event_def reserve_event_def attempt_def ignored_path_def Let_def event_record_def
      labelled_def path_field_def set_category_action_def fill_common_def zero_event_def)

lemma emit_fd_io_attempt:
  "emit_fd_io k category action fd bytes nr s =
    (case bs_fd_path s (current_pid k, fd) of
       None \<Rightarrow> (if should_skip k s then s
         else attempt k (event_record k category action 0 0 bytes fd 0 nr) s)
     | Some path \<Rightarrow> (if should_skip k s \<or> path_ignored_prefix path then s
         else attempt k ((event_record k category action 0 0 bytes fd 0 nr)\<lparr>ke_path := path\<rparr>) s))"
  by (auto simp: emit_fd_io_def emit_event_attempt lookup_fd_path_def reserve_event_def attempt_def Let_def
      event_record_def labelled_def path_field_def set_category_action_def fill_common_def zero_event_def
      split: option.split)

definition sockaddr_record :: "hook_env \<Rightarrow> string \<Rightarrow> 16 word \<Rightarrow> 32 word \<Rightarrow> u64 \<Rightarrow> collector_event" where
  "sockaddr_record k action port ip4 nr =
     (let ev = (labelled k ''network'' action)\<lparr>ke_syscall_nr := ucast nr\<rparr> in
      if hd action = CHR ''b'' \<or> hd action = CHR ''l''
      then ev\<lparr>ke_local_port := bswap16 port, ke_local_ip4 := ip4\<rparr>
      else ev\<lparr>ke_remote_port := bswap16 port, ke_remote_ip4 := ip4\<rparr>)"

text \<open>The address as user memory has it, if it is an IPv4 one that can be read.\<close>

definition user_sockaddr :: "hook_env \<Rightarrow> u64 \<Rightarrow> (16 word \<times> 32 word) option" where
  "user_sockaddr k a =
     (case (read_user_word k a :: 16 word option) of
        None \<Rightarrow> None
      | Some family \<Rightarrow>
          if family \<noteq> 2 then None
          else (case (read_user_word k (a + 2), read_user_word k (a + 4)) of
              (Some port, Some ip4) \<Rightarrow> Some (port, ip4)
            | _ \<Rightarrow> None))"

lemma emit_sockaddr_attempt:
  "emit_sockaddr k action a nr s =
    (if should_skip k s \<or> a = 0 then s
     else case user_sockaddr k a of
       None \<Rightarrow> attempt k (event_record k ''network'' action 0 0 0 (- 1) 0 nr) s
     | Some (port, ip4) \<Rightarrow> attempt k (sockaddr_record k action port ip4 nr) s)"
  by (auto simp: emit_sockaddr_def user_sockaddr_def emit_event_attempt reserve_event_def attempt_def
      Let_def sockaddr_record_def labelled_def split: option.split)

lemma fork_attempt:
  "trace_sched_process_fork k c s =
    (if should_skip k s then s
     else attempt k ((labelled k ''process'' ''fork'')\<lparr>ke_pid := tf_child_pid c,
       ke_aux := tf_parent_pid c, ke_comm := tf_child_comm c\<rparr>) s)"
  by (auto simp: trace_sched_process_fork_def reserve_event_def attempt_def Let_def labelled_def)

lemma exit_attempt:
  "trace_sched_process_exit k c s =
    (if should_skip k s then s
     else attempt k ((labelled k ''process'' ''exit'')\<lparr>ke_pid := tx_pid c, ke_comm := tx_comm c\<rparr>) s)"
  by (auto simp: trace_sched_process_exit_def reserve_event_def attempt_def Let_def labelled_def
      set_category_action_def)

lemma block_attempt:
  "trace_block_rq_issue k c s =
    (if should_skip k s then s
     else attempt k ((labelled k ''block'' ''io'')\<lparr>ke_bytes := ucast (tb_bytes c), ke_aux := tb_dev c,
       ke_syscall_nr := tb_nr_sector c, ke_comm := tb_comm c,
       ke_path := tb_rwbs c @ replicate 120 0\<rparr>) s)"
  by (auto simp: trace_block_rq_issue_def reserve_event_def attempt_def Let_def
      labelled_def set_category_action_def fill_common_def zero_event_def)

lemmas emissions = emit_event_attempt emit_fd_io_attempt emit_sockaddr_attempt

section \<open>Strings\<close>

lemma unat_ch: "unat (ch c) = of_char c"
proof -
  have "(of_char c :: nat) < 256" by simp
  then show ?thesis by (simp add: ch_def unat_of_nat)
qed

lemma char_of_ch [simp]: "char_of (unat (ch c)) = c"
  by (simp add: unat_ch)

lemma ch_inject [simp]: "ch c = ch d \<longleftrightarrow> c = d"
  by (metis char_of_ch)

lemma ch_0 [simp]: "ch c = 0 \<longleftrightarrow> c = CHR 0x00"
proof -
  have "ch CHR 0x00 = 0" by (simp add: ch_def)
  then show ?thesis by (metis ch_inject)
qed

definition c_string :: "string \<Rightarrow> bool" where
  "c_string s \<longleftrightarrow> CHR 0x00 \<notin> set s"

lemma cstring_ch: "c_string s \<Longrightarrow> cstring (map ch s @ 0 # rest) = s"
  by (induction s) (auto simp: c_string_def)

lemma cstring_zeros [simp]: "0 < n \<Longrightarrow> cstring (replicate n 0) = []"
  by (cases n) simp_all

definition short_label :: "string \<Rightarrow> bool" where
  "short_label l \<longleftrightarrow> c_string l \<and> length l < 16"

lemma literal_bytes_label:
  "short_label l \<Longrightarrow> literal_bytes k l = map ch l @ 0 # take (15 - length l) (hk_after k l)"
  by (simp add: literal_bytes_def short_label_def take_Cons')

lemma cstring_literal [simp]: "short_label l \<Longrightarrow> cstring (literal_bytes k l) = l"
  by (simp add: literal_bytes_label cstring_ch short_label_def)

lemma length_literal [simp]:
  assumes "hook_ok k"
  shows "length (literal_bytes k l) = 16"
proof -
  from assms have "16 \<le> length (hk_after k l)" by (simp add: hook_ok_def)
  then show ?thesis by (simp add: literal_bytes_def)
qed

section \<open>Labels and shapes\<close>

text \<open>The categories and actions the programs label their events with.\<close>

definition event_labels :: "(string \<times> string) list" where
  "event_labels =
     map (Pair ''process'') [''fork'', ''exit'', ''exec'', ''clone'', ''kill''] @
     [(''block'', ''io'')] @
     map (Pair ''file'') [''open'', ''close'', ''read'', ''write'', ''seek'', ''truncate'', ''unlink'',
       ''rename'', ''link'', ''symlink'', ''mkdir'', ''rmdir'', ''readlink'', ''chmod'', ''chown'',
       ''stat'', ''access'', ''pipe'', ''dup''] @
     map (Pair ''memory'') [''mmap'', ''munmap'', ''mprotect''] @
     map (Pair ''network'') [''socket'', ''connect'', ''bind'', ''listen'', ''accept'', ''send'',
       ''recv'', ''shutdown'']"

lemma event_labels_short: "\<forall>(c, a) \<in> set event_labels. short_label c \<and> short_label a"
  by (simp add: event_labels_def short_label_def c_string_def)

lemma event_label_short:
  "(c, a) \<in> set event_labels \<Longrightarrow> short_label c" "(c, a) \<in> set event_labels \<Longrightarrow> short_label a"
  using event_labels_short by auto

definition wf_paths :: "bpf_state \<Rightarrow> bool" where
  "wf_paths s \<longleftrightarrow> (\<forall>p \<in> ran (bs_pending_open s). length p = 128) \<and>
     (\<forall>p \<in> ran (bs_fd_path s). length p = 128) \<and>
     (\<forall>cpu. \<exists>p. bs_path_scratch s cpu = Some p \<and> length p = 128)"

text \<open>What is true of every record a program attempts.\<close>

definition record_from :: "bpf_state \<Rightarrow> collector_event \<Rightarrow> bool" where
  "record_from s ev \<longleftrightarrow> event_shape ev \<and>
     (cstring (ke_category ev), cstring (ke_action ev)) \<in> set event_labels \<and>
     (cstring (ke_category ev) \<noteq> ''block'' \<longrightarrow> ke_fd ev \<noteq> - 1 \<longrightarrow>
       ke_path ev = replicate 128 0 \<or> ke_path ev \<in> ran (bs_fd_path s))"

lemma length_path_field [simp]: "hook_ok k \<Longrightarrow> length (path_field k a) = 128"
  by (simp add: path_field_def read_path_def hook_ok_def)

lemma event_record_from:
  assumes "hook_ok k" and "(c, a) \<in> set event_labels" and "path = 0 \<or> fd = - 1"
  shows "record_from s (event_record k c a path old_path bytes fd aux nr)"
  using assms event_label_short [OF assms(2)]
  by (auto simp: record_from_def event_shape_def event_record_def path_field_def hook_ok_def read_path_def)

lemma fd_record_from:
  assumes "hook_ok k" and "(c, a) \<in> set event_labels" and "wf_paths s" and "path \<in> ran (bs_fd_path s)"
  shows "record_from s ((event_record k c a 0 0 bytes fd 0 nr)\<lparr>ke_path := path\<rparr>)"
  using assms event_label_short [OF assms(2)]
  by (auto simp: record_from_def event_shape_def event_record_def path_field_def hook_ok_def wf_paths_def)

lemma sockaddr_record_from:
  assumes "hook_ok k" and "(''network'', a) \<in> set event_labels"
  shows "record_from s (sockaddr_record k a port ip4 nr)"
  using assms event_label_short [OF assms(2)]
  by (auto simp: record_from_def event_shape_def sockaddr_record_def Let_def hook_ok_def)

lemma labels_of_hooks:
  "(''process'', ''fork'') \<in> set event_labels" "(''process'', ''exit'') \<in> set event_labels"
  "(''block'', ''io'') \<in> set event_labels" "(''file'', ''open'') \<in> set event_labels"
  "(''file'', ''close'') \<in> set event_labels"
  by (simp_all add: event_labels_def)

lemma process_from:
  assumes "hook_ok k" and "(c, a) \<in> set event_labels" and "c \<noteq> ''block''" and "length comm = 16"
  shows "record_from s ((labelled k c a)\<lparr>ke_pid := pid, ke_aux := aux, ke_comm := comm\<rparr>)"
    and "record_from s ((labelled k c a)\<lparr>ke_pid := pid, ke_comm := comm\<rparr>)"
  using assms event_label_short [OF assms(2)]
  by (auto simp: record_from_def event_shape_def)

lemma block_from:
  assumes "hook_ok k" and "length comm = 16" and "length rwbs = 8"
  shows "record_from s ((labelled k ''block'' ''io'')\<lparr>ke_bytes := n, ke_aux := dev,
    ke_syscall_nr := sectors, ke_comm := comm, ke_path := rwbs @ replicate 120 0\<rparr>)"
  using assms labels_of_hooks(3) event_label_short [OF labels_of_hooks(3)]
  by (auto simp: record_from_def event_shape_def)

section \<open>Invariants of runs\<close>

text \<open>The operations the programs are made of; what keeps an invariant under them keeps it
  under every program.\<close>

locale kernel_invariant =
  fixes I :: "bpf_state \<Rightarrow> bool" and K :: "hook_env \<Rightarrow> bool"
  assumes hooks: "K k \<Longrightarrow> hook_ok k"
    and paths: "I s \<Longrightarrow> wf_paths s"
    and attempts: "K k \<Longrightarrow> I s \<Longrightarrow> record_from s ev \<Longrightarrow> I (attempt k ev s)"
    and saves_open: "K k \<Longrightarrow> I s \<Longrightarrow> I (save_pending_open k pid a s)"
    and saves_fd: "K k \<Longrightarrow> I s \<Longrightarrow> I (save_fd_path k pid fd (hk_value_addr k) s)"
    and forgets_fd: "I s \<Longrightarrow> I (delete_fd_path pid fd s)"
    and forgets_open: "I s \<Longrightarrow> I (delete_pending pid s)"
begin

lemma emit_event_keeps:
  assumes "K k" "I s" "(c, a) \<in> set event_labels" "path = 0 \<or> fd = - 1"
  shows "I (emit_event k c a path old_path bytes fd aux nr s)"
  using assms by (simp add: emit_event_attempt attempts event_record_from hooks)

lemma emit_fd_io_keeps:
  assumes "K k" "I s" "(c, a) \<in> set event_labels"
  shows "I (emit_fd_io k c a fd bytes nr s)"
  using assms
  by (auto simp: emit_fd_io_attempt attempts event_record_from fd_record_from hooks paths ranI
      split: option.split)

lemma emit_sockaddr_keeps:
  assumes "K k" "I s" "(''network'', a) \<in> set event_labels"
  shows "I (emit_sockaddr k a addr nr s)"
  using assms
  by (auto simp: emit_sockaddr_attempt attempts event_record_from sockaddr_record_from hooks
      split: option.split)

lemma open_enter_keeps: "K k \<Longrightarrow> I s \<Longrightarrow> I (handle_open_enter i k c s)"
  by (simp add: handle_open_enter_def Let_def emit_event_keeps saves_open labels_of_hooks)

lemma open_exit_keeps: "K k \<Longrightarrow> I s \<Longrightarrow> I (handle_open_exit k d s)"
  by (auto simp: handle_open_exit_def Let_def saves_fd forgets_open split: option.split)

lemma close_keeps: "K k \<Longrightarrow> I s \<Longrightarrow> I (trace_sys_enter_close k c s)"
  by (simp add: trace_sys_enter_close_def Let_def emit_fd_io_keeps forgets_fd labels_of_hooks)

lemmas parts_keep = emit_event_keeps emit_fd_io_keeps emit_sockaddr_keeps open_enter_keeps close_keeps

lemma enter_keeps:
  assumes "K k" and "I s"
  shows "\<forall>(e, n, p) \<in> set sys_enter_programs. I (p k c s)"
  using assms
  by (simp add: sys_enter_programs_def process_programs_def open_programs_def descriptor_programs_def
      path_programs_def memory_programs_def copy_programs_def network_programs_def
      parts_keep event_labels_def)

lemma step_keeps: "bpf_step K s s' \<Longrightarrow> I s \<Longrightarrow> I s'"
proof (induction rule: bpf_step.induct)
  case (step_fork k c s)
  then show ?case
    by (simp add: fork_attempt attempts process_from [OF hooks labels_of_hooks(1)])
next
  case (step_exit k c s)
  then show ?case
    by (simp add: exit_attempt attempts process_from [OF hooks labels_of_hooks(2)])
next
  case (step_block k c s)
  then show ?case by (simp add: block_attempt attempts block_from hooks)
next
  case (step_enter k e n p s c)
  with enter_keeps show ?case by fastforce
next
  case (step_leave k e n q s d)
  then show ?case by (auto simp: open_exit_programs_def open_exit_keeps)
qed

lemma run_keeps: "bpf_run K s s' \<Longrightarrow> I s \<Longrightarrow> I s'"
  by (induction rule: bpf_run.induct) (auto intro: step_keeps)

end

end
