(* ===== verification/ProgramProps.thy ===== *)
theory ProgramProps imports ProgramRuns KernelProps begin

text \<open>
  The properties of the kernel programs, most of them together with the user space side: which
  tracepoint runs which program, that every record is decoded and every lost one counted, what
  becomes of a system call's path and of a socket address, and what the path filter passes.
\<close>

section \<open>The records of a run\<close>

lemma save_cases:
  assumes "r = save_pending_open k pid a s \<or> r = save_fd_path k pid fd a s"
  shows "bs_records r = bs_records s" "bs_ringbuf_drops r = bs_ringbuf_drops s"
    "bs_asked r = bs_asked s" "bs_self_pid r = bs_self_pid s"
  using assms
  by (auto simp: save_pending_open_def save_fd_path_def set_temp_def Let_def split: option.split)

lemmas save_open_simps [simp] = save_cases [OF disjI1, OF refl]
lemmas save_fd_simps [simp] = save_cases [OF disjI2, OF refl]

lemma delete_simps [simp]:
  "bs_records (delete_fd_path pid fd s) = bs_records s"
  "bs_records (delete_pending pid s) = bs_records s"
  "bs_ringbuf_drops (delete_fd_path pid fd s) = bs_ringbuf_drops s"
  "bs_ringbuf_drops (delete_pending pid s) = bs_ringbuf_drops s"
  "bs_asked (delete_fd_path pid fd s) = bs_asked s"
  "bs_asked (delete_pending pid s) = bs_asked s"
  "bs_fd_path (delete_pending pid s) = bs_fd_path s"
  by (simp_all add: delete_fd_path_def delete_pending_def)

lemma ran_upd: "x \<in> ran (m(a := v)) \<Longrightarrow> x \<in> ran m \<or> v = Some x"
  by (auto simp: ran_def split: if_splits)

lemma wf_paths_save:
  assumes "hook_ok k" and "wf_paths s"
  shows "wf_paths (save_pending_open k pid a s)" and "wf_paths (save_fd_path k pid fd a s)"
proof -
  obtain st where st: "bs_path_scratch s (hk_cpu k) = Some st" "length st = 128"
    using assms(2) unfolding wf_paths_def by blast
  have "length (fst (hk_read_str k st a)) = 128" using assms(1) st by (simp add: hook_ok_def)
  with assms(2) st show "wf_paths (save_pending_open k pid a s)" "wf_paths (save_fd_path k pid fd a s)"
    by (auto simp: wf_paths_def save_pending_open_def save_fd_path_def path_temp_def set_temp_def Let_def
        dest!: ran_upd)
qed

lemma wf_paths_delete:
  "wf_paths s \<Longrightarrow> wf_paths (delete_fd_path pid fd s)" "wf_paths s \<Longrightarrow> wf_paths (delete_pending pid s)"
  by (auto simp: wf_paths_def delete_fd_path_def delete_pending_def dest: ran_upd)

lemma wf_paths_attempt [simp]: "wf_paths (attempt k ev s) = wf_paths s"
  by (simp add: wf_paths_def)

lemma wf_paths_init [simp]: "wf_paths (bpf_init self)"
  by (simp add: wf_paths_def bpf_init_def)

text \<open>What user space reads of \<open>ringbuf_drops\<close> on a machine with \<open>n\<close> CPUs.\<close>

definition per_cpu_drops :: "nat \<Rightarrow> bpf_state \<Rightarrow> u64 list" where
  "per_cpu_drops n s = map (\<lambda>cpu. case bs_ringbuf_drops s cpu of None \<Rightarrow> 0 | Some d \<Rightarrow> d) [0..<n]"

definition hook_on :: "nat \<Rightarrow> hook_env \<Rightarrow> bool" where
  "hook_on n k \<longleftrightarrow> hook_ok k \<and> hk_cpu k < n"

definition good_record :: "collector_event \<Rightarrow> bool" where
  "good_record ev \<longleftrightarrow> event_shape ev \<and>
     (cstring (ke_category ev), cstring (ke_action ev)) \<in> set event_labels"

definition accounted :: "nat \<Rightarrow> bpf_state \<Rightarrow> bool" where
  "accounted n s \<longleftrightarrow> wf_paths s \<and> (\<forall>ev \<in> set (bs_records s). good_record ev) \<and>
     (\<forall>cpu. bs_ringbuf_drops s cpu \<noteq> None) \<and>
     of_nat (bs_asked s) = of_nat (length (bs_records s)) + sum_list (per_cpu_drops n s)"

lemma sum_list_bump:
  "i < n \<Longrightarrow> sum_list (map (f(i := f i + (1 :: u64))) [0..<n]) = sum_list (map f [0..<n]) + 1"
proof (induction n)
  case (Suc n)
  show ?case
  proof (cases "i = n")
    case True
    have "map (f(n := f n + 1)) [0..<n] = map f [0..<n]" by (rule map_cong) auto
    with True show ?thesis by (simp del: fun_upd_apply add: fun_upd_same)
  next
    case False
    with Suc show ?thesis by simp
  qed
qed simp

lemma drops_counted:
  assumes "bs_ringbuf_drops s (hk_cpu k) \<noteq> None" and "hk_cpu k < n"
  shows "sum_list (per_cpu_drops n (count_ringbuf_drop k s)) = sum_list (per_cpu_drops n s) + 1"
proof -
  let ?f = "\<lambda>cpu. case bs_ringbuf_drops s cpu of None \<Rightarrow> 0 | Some d \<Rightarrow> d"
  obtain d where d: "bs_ringbuf_drops s (hk_cpu k) = Some d" using assms(1) by blast
  have "(\<lambda>cpu. case bs_ringbuf_drops (count_ringbuf_drop k s) cpu of None \<Rightarrow> 0 | Some d \<Rightarrow> d) =
      ?f(hk_cpu k := ?f (hk_cpu k) + 1)"
    by (rule ext) (simp add: count_ringbuf_drop_def d)
  then show ?thesis using sum_list_bump [OF assms(2), of ?f] by (simp add: per_cpu_drops_def)
qed

lemma accounted_attempt:
  assumes "hook_on n k" and "accounted n s" and "record_from s ev"
  shows "accounted n (attempt k ev s)"
proof -
  let ?s1 = "s\<lparr>bs_asked := bs_asked s + 1\<rparr>"
  have same: "per_cpu_drops n ?s1 = per_cpu_drops n s" by (simp add: per_cpu_drops_def)
  have "hk_cpu k < n" using assms(1) by (simp add: hook_on_def)
  moreover have "bs_ringbuf_drops ?s1 (hk_cpu k) \<noteq> None" using assms(2) by (simp add: accounted_def)
  ultimately have "sum_list (per_cpu_drops n (count_ringbuf_drop k ?s1)) =
      sum_list (per_cpu_drops n s) + 1" using drops_counted [of ?s1 k n] same by simp
  moreover have "per_cpu_drops n (submit ev ?s1) = per_cpu_drops n s"
    by (simp add: per_cpu_drops_def)
  moreover have "wf_paths (attempt k ev s)" using assms(2) by (simp add: accounted_def)
  moreover have "bs_ringbuf_drops (count_ringbuf_drop k ?s1) cpu \<noteq> None" for cpu
    using assms(2) by (auto simp: accounted_def count_ringbuf_drop_def split: option.split)
  ultimately show ?thesis
    using assms(2,3) by (auto simp: accounted_def attempt_cases good_record_def record_from_def)
qed

lemma per_cpu_drops_cong: "bs_ringbuf_drops r = bs_ringbuf_drops s \<Longrightarrow> per_cpu_drops n r = per_cpu_drops n s"
  by (simp add: per_cpu_drops_def)

lemma accounted_saves:
  assumes "hook_on n k" and "accounted n s"
  shows "accounted n (save_pending_open k pid a s)" and "accounted n (save_fd_path k pid fd a s)"
  using assms by (simp_all add: accounted_def wf_paths_save hook_on_def
      per_cpu_drops_cong [OF save_open_simps(2)] per_cpu_drops_cong [OF save_fd_simps(2)])

lemma accounted_deletes:
  assumes "accounted n s"
  shows "accounted n (delete_fd_path pid fd s)" and "accounted n (delete_pending pid s)"
  using assms by (simp_all add: accounted_def wf_paths_delete
      per_cpu_drops_cong [OF delete_simps(3)] per_cpu_drops_cong [OF delete_simps(4)])

interpretation acct: kernel_invariant "accounted n" "hook_on n" for n
proof unfold_locales
  show "hook_ok k" if "hook_on n k" for k using that by (simp add: hook_on_def)
  show "wf_paths s" if "accounted n s" for s using that by (simp add: accounted_def)
qed (fact accounted_attempt accounted_saves accounted_deletes)+

lemma accounted_init: "accounted n (bpf_init self)"
proof -
  have "sum_list (map (\<lambda>cpu. 0 :: u64) xs) = 0" for xs :: "nat list" by (induction xs) auto
  then show ?thesis by (simp add: accounted_def bpf_init_def per_cpu_drops_def)
      (simp add: wf_paths_def)
qed

section \<open>Tracepoints and programs\<close>

lemma object_table:
  "map (\<lambda>tp. (tp_group tp, tp_event tp, tp_program tp)) collector_tracepoints = object_programs"
  by (simp add: collector_tracepoints_def object_programs_def process_programs_def
      open_programs_def descriptor_programs_def path_programs_def memory_programs_def copy_programs_def
      network_programs_def open_exit_programs_def syscall_program_def)

lemma map_filter_cong:
  "(\<And>x. x \<in> set xs \<Longrightarrow> f x = g x) \<Longrightarrow> List.map_filter f xs = List.map_filter g xs"
  by (induction xs) (auto simp: List.map_filter_simps split: option.split)

definition in_object :: "string \<Rightarrow> bool" where
  "in_object n \<longleftrightarrow> n \<in> (\<lambda>(g, e, p). p) ` set object_programs"

text \<open>
  C14: The tracepoint table and the programs of \<open>collector.bpf.c\<close> agree: the same groups, events and
  programs in the same order, so that \<open>attachTracepoints\<close> never misses a program of this object and
  gives one link for each tracepoint the kernel lets it attach.
\<close>

theorem every_tracepoint_has_its_program:
  "map (\<lambda>tp. (tp_group tp, tp_event tp, tp_program tp)) collector_tracepoints = object_programs \<and>
   attach_tracepoints in_object attach =
     (let links = List.map_filter attach collector_tracepoints in
      Inr (links, int (length links), 63 - int (length links)))"
proof -
  have found: "in_object (tp_program tp)" if "tp \<in> set collector_tracepoints" for tp
    using that by (force simp: in_object_def simp flip: object_table)
  then have "filter (required_missing in_object) collector_tracepoints = []"
    by (simp add: filter_empty_conv required_missing_def)
  moreover have "List.map_filter (try_attach in_object attach) collector_tracepoints =
      List.map_filter attach collector_tracepoints"
    using found by (intro map_filter_cong) (simp add: try_attach_def)
  moreover have "length collector_tracepoints = 63" by (simp add: collector_tracepoints_def)
  ultimately show ?thesis
    by (simp add: attach_tracepoints_def attach_loop_result object_table)
qed

section \<open>From the ring buffer to the events\<close>

lemma source_loop_records:
  assumes "\<forall>ke \<in> set kes. event_shape ke" and "length ds = length kes"
    and "source_loop fs boot (map2 (\<lambda>ke d. Record (encode_event ke) d True) kes ds) st = (evs, st', r)"
  shows "list_all2 (\<lambda>ke ev. \<exists>d. ev = convert_kernel_event fs boot ke d) kes evs \<and>
    ss_decode_errors st' = ss_decode_errors st \<and>
    (ds \<noteq> [] \<longrightarrow> ss_last_dropped st' = read_ringbuf_drops (last ds))"
  using assms
proof (induction kes arbitrary: ds st evs)
  case (Cons ke kes)
  obtain d ds1 where ds: "ds = d # ds1" using Cons.prems(2) by (cases ds) auto
  have dec: "decode_kernel_event (encode_event ke) = Inr ke"
    using Cons.prems(1) decode_iff_encoded [of "encode_event ke" ke] by simp
  obtain ev st1 where st1: "stamp_record fs boot ke d st = (ev, st1)" by fastforce
  obtain evs1 where evs: "evs = ev # evs1"
    and loop: "source_loop fs boot (map2 (\<lambda>ke d. Record (encode_event ke) d True) kes ds1) st1 =
      (evs1, st', r)"
    using Cons.prems(3) by (auto simp: ds dec st1 split: prod.splits)
  have head: "\<exists>d. ev = convert_kernel_event fs boot ke d" and "ss_decode_errors st1 = ss_decode_errors st"
    and "ss_last_dropped st1 = read_ringbuf_drops d"
    using st1 by (auto simp: stamp_record_def Let_def)
  moreover have "ds1 = [] \<Longrightarrow> st' = st1" using loop by simp
  ultimately show ?case
    using Cons.IH [OF _ _ loop] Cons.prems(1,2) by (auto simp: ds evs)
qed simp

text \<open>
  C3: Nothing the kernel side tried to report is lost without being counted. After any run of the
  programs, in which the ring buffer may have refused any of the reservations, on any CPUs, user
  space decodes every record without an error, and the events it makes of them and their
  \<open>DroppedBefore\<close> counts add up, in 64 bits, to the number of events the programs asked room for.
\<close>

theorem kernel_events_are_delivered_or_counted:
  assumes "bpf_run (hook_on n) (bpf_init self) s"
    and "length ds = length (bs_records s)" and "bs_records s \<noteq> []"
    and "last ds = Some (Some (per_cpu_drops n s))"
    and "source_loop fs boot (map2 (\<lambda>ke d. Record (encode_event ke) d True) (bs_records s) ds)
      source_init = (evs, st, r)"
  shows "list_all2 (\<lambda>ke ev. \<exists>d. ev = convert_kernel_event fs boot ke d) (bs_records s) evs \<and>
    ss_decode_errors st = 0 \<and>
    wrap64 (int (length evs) + sum_list (map ev_dropped_before evs)) = wrap64 (int (bs_asked s))"
proof -
  have acc: "accounted n s" by (rule acct.run_keeps [OF assms(1) accounted_init])
  then have "\<forall>ke \<in> set (bs_records s). event_shape ke" by (simp add: accounted_def good_record_def)
  note loop = source_loop_records [OF this assms(2,5)]
  have "ds \<noteq> []" using assms(2,3) by auto
  with loop assms(4) have last: "ss_last_dropped st = sum_list (per_cpu_drops n s)"
    by (simp add: read_ringbuf_drops_def)
  have "word_of_int (sum_list (map ev_dropped_before evs)) = ss_last_dropped st"
    using source_loop_drops [OF assms(5)] by (fastforce simp: source_init_def)
  moreover have "length evs = length (bs_records s)" using loop list_all2_lengthD by fastforce
  ultimately have "word_of_int (int (length evs) + sum_list (map ev_dropped_before evs)) =
      (word_of_int (int (bs_asked s)) :: u64)"
    using acc last by (simp add: accounted_def)
  then show ?thesis using loop by (simp add: wrap64_sint source_init_def)
qed

text \<open>A machine for examples: a reader of strings as \<open>bpf_probe_read_user_str\<close> is documented (the
  string and its NUL, cut to the buffer, the bytes behind left alone; a negative result at an
  address that cannot be read), and a task 42 that runs \<open>vi\<close>.\<close>

definition string_reader :: "(u64 \<rightharpoonup> string) \<Rightarrow> byte list \<Rightarrow> u64 \<Rightarrow> byte list \<times> int" where
  "string_reader m dst a =
     (case m a of
        None \<Rightarrow> (replicate (length dst) 0, - 14)
      | Some p \<Rightarrow>
          if dst = [] then ([], 0)
          else
            let q = take (length dst - 1) p
            in (map ch q @ 0 # drop (Suc (length q)) dst, int (length q) + 1))"

lemma length_string_reader [simp]: "length (fst (string_reader m dst a)) = length dst"
  by (auto simp: string_reader_def Let_def min_def split: option.split) (cases dst, simp_all)

definition sample_hook :: "(nat \<Rightarrow> bool) \<Rightarrow> hook_env" where
  "sample_hook room = \<lparr>hk_pid_tgid = 42 * 2 ^ 32 + 43, hk_uid_gid = 1000, hk_boot_ns = 7,
     hk_comm = map ch ''vi'' @ replicate 14 0, hk_cpu = 0,
     hk_read_str = string_reader [4096 \<mapsto> ''/etc/hosts''],
     hk_read_user = (\<lambda>n a. if a = 8192 then Some [2, 0] else if a = 8194 then Some [1, 187]
       else if a = 8196 then Some [10, 0, 0, 7] else None),
     hk_reserve = room, hk_update_ok = True,
     hk_value_addr = 2 ^ 63, hk_after = (\<lambda>l. replicate 16 0)\<rparr>"

lemma sample_hook_on: "hook_on 1 (sample_hook room)"
  by (simp add: hook_on_def hook_ok_def sample_hook_def)

lemma sample_pid [simp]: "current_pid (sample_hook room) = 42"
proof -
  have "drop_bit 32 (42 * 2 ^ 32 + 43 :: u64) = 42" by code_simp
  then show ?thesis by (simp add: current_pid_def sample_hook_def)
qed

lemma sample_hook_reserve [simp]: "hk_reserve (sample_hook room) = room"
  by (simp add: sample_hook_def)

lemma enter_stepI:
  "(e, n, p) \<in> set sys_enter_programs \<Longrightarrow> K k \<Longrightarrow> s' = p k c s \<Longrightarrow> bpf_step K s s'"
  by (simp add: step_enter)

text \<open>A run in which the first of two records gets room.\<close>

definition clone_record :: collector_event where
  "clone_record = event_record (sample_hook (\<lambda>i. i = 0)) ''process'' ''clone'' 0 0 0 (- 1) 0 56"

lemma sample_run:
  "\<exists>s. bpf_run (hook_on 1) (bpf_init 1) s \<and> bs_asked s = 2 \<and> bs_records s = [clone_record]"
proof -
  let ?k = "sample_hook (\<lambda>i. i = 0)"
  let ?c = "\<lparr>te_id = 56, te_args = \<lambda>i. 0\<rparr>"
  define clone :: "hook_env \<Rightarrow> sys_enter_ctx \<Rightarrow> bpf_state \<Rightarrow> bpf_state" where
    "clone = (\<lambda>k c. emit_event k ''process'' ''clone'' 0 0 0 (- 1) (ucast (te_args c 0)) (te_id c))"
  define s where "s = clone ?k ?c (clone ?k ?c (bpf_init 1))"
  have "(''sys_enter_clone'', ''trace_sys_enter_clone'', clone) \<in> set sys_enter_programs"
    by (simp add: clone_def sys_enter_programs_def process_programs_def)
  then have step: "bpf_step (hook_on 1) s' (clone ?k ?c s')" for s'
    by (rule enter_stepI) (simp_all add: sample_hook_on [simplified])
  have "bpf_run (hook_on 1) (bpf_init 1) s"
    unfolding s_def by (rule run_step [OF run_step [OF run_start step] step])
  moreover have "bs_asked s = 2" and "bs_records s = [clone_record]"
    by (simp_all add: s_def clone_def emit_event_attempt should_skip_def attempt_records bpf_init_def
        clone_record_def)
  ultimately show ?thesis by blast
qed

theorem kernel_events_are_delivered_or_counted_witness:
  "\<exists>s ds evs st r. bpf_run (hook_on 1) (bpf_init 1) s \<and> bs_asked s = 2 \<and> length evs = 1 \<and>
     source_loop (\<lambda>p. Inl (Err ''none'')) 0
       (map2 (\<lambda>ke d. Record (encode_event ke) d True) (bs_records s) ds) source_init = (evs, st, r) \<and>
     wrap64 (1 + sum_list (map ev_dropped_before evs)) = 2"
proof -
  obtain s where s: "bpf_run (hook_on 1) (bpf_init 1) s" "bs_asked s = 2" "bs_records s = [clone_record]"
    using sample_run by blast
  let ?ds = "[Some (Some (per_cpu_drops 1 s))]"
  obtain evs st r where loop: "source_loop (\<lambda>p. Inl (Err ''none'')) 0
      (map2 (\<lambda>ke d. Record (encode_event ke) d True) (bs_records s) ?ds) source_init = (evs, st, r)"
    by (metis prod_cases3)
  have "length ?ds = length (bs_records s)" "bs_records s \<noteq> []" by (simp_all add: s)
  from kernel_events_are_delivered_or_counted [OF s(1) this _ loop] s
  have "length evs = 1 \<and> wrap64 (1 + sum_list (map ev_dropped_before evs)) = 2"
    by (auto simp: wrap64_def list_all2_Cons1)
  with s loop show ?thesis by blast
qed

section \<open>Its own activity\<close>

lemma skip_emissions:
  assumes "should_skip k s"
  shows "emit_event k c a p q n fd aux nr s = s" "emit_fd_io k c a fd n nr s = s"
    "emit_sockaddr k a addr nr s = s"
  using assms by (simp_all add: emissions split: option.split)

lemma skip_state_change:
  assumes "should_skip k s"
  shows "should_skip k (save_pending_open k pid a s)" "should_skip k (delete_fd_path pid fd s)"
  using assms by (simp_all add: should_skip_def delete_fd_path_def)

lemma skip_quiet:
  assumes "should_skip k s"
  shows "\<forall>(e, n, p) \<in> set sys_enter_programs. bs_records (p k c s) = bs_records s \<and>
    bs_ringbuf_drops (p k c s) = bs_ringbuf_drops s \<and> bs_self_pid (p k c s) = bs_self_pid s"
proof -
  have "bs_self_pid (delete_fd_path pid fd s) = bs_self_pid s" for pid fd
    by (simp add: delete_fd_path_def)
  then show ?thesis
    by (simp add: sys_enter_programs_def process_programs_def open_programs_def
        descriptor_programs_def path_programs_def memory_programs_def copy_programs_def
        network_programs_def handle_open_enter_def trace_sys_enter_close_def Let_def
        skip_emissions skip_state_change assms)
qed

text \<open>
  C12: The recorder never reports itself: a program run for a task of the process whose id user space
  stored in \<open>self_pid\<close> adds no record and counts no drop.
\<close>

theorem own_activity_is_not_recorded:
  assumes "bpf_step (\<lambda>k. current_pid k = self) s s'" and "bs_self_pid s = Some self"
  shows "bs_records s' = bs_records s \<and> bs_ringbuf_drops s' = bs_ringbuf_drops s \<and>
    bs_self_pid s' = Some self"
  using assms
proof (induction rule: bpf_step.induct)
  case (step_enter k e n p s c)
  then have "should_skip k s" by (simp add: should_skip_def)
  from skip_quiet [OF this] step_enter show ?case by fastforce
next
  case (step_leave k e n q s d)
  then show ?case
    by (auto simp: open_exit_programs_def handle_open_exit_def Let_def delete_pending_def
        split: option.split)
qed (simp_all add: fork_attempt exit_attempt block_attempt should_skip_def)

theorem own_activity_is_not_recorded_witness:
  "\<exists>s'. bpf_step (\<lambda>k. current_pid k = 42) (bpf_init 42) s' \<and> bs_pending_open s' 42 \<noteq> None \<and>
     bs_records s' = []"
proof -
  let ?k = "sample_hook (\<lambda>i. True)"
  let ?c = "\<lparr>te_id = 257, te_args = \<lambda>i. 4096\<rparr>"
  let ?s = "handle_open_enter 1 ?k ?c (bpf_init 42)"
  have "(''sys_enter_openat'', ''trace_sys_enter_openat'', handle_open_enter 1) \<in> set sys_enter_programs"
    by (simp add: sys_enter_programs_def open_programs_def)
  then have step: "bpf_step (\<lambda>k. current_pid k = 42) (bpf_init 42) ?s"
    by (rule enter_stepI) simp_all
  have "bs_pending_open ?s 42 \<noteq> None"
    by (simp add: handle_open_enter_def Let_def emit_event_attempt save_pending_open_def
        path_ignored_user_def path_temp_def set_temp_def should_skip_def bpf_init_def)
      (simp add: sample_hook_def string_reader_def path_ignored_prefix_def Let_def eval_nat_numeral)
  with step own_activity_is_not_recorded [OF step] show ?thesis by (auto simp: bpf_init_def)
qed

end
