(* ===== verification/ProgramPaths.thy ===== *)
theory ProgramPaths imports ProgramProps begin

text \<open>
  What the kernel programs do with the paths and the socket addresses of system calls: which paths
  their filter lets through, and what of a path or an address arrives in the event that user space
  makes of the record. A descriptor's path is looked up in \<open>fd_path\<close>, which \<open>handle_open_exit\<close> fills.
\<close>

section \<open>Strings in user memory\<close>

text \<open>
  The string \<open>p\<close> can be read at the address \<open>a\<close>: \<open>bpf_probe_read_user_str\<close> answers as documented,
  with the string and its NUL in the buffer, cut to its size, and their number.
\<close>

definition string_at :: "hook_env \<Rightarrow> u64 \<Rightarrow> string \<Rightarrow> bool" where
  "string_at k a p \<longleftrightarrow> c_string p \<and> (\<forall>dst. dst \<noteq> [] \<longrightarrow> hk_read_str k dst a =
     (map ch (take (length dst - 1) p) @ 0 # drop (Suc (min (length dst - 1) (length p))) dst,
      int (min (length dst - 1) (length p)) + 1))"

text \<open>A path argument: a null pointer, or a string.\<close>

definition path_at :: "hook_env \<Rightarrow> u64 \<Rightarrow> string \<Rightarrow> bool" where
  "path_at k a p \<longleftrightarrow> (if a = 0 then p = [] else string_at k a p)"

lemma c_string_take: "c_string p \<Longrightarrow> c_string (take n p)"
  by (auto simp: c_string_def dest: in_set_takeD)

lemma cstring_path_field: "path_at k a p \<Longrightarrow> cstring (path_field k a) = take 127 p"
  by (auto simp: path_at_def path_field_def read_path_def string_at_def cstring_ch c_string_take
      split: if_splits)

section \<open>The path filter\<close>

text \<open>What the filter makes of a string: it looks at the first six bytes of its buffer of seven.\<close>

definition kernel_ignores :: "string \<Rightarrow> bool" where
  "kernel_ignores p \<longleftrightarrow> path_ignored_prefix (map ch (take 6 p) @ replicate (7 - length (take 6 p)) 0)"

definition kernel_rules :: "string list" where
  "kernel_rules = [''/proc'', ''/sys'', ''/dev'']"

fun nth0 :: "string \<Rightarrow> nat \<Rightarrow> char" where
  "nth0 [] i = CHR 0x00"
| "nth0 (c # s) 0 = c"
| "nth0 (c # s) (Suc i) = nth0 s i"

lemma nth0_bytes: "i < 6 \<Longrightarrow> (map ch (take 6 p) @ replicate (7 - length (take 6 p)) 0) ! i = ch (nth0 p i)"
proof -
  have "nth0 p i = (if i < length p then p ! i else CHR 0x00)"
    by (induction p i rule: nth0.induct) auto
  moreover assume "i < 6"
  ultimately show ?thesis by (simp add: nth_append min_def)
qed

lemma rule_chars:
  assumes "c_string p" and "c_string r"
  shows "p = r \<or> prefix (r @ [slash]) p \<longleftrightarrow>
    (\<forall>i < length r. nth0 p i = r ! i) \<and> (nth0 p (length r) = CHR 0x00 \<or> nth0 p (length r) = slash)"
  using assms
proof (induction r arbitrary: p)
  case Nil
  then show ?case by (cases p) (auto simp: c_string_def)
next
  case (Cons c r)
  show ?case
  proof (cases p)
    case Nil
    with Cons.prems show ?thesis by (auto simp: c_string_def)
  next
    case (Cons d q)
    with Cons.prems Cons.IH [of q] show ?thesis
      by (auto simp: c_string_def All_less_Suc2)
  qed
qed

definition matches_at :: "string \<Rightarrow> string \<Rightarrow> bool" where
  "matches_at p r \<longleftrightarrow> (\<forall>i < length r. nth0 p i = r ! i) \<and>
     (nth0 p (length r) = CHR 0x00 \<or> nth0 p (length r) = slash)"

lemma matches_at_rules:
  "matches_at p ''/proc'' \<longleftrightarrow> nth0 p 0 = slash \<and> nth0 p 1 = CHR ''p'' \<and> nth0 p 2 = CHR ''r'' \<and>
    nth0 p 3 = CHR ''o'' \<and> nth0 p 4 = CHR ''c'' \<and> (nth0 p 5 = CHR 0x00 \<or> nth0 p 5 = slash)"
  "matches_at p ''/sys'' \<longleftrightarrow> nth0 p 0 = slash \<and> nth0 p 1 = CHR ''s'' \<and> nth0 p 2 = CHR ''y'' \<and>
    nth0 p 3 = CHR ''s'' \<and> (nth0 p 4 = CHR 0x00 \<or> nth0 p 4 = slash)"
  "matches_at p ''/dev'' \<longleftrightarrow> nth0 p 0 = slash \<and> nth0 p 1 = CHR ''d'' \<and> nth0 p 2 = CHR ''e'' \<and>
    nth0 p 3 = CHR ''v'' \<and> (nth0 p 4 = CHR 0x00 \<or> nth0 p 4 = slash)"
  by (simp_all add: matches_at_def numeral_eq_Suc All_less_Suc2)

lemma kernel_ignores_matches:
  "kernel_ignores p \<longleftrightarrow> matches_at p ''/proc'' \<or> matches_at p ''/sys'' \<or> matches_at p ''/dev''"
  by (simp only: kernel_ignores_def path_ignored_prefix_def nth0_bytes path_boundary_def matches_at_rules
      ch_0 ch_inject) argo

lemma kernel_ignores_rules:
  assumes "c_string p"
  shows "kernel_ignores p \<longleftrightarrow> rule_loop p kernel_rules"
proof -
  have "c_string r" if "r \<in> set kernel_rules" for r
    using that by (auto simp: kernel_rules_def c_string_def)
  then have "rule_loop p kernel_rules \<longleftrightarrow> (\<exists>r \<in> set kernel_rules. matches_at p r)"
    using rule_chars [OF assms] by (auto simp: rule_loop_iff matches_at_def)
  then show ?thesis by (simp add: kernel_ignores_matches kernel_rules_def)
qed

lemma path_ignored_string:
  assumes "string_at k a p"
  shows "path_ignored_user k a \<longleftrightarrow> kernel_ignores p"
proof -
  have "(0 :: byte) # replicate (6 - m) 0 = replicate (7 - m) 0" if "m \<le> 6" for m
    using that by (simp add: Suc_diff_le flip: replicate_Suc)
  then have "hk_read_str k (replicate 7 0) a =
      (map ch (take 6 p) @ replicate (7 - length (take 6 p)) 0, int (min 6 (length p)) + 1)"
    using assms by (simp add: string_at_def min.commute)
  then show ?thesis by (simp add: path_ignored_user_def kernel_ignores_def)
qed

lemma ignored_path_at: "path_at k a p \<Longrightarrow> ignored_path k a \<longleftrightarrow> kernel_ignores p"
proof -
  have "\<not> kernel_ignores []" by (simp add: kernel_ignores_matches matches_at_rules)
  then show "path_at k a p \<Longrightarrow> ?thesis"
    by (auto simp: path_at_def ignored_path_def path_ignored_string split: if_splits)
qed

lemma kernel_rules_default: "set kernel_rules \<subseteq> set (new_ignore_rules extra)"
proof -
  have "set kernel_rules \<subseteq> path_clean ` (trim_space ` set default_ignore_paths - {[]})" by code_simp
  then show ?thesis
    unfolding new_ignore_rules_def set_normalize_ignore_rules
    by (rule subset_trans) (intro image_mono Diff_mono, auto)
qed

text \<open>
  C13: The kernel's filter is the first three default rules of user space: on a path that is clean
  already (no \<open>.\<close>, \<open>..\<close> or doubled slash), \<open>path_ignored_user\<close> answers what \<open>shouldIgnorePath\<close> does
  with \<open>/proc\<close>, \<open>/sys\<close> and \<open>/dev\<close>, so that it never drops such a path that the collector, with
  whatever further rules, would have kept.
\<close>

theorem kernel_filter_is_the_default_rules:
  assumes "string_at k a p" and "path_clean p = p"
  shows "(path_ignored_user k a \<longleftrightarrow> should_ignore_path kernel_rules p) \<and>
    (path_ignored_user k a \<longrightarrow> should_ignore_path (new_ignore_rules extra) p)"
proof -
  have "p \<noteq> []" using assms(2) by (auto simp: path_clean_def path_comps_def is_rooted_def clean_step_def)
  moreover have "c_string p" using assms(1) by (simp add: string_at_def)
  ultimately show ?thesis
    using kernel_rules_default [of extra] assms
    by (auto simp: path_ignored_string kernel_ignores_rules should_ignore_path_def rule_loop_iff)
qed

lemma sample_string: "string_at (sample_hook room) 4096 ''/etc/hosts''"
  by (simp add: string_at_def sample_hook_def string_reader_def Let_def c_string_def min.commute)

theorem kernel_filter_is_the_default_rules_witness:
  "\<not> path_ignored_user (sample_hook (\<lambda>i. True)) 4096 \<and> \<not> should_ignore_path kernel_rules ''/etc/hosts''"
proof -
  have "path_clean ''/etc/hosts'' = ''/etc/hosts''" and "\<not> should_ignore_path kernel_rules ''/etc/hosts''"
    by code_simp+
  with kernel_filter_is_the_default_rules [OF sample_string this(1)] show ?thesis by blast
qed

text \<open>On a path that is not clean they differ: the kernel compares the string as it is.\<close>

lemma unclean_path_is_dropped:
  "kernel_ignores ''/proc/../etc/passwd'' \<and>
   \<not> should_ignore_path (new_ignore_rules []) ''/proc/../etc/passwd''"
  by code_simp

section \<open>What conversion makes of paths and addresses\<close>

text \<open>The fields the steps of the conversion leave alone, together, and those they set.\<close>

definition label_part :: "event \<Rightarrow> string \<times> string \<times> int \<times> int" where
  "label_part ev = (ev_category ev, ev_action ev, ev_local_port ev, ev_remote_port ev)"

lemma label_part_steps [simp]:
  "label_part (add_local_addr ke ev) = label_part ev"
  "label_part (add_remote_addr ke ev) = label_part ev"
  "label_part (add_exe ev) = label_part ev"
  "label_part (as_block ke ev) = label_part ev"
  "label_part (add_fork_parent ke ev) = label_part ev"
  "label_part (add_target ke ev) = label_part ev"
  "label_part (add_parent fs ev) = label_part ev"
  "label_part (add_listen_fd ke ev) = label_part ev"
  by (simp_all add: label_part_def add_local_addr_def add_remote_addr_def add_exe_def as_block_def
      add_fork_parent_def add_target_def add_parent_def add_listen_fd_def split: option.splits)

lemma label_fields:
  "label_part ev = label_part ev' \<Longrightarrow> ev_category ev = ev_category ev'"
  "label_part ev = label_part ev' \<Longrightarrow> ev_action ev = ev_action ev'"
  "label_part ev = label_part ev' \<Longrightarrow> ev_local_port ev = ev_local_port ev'"
  "label_part ev = label_part ev' \<Longrightarrow> ev_remote_port ev = ev_remote_port ev'"
  by (simp_all add: label_part_def)

lemma own_path_steps:
  "ev_path (add_local_addr ke ev) = ev_path ev"
  "ev_path (add_remote_addr ke ev) = ev_path ev"
  "ev_path (add_exe ev) = ev_path ev"
  "ev_path (as_block ke ev) = (if ev_category ev = ''block'' then [] else ev_path ev)"
  "ev_path (add_fork_parent ke ev) = ev_path ev"
  "ev_path (add_target ke ev) = ev_path ev"
  "ev_path (add_parent fs ev) = ev_path ev"
  "ev_path (add_listen_fd ke ev) = ev_path ev"
  by (simp_all add: is_kind_def add_local_addr_def add_remote_addr_def add_exe_def as_block_def
      add_fork_parent_def add_target_def add_parent_def add_listen_fd_def split: option.split)

lemma exe_steps:
  "ev_exe (add_local_addr ke ev) = ev_exe ev"
  "ev_exe (add_remote_addr ke ev) = ev_exe ev"
  "ev_exe (add_exe ev) = (if ev_category ev = ''process'' \<and> ev_action ev = ''exec'' \<and> ev_path ev \<noteq> [] then ev_path ev else ev_exe ev)"
  "ev_exe (as_block ke ev) = ev_exe ev"
  "ev_exe (add_fork_parent ke ev) = ev_exe ev"
  "ev_exe (add_target ke ev) = ev_exe ev"
  "ev_exe (add_parent fs ev) = ev_exe ev"
  "ev_exe (add_listen_fd ke ev) = ev_exe ev"
  by (simp_all add: is_kind_def add_local_addr_def add_remote_addr_def add_exe_def as_block_def
      add_fork_parent_def add_target_def add_parent_def add_listen_fd_def split: option.split)

lemma local_addr_steps:
  "ev_local_addr (add_local_addr ke ev) = (if ke_local_ip4 ke \<noteq> 0 then ipv4_string (ke_local_ip4 ke) else ev_local_addr ev)"
  "ev_local_addr (add_remote_addr ke ev) = ev_local_addr ev"
  "ev_local_addr (add_exe ev) = ev_local_addr ev"
  "ev_local_addr (as_block ke ev) = ev_local_addr ev"
  "ev_local_addr (add_fork_parent ke ev) = ev_local_addr ev"
  "ev_local_addr (add_target ke ev) = ev_local_addr ev"
  "ev_local_addr (add_parent fs ev) = ev_local_addr ev"
  "ev_local_addr (add_listen_fd ke ev) = ev_local_addr ev"
  by (simp_all add: is_kind_def add_local_addr_def add_remote_addr_def add_exe_def as_block_def
      add_fork_parent_def add_target_def add_parent_def add_listen_fd_def split: option.split)

lemma remote_addr_steps:
  "ev_remote_addr (add_local_addr ke ev) = ev_remote_addr ev"
  "ev_remote_addr (add_remote_addr ke ev) = (if ke_remote_ip4 ke \<noteq> 0 then ipv4_string (ke_remote_ip4 ke) else ev_remote_addr ev)"
  "ev_remote_addr (add_exe ev) = ev_remote_addr ev"
  "ev_remote_addr (as_block ke ev) = ev_remote_addr ev"
  "ev_remote_addr (add_fork_parent ke ev) = ev_remote_addr ev"
  "ev_remote_addr (add_target ke ev) = ev_remote_addr ev"
  "ev_remote_addr (add_parent fs ev) = ev_remote_addr ev"
  "ev_remote_addr (add_listen_fd ke ev) = ev_remote_addr ev"
  by (simp_all add: is_kind_def add_local_addr_def add_remote_addr_def add_exe_def as_block_def
      add_fork_parent_def add_target_def add_parent_def add_listen_fd_def split: option.split)

lemmas path_steps = own_path_steps exe_steps local_addr_steps remote_addr_steps

lemma convert_labels:
  "label_part (convert_kernel_event fs boot ke d) = (cstring (ke_category ke), cstring (ke_action ke),
    uint (ke_local_port ke), uint (ke_remote_port ke))"
  by (simp add: convert_kernel_event_def Let_def) (simp add: label_part_def base_event_def)

lemma step_labels [simp]:
  "ev_category (add_exe ev) = ev_category ev" "ev_category (add_local_addr ke ev) = ev_category ev"
  "ev_category (add_remote_addr ke ev) = ev_category ev" "ev_action (add_local_addr ke ev) = ev_action ev"
  "ev_action (add_remote_addr ke ev) = ev_action ev"
  by (rule label_fields, simp)+

lemma base_event_paths:
  "ev_path (base_event boot ke d) = cstring (ke_path ke)" "ev_exe (base_event boot ke d) = []"
  "ev_local_addr (base_event boot ke d) = []" "ev_remote_addr (base_event boot ke d) = []"
  by (simp_all add: base_event_def empty_event_def)

lemma convert_path:
  "ev_path (convert_kernel_event fs boot ke d) =
    (if cstring (ke_category ke) = ''block'' then [] else cstring (ke_path ke))"
  by (simp add: convert_kernel_event_def Let_def path_steps base_event_paths)

lemma convert_exe:
  "ev_exe (convert_kernel_event fs boot ke d) =
    (if cstring (ke_category ke) = ''process'' \<and> cstring (ke_action ke) = ''exec''
     then cstring (ke_path ke) else [])"
  by (simp add: convert_kernel_event_def Let_def path_steps base_event_paths)

lemma convert_address:
  "ev_local_port (convert_kernel_event fs boot ke d) = uint (ke_local_port ke)"
  "ev_remote_port (convert_kernel_event fs boot ke d) = uint (ke_remote_port ke)"
  "ev_local_addr (convert_kernel_event fs boot ke d) =
    (if ke_local_ip4 ke = 0 then [] else ipv4_string (ke_local_ip4 ke))"
  "ev_remote_addr (convert_kernel_event fs boot ke d) =
    (if ke_remote_ip4 ke = 0 then [] else ipv4_string (ke_remote_ip4 ke))"
  using convert_labels [of fs boot ke d]
  by (simp_all add: label_part_def) (simp_all add: convert_kernel_event_def Let_def path_steps base_event_paths)

section \<open>Paths of system calls\<close>

text \<open>What an emission whose reservation gets room leaves behind.\<close>

lemma attempt_room:
  "hk_reserve k (bs_asked s) \<Longrightarrow> bs_records (attempt k ev s) = bs_records s @ [ev]"
  by (simp add: attempt_records)

lemma decode_encoded: "event_shape ke \<Longrightarrow> decode_kernel_event (encode_event ke) = Inr ke"
  using decode_iff_encoded [of "encode_event ke" ke] by simp

text \<open>
  C4: From the system call to the event: where a program calls \<open>emit_event\<close> with path arguments that
  user memory holds as strings, outside the recorder's own process and with room in the ring buffer,
  it emits nothing if the filter ignores one of the paths, and otherwise one record, which user
  space decodes and turns into an event of the program's category and action with the task's
  process and user id, the boot-time clock and both paths, cut to 127 bytes; an \<open>exec\<close>'s path is its
  \<open>Exe\<close> too.
\<close>

theorem system_call_reaches_user_space:
  assumes "hook_ok k" and "(c, a) \<in> set event_labels" and "c \<noteq> ''block''"
    and "path_at k path p" and "path_at k old_path q"
    and "\<not> should_skip k s" and "hk_reserve k (bs_asked s)"
  shows "if kernel_ignores p \<or> kernel_ignores q
    then emit_event k c a path old_path bytes fd aux nr s = s
    else \<exists>ke. bs_records (emit_event k c a path old_path bytes fd aux nr s) = bs_records s @ [ke] \<and>
      decode_kernel_event (encode_event ke) = Inr ke \<and>
      (let ev = convert_kernel_event fs boot ke d in
       ev_category ev = c \<and> ev_action ev = a \<and> ev_pid ev = uint (current_pid k) \<and>
       ev_uid ev = uint (ucast (hk_uid_gid k) :: u32) \<and> ev_timestamp ev = boot + sint (hk_boot_ns k) \<and>
       ev_path ev = take 127 p \<and> ev_old_path ev = take 127 q \<and>
       (c = ''process'' \<and> a = ''exec'' \<longrightarrow> ev_exe ev = take 127 p))"
proof (cases "kernel_ignores p \<or> kernel_ignores q")
  case True
  then show ?thesis using assms(4,5) by (auto simp: emit_event_attempt ignored_path_at)
next
  case False
  let ?ke = "event_record k c a path old_path bytes fd aux nr"
  have "short_label c" "short_label a" using event_label_short [OF assms(2)] by auto
  then have "bs_records (emit_event k c a path old_path bytes fd aux nr s) = bs_records s @ [?ke]"
    and shape: "event_shape ?ke"
    using False assms
    by (simp_all add: emit_event_attempt ignored_path_at attempt_room event_shape_def event_record_def
        hook_ok_def [of k])
  with False \<open>short_label c\<close> \<open>short_label a\<close> show ?thesis
    using cstring_path_field [OF assms(4)] cstring_path_field [OF assms(5)] assms(3)
      event_label_short [of "''process''" "''exec''"]
    by (intro if_not_P [THEN iffD2] exI [of _ ?ke] conjI)
      (simp_all add: decode_encoded convert_path convert_exe event_record_def Let_def event_labels_def)
qed

theorem system_call_reaches_user_space_witness:
  "\<exists>ke. bs_records (emit_event (sample_hook (\<lambda>i. True)) ''process'' ''exec'' 4096 0 0 (- 1) 0 59
      (bpf_init 1)) = [ke] \<and>
     ev_exe (convert_kernel_event (\<lambda>p. Inl (Err ''none'')) 0 ke 0) = ''/etc/hosts'' \<and>
     ev_pid (convert_kernel_event (\<lambda>p. Inl (Err ''none'')) 0 ke 0) = 42"
proof -
  let ?k = "sample_hook (\<lambda>i. True)"
  have ok: "hook_ok ?k" using sample_hook_on [of "\<lambda>i. True"] by (simp add: hook_on_def)
  have label: "(''process'', ''exec'') \<in> set event_labels" by (simp add: event_labels_def)
  have skip: "\<not> should_skip ?k (bpf_init 1)" by (simp add: should_skip_def bpf_init_def)
  have path: "path_at ?k 4096 ''/etc/hosts''" "path_at ?k 0 []"
    by (simp_all add: path_at_def sample_string)
  have room: "hk_reserve ?k (bs_asked (bpf_init 1))" by simp
  have "\<not> kernel_ignores ''/etc/hosts''" "\<not> kernel_ignores []"
    by (simp_all add: kernel_ignores_matches matches_at_rules)
  then show ?thesis
    using system_call_reaches_user_space [OF ok label _ path skip room, where fs = "\<lambda>p. Inl (Err ''none'')"
        and boot = 0 and d = 0 and bytes = 0 and fd = "- 1" and aux = 0 and nr = 59]
    by (auto simp: Let_def bpf_init_def)
qed

section \<open>Socket addresses\<close>

lemma unat_bswap16:
  assumes w: "unat w = h + 256 * l" and "h < 256" and "l < 256"
  shows "unat (bswap16 w) = 256 * h + l"
proof -
  have "(h + 256 * l) * 256 = 256 * h + l * 65536" by simp
  then have "(h + 256 * l) * 256 mod 65536 = 256 * h"
    using assms(2) by (simp only: mod_mult_self1) simp
  moreover have "unat (push_bit 8 w) = take_bit 16 (push_bit 8 (unat w))"
    by (simp only: unsigned_push_bit_eq) simp
  ultimately have "unat (push_bit 8 w) = 256 * h"
    by (simp only: w push_bit_eq_mult take_bit_eq_mod) simp
  moreover have "unat (drop_bit 8 w) = drop_bit 8 (take_bit 16 (unat w))"
    by (simp only: unsigned_drop_bit_eq) simp
  then have "unat (drop_bit 8 w) = l"
    using assms(2,3) by (simp only: w drop_bit_eq_div take_bit_eq_mod) simp
  ultimately show ?thesis using assms(2,3) by (simp add: bswap16_def unat_word_ariths)
qed

lemma bswap16_bytes: "uint (bswap16 (word_of_nat (le_val [hi, lo]))) = 256 * uint hi + uint lo"
proof -
  have "le_val [hi, lo] < 2 ^ 16" using le_val_lt [of "[hi, lo]"] by (simp del: le_val.simps)
  then have "unat (word_of_nat (le_val [hi, lo]) :: 16 word) = le_val [hi, lo]"
    by (simp add: unat_of_nat del: le_val.simps)
  also have "\<dots> = unat hi + 256 * unat lo" by simp
  finally have "unat (bswap16 (word_of_nat (le_val [hi, lo]))) = 256 * unat hi + unat lo"
    by (rule unat_bswap16) (rule unat_byte_lt)+
  then have "int (unat (bswap16 (word_of_nat (le_val [hi, lo])))) = int (256 * unat hi + unat lo)"
    by (rule arg_cong)
  then show ?thesis by (simp del: le_val.simps)
qed

lemma ipv4_bytes:
  assumes "length bs = 4"
  shows "ipv4_string (word_of_nat (le_val bs)) = join ''.'' (map (\<lambda>b. itoa (int (unat b))) bs)"
proof -
  have "le_val bs < 2 ^ 32" using le_val_lt [of bs] assms by simp
  then have "unat (word_of_nat (le_val bs) :: 32 word) = le_val bs" by (simp add: unat_of_nat)
  then show ?thesis using le_bytes_val [of bs] assms by (simp add: ipv4_string_def)
qed

lemma le_val_zero: "le_val bs = 0 \<longleftrightarrow> bs = replicate (length bs) 0"
  by (induction bs) (auto simp: unat_eq_zero)

lemma ip4_zero:
  assumes "length bs = 4"
  shows "(word_of_nat (le_val bs) :: 32 word) = 0 \<longleftrightarrow> bs = [0, 0, 0, 0]"
proof -
  have "le_val bs < 2 ^ 32" using le_val_lt [of bs] assms by simp
  then have "unat (word_of_nat (le_val bs) :: 32 word) = le_val bs" by (simp add: unat_of_nat)
  then have "(word_of_nat (le_val bs) :: 32 word) = 0 \<longleftrightarrow> le_val bs = 0"
    using unat_eq_zero [of "word_of_nat (le_val bs) :: 32 word"] by simp
  with assms show ?thesis by (simp add: le_val_zero numeral_eq_Suc)
qed

text \<open>An IPv4 address of the task: the bytes of its port, in network order, and of its host.\<close>

definition sockaddr_at :: "hook_env \<Rightarrow> u64 \<Rightarrow> byte \<Rightarrow> byte \<Rightarrow> byte list \<Rightarrow> bool" where
  "sockaddr_at k a hi lo host \<longleftrightarrow> a \<noteq> 0 \<and> length host = 4 \<and> hk_read_user k 2 a = Some [2, 0] \<and>
     hk_read_user k 2 (a + 2) = Some [hi, lo] \<and> hk_read_user k 4 (a + 4) = Some host"

definition dotted :: "byte list \<Rightarrow> string" where
  "dotted host = (if host = [0, 0, 0, 0] then [] else join ''.'' (map (\<lambda>b. itoa (int (unat b))) host))"

lemma user_sockaddr_at:
  "sockaddr_at k a hi lo host \<Longrightarrow>
    user_sockaddr k a = Some (word_of_nat (le_val [hi, lo]), word_of_nat (le_val host))"
  by (simp add: sockaddr_at_def user_sockaddr_def read_user_word_def)

text \<open>
  C11: A socket address survives the way: where a program calls \<open>emit_sockaddr\<close> on an IPv4 address in
  user memory, with the port in network byte order, the event user space makes of the record has
  that port and, unless it is 0.0.0.0, that host in dotted notation, as the local address for
  \<open>bind\<close> and as the remote one for \<open>connect\<close>, \<open>send\<close> and \<open>recv\<close>, with the other side empty.
\<close>

theorem socket_address_survives:
  assumes "hook_ok k" and "a \<in> {''bind'', ''connect'', ''send'', ''recv''}"
    and "sockaddr_at k addr hi lo host" and "\<not> should_skip k s" and "hk_reserve k (bs_asked s)"
  shows "\<exists>ke. bs_records (emit_sockaddr k a addr nr s) = bs_records s @ [ke] \<and>
    decode_kernel_event (encode_event ke) = Inr ke \<and>
    (let ev = convert_kernel_event fs boot ke d;
         here = (256 * uint hi + uint lo, dotted host)
     in ev_category ev = ''network'' \<and> ev_action ev = a \<and> ev_pid ev = uint (current_pid k) \<and>
       (ev_local_port ev, ev_local_addr ev) = (if a = ''bind'' then here else (0, [])) \<and>
       (ev_remote_port ev, ev_remote_addr ev) = (if a = ''bind'' then (0, []) else here))"
proof -
  let ?ke = "sockaddr_record k a (word_of_nat (le_val [hi, lo])) (word_of_nat (le_val host)) nr"
  have label: "(''network'', a) \<in> set event_labels" using assms(2) by (auto simp: event_labels_def)
  then have short: "short_label a" "short_label ''network''" using event_label_short by blast+
  have bind: "short_label ''bind''" by (simp add: short_label_def c_string_def)
  have host: "length host = 4" and "addr \<noteq> 0" using assms(3) by (simp_all add: sockaddr_at_def)
  then have "bs_records (emit_sockaddr k a addr nr s) = bs_records s @ [?ke]"
    using assms(4,5) by (simp add: emit_sockaddr_attempt user_sockaddr_at [OF assms(3)] attempt_room)
  moreover have "event_shape ?ke"
    using sockaddr_record_from [OF assms(1) label] by (simp add: record_from_def)
  moreover have "hd a = CHR ''b'' \<or> hd a = CHR ''l'' \<longleftrightarrow> a = ''bind''" using assms(2) by auto
  ultimately show ?thesis
    using short bind ipv4_bytes [OF host] ip4_zero [OF host] bswap16_bytes [of hi lo]
    by (intro exI [of _ ?ke]) (simp add: decode_encoded convert_address sockaddr_record_def Let_def dotted_def
        del: le_val.simps)
qed

theorem socket_address_survives_witness:
  "\<exists>ke. bs_records (emit_sockaddr (sample_hook (\<lambda>i. True)) ''connect'' 8192 42 (bpf_init 1)) = [ke] \<and>
     ev_remote_port (convert_kernel_event (\<lambda>p. Inl (Err ''none'')) 0 ke 0) = 443 \<and>
     ev_remote_addr (convert_kernel_event (\<lambda>p. Inl (Err ''none'')) 0 ke 0) = ''10.0.0.7''"
proof -
  let ?k = "sample_hook (\<lambda>i. True)"
  have ok: "hook_ok ?k" using sample_hook_on [of "\<lambda>i. True"] by (simp add: hook_on_def)
  have skip: "\<not> should_skip ?k (bpf_init 1)" by (simp add: should_skip_def bpf_init_def)
  have addr: "sockaddr_at ?k 8192 1 187 [10, 0, 0, 7]"
    by (simp add: sockaddr_at_def sample_hook_def)
  have room: "hk_reserve ?k (bs_asked (bpf_init 1))" by simp
  have "dotted [10, 0, 0, 7] = ''10.0.0.7''" by code_simp
  then show ?thesis
    using socket_address_survives [OF ok _ addr skip room, where a = "''connect''" and nr = 42
        and fs = "\<lambda>p. Inl (Err ''none'')" and boot = 0 and d = 0]
    by (auto simp: Let_def bpf_init_def)
qed

section \<open>Paths of descriptors\<close>

text \<open>A read of user memory at the address of a map's value, which is the kernel's, faults, and the
  buffer is filled with zeros.\<close>

definition kernel_faults :: "hook_env \<Rightarrow> bool" where
  "kernel_faults k \<longleftrightarrow> (\<forall>dst. fst (hk_read_str k dst (hk_value_addr k)) = replicate (length dst) 0)"

definition pathless :: "bpf_state \<Rightarrow> bool" where
  "pathless s \<longleftrightarrow> wf_paths s \<and> (\<forall>p \<in> ran (bs_fd_path s). p = replicate 128 0) \<and>
     (\<forall>ke \<in> set (bs_records s). cstring (ke_category ke) \<noteq> ''block'' \<longrightarrow> ke_fd ke \<noteq> - 1 \<longrightarrow>
       ke_path ke = replicate 128 0)"

lemma pathless_saves:
  assumes "hook_ok k" and "pathless s"
  shows "pathless (save_pending_open k pid a s)"
    and "kernel_faults k \<Longrightarrow> pathless (save_fd_path k pid fd (hk_value_addr k) s)"
proof -
  have "bs_fd_path (save_pending_open k pid a s) = bs_fd_path s"
    by (auto simp: save_pending_open_def set_temp_def Let_def split: option.split)
  with assms show "pathless (save_pending_open k pid a s)"
    by (simp add: pathless_def wf_paths_save)
next
  assume "kernel_faults k"
  have len: "length st = 128" if "path_temp k s = Some st" for st
    using assms(2) that unfolding pathless_def wf_paths_def path_temp_def by (metis option.inject)
  have "p = replicate 128 0" if "p \<in> ran (bs_fd_path (save_fd_path k pid fd (hk_value_addr k) s))" for p
    using that assms(2) \<open>kernel_faults k\<close> len
    by (auto simp: save_fd_path_def set_temp_def Let_def pathless_def kernel_faults_def
        split: if_splits option.splits dest!: ran_upd)
  with assms show "pathless (save_fd_path k pid fd (hk_value_addr k) s)"
    by (simp add: pathless_def wf_paths_save)
qed

lemma fd_path_delete: "bs_fd_path (delete_fd_path pid fd s) = (bs_fd_path s)((pid, fd) := None)"
  by (simp add: delete_fd_path_def)

lemma pathless_deletes:
  "pathless s \<Longrightarrow> pathless (delete_fd_path pid fd s)" "pathless s \<Longrightarrow> pathless (delete_pending pid s)"
  by (auto simp: pathless_def wf_paths_delete fd_path_delete dest: ran_upd)

lemma pathless_attempt: "pathless s \<Longrightarrow> record_from s ke \<Longrightarrow> pathless (attempt k ke s)"
  by (auto simp: pathless_def attempt_records record_from_def)

interpretation pathless: kernel_invariant pathless "\<lambda>k. hook_ok k \<and> kernel_faults k"
  by unfold_locales (auto simp: pathless_saves pathless_deletes pathless_attempt, simp add: pathless_def)

lemma pathless_init: "pathless (bpf_init self)"
  using wf_paths_init [of self] by (simp add: pathless_def bpf_init_def)


lemma sample_hook_ok: "hook_ok (sample_hook room)"
  using sample_hook_on by (simp add: hook_on_def)

lemma sample_hook_faults: "kernel_faults (sample_hook room)"
  by (simp add: kernel_faults_def sample_hook_def string_reader_def)


text \<open>
  A pending path is kept per process: a second thread's \<open>open\<close> replaces the first one's. The bytes
  an earlier path left in \<open>path_scratch\<close> lie behind the NUL, where no one looks.
\<close>

lemma saved_path_string:
  assumes "wf_paths s" and "string_at k a q" and "\<not> kernel_ignores q" and "hk_update_ok k"
  shows "\<exists>p. bs_pending_open (save_pending_open k pid a s) pid = Some p \<and> cstring p = take 127 q"
proof -
  obtain st where st: "path_temp k s = Some st" "length st = 128"
    using assms(1) unfolding wf_paths_def path_temp_def by blast
  then have "st \<noteq> []" by auto
  with st assms(2) have "cstring (fst (hk_read_str k st a)) = take 127 q"
    by (simp add: string_at_def cstring_ch c_string_take)
  with st assms show ?thesis
    by (simp add: save_pending_open_def path_ignored_string Let_def set_temp_def)
qed

lemma emit_event_keeps_pending [simp]:
  "bs_pending_open (emit_event k c a p q n fd aux nr s) = bs_pending_open s"
  by (simp add: emit_event_attempt)

lemma wf_paths_emit_event [simp]: "wf_paths (emit_event k c a p q n fd aux nr s) = wf_paths s"
  by (simp add: emit_event_attempt)

lemma threads_share_the_pending_path:
  assumes "wf_paths s" and "hook_ok k" and "current_pid k' = current_pid k"
    and "string_at k' (te_args c' j) q" and "\<not> kernel_ignores q" and "hk_update_ok k'"
  shows "\<exists>p. bs_pending_open (handle_open_enter j k' c' (handle_open_enter i k c s)) (current_pid k) = Some p \<and>
    cstring p = take 127 q"
proof -
  have "wf_paths (handle_open_enter i k c s)"
    using assms(1,2) by (simp add: handle_open_enter_def Let_def wf_paths_save)
  from saved_path_string [OF this assms(4-6)] assms(3) show ?thesis
    by (simp add: handle_open_enter_def Let_def)
qed

end
