(* ===== verification/SystemProps.thy ===== *)
theory SystemProps imports RecorderProps ProgramPaths begin

text \<open>
  The whole recorder: the programs in the kernel, the event source, the pipeline and the store.
\<close>

text \<open>
  C1: From the machine's activity to the stored history. Take any run of the kernel programs, on any
  CPUs and with any reservations refused, let the source read its records, and the service write
  until it has shut down without error. Then each record of the run is one event, in order; the
  events and the counted drops of the ring buffer add up to all that the programs tried to report;
  and the store holds, behind what it held, records of the events that the ignore rules leave in,
  but for those the collector's counter says it dropped: none, if it is zero.
\<close>

theorem machine_activity_reaches_the_store:
  assumes "sql_engine exec" and "service_reach (store_sink exec) cfg s0 v" and "store_good s0"
    and "sv_main v = MReturned" and "sv_err v = None"
    and "bpf_run (hook_on n) (bpf_init self) bs" and "length ds = length (bs_records bs)"
    and "source_start senv = Inr (boot, links)"
    and "col_sent (sv_col v) =
      fst (source_run senv (map2 (\<lambda>ke d. Record (encode_event ke) d True) (bs_records bs) ds))"
  shows "\<exists>events stored recs.
    list_all2 (\<lambda>ke ev. \<exists>d. ev = convert_kernel_event (se_files senv) boot ke d) (bs_records bs) events \<and>
    (of_nat (bs_asked bs) :: u64) = of_nat (length events) + sum_list (per_cpu_drops n bs) \<and>
    store_events json_unmarshal (sv_store v) = store_events json_unmarshal s0 @ recs \<and>
    list_all2 stored_as stored recs \<and>
    subseq stored (filter (wanted (sc_ignore_paths cfg)) events) \<and>
    dropped_events (sv_col v) =
      wrap64 (int (length (filter (wanted (sc_ignore_paths cfg)) events)) - int (length stored)) \<and>
    (dropped_events (sv_col v) = 0 \<longrightarrow> length events < 2 ^ 63 \<longrightarrow>
      stored = filter (wanted (sc_ignore_paths cfg)) events)"
proof -
  let ?readings = "map2 (\<lambda>ke d. Record (encode_event ke) d True) (bs_records bs) ds"
  obtain events st r where loop: "source_loop (se_files senv) boot ?readings source_init = (events, st, r)"
    by (metis prod_cases3)
  then have sent: "fst (source_run senv ?readings) = events" by (simp add: source_run_def assms(8))
  have acc: "accounted n bs" by (rule acct.run_keeps [OF assms(6) accounted_init])
  then have "\<forall>ke \<in> set (bs_records bs). event_shape ke" by (simp add: accounted_def good_record_def)
  from source_loop_records [OF this assms(7) loop]
  have each: "list_all2 (\<lambda>ke ev. \<exists>d. ev = convert_kernel_event (se_files senv) boot ke d)
      (bs_records bs) events" by blast
  then have count: "(of_nat (bs_asked bs) :: u64) = of_nat (length events) + sum_list (per_cpu_drops n bs)"
    using acc by (simp add: accounted_def list_all2_lengthD)
  from recorder_keeps_the_history [OF assms(1-5) assms(9) refl] obtain stored recs where
    kept: "store_events json_unmarshal (sv_store v) = store_events json_unmarshal s0 @ recs"
      "list_all2 stored_as stored recs" "subseq stored (filter (wanted (sc_ignore_paths cfg)) events)"
      "dropped_events (sv_col v) =
        wrap64 (int (length (filter (wanted (sc_ignore_paths cfg)) events)) - int (length stored))"
    and all: "dropped_events (sv_col v) = 0 \<longrightarrow>
      length (filter (wanted (sc_ignore_paths cfg)) events) < 2 ^ 63 \<longrightarrow>
      stored = filter (wanted (sc_ignore_paths cfg)) events"
    unfolding sent by blast
  have "length (filter (wanted (sc_ignore_paths cfg)) events) \<le> length events" by (rule length_filter_le)
  then have "dropped_events (sv_col v) = 0 \<longrightarrow> length events < 2 ^ 63 \<longrightarrow>
      stored = filter (wanted (sc_ignore_paths cfg)) events"
    using all by (blast intro: order_le_less_trans)
  with each count kept show ?thesis by blast
qed

theorem machine_activity_reaches_the_store_witness:
  "\<exists>(v :: store service) bs recs. bpf_run (hook_on 1) (bpf_init 1) bs \<and> bs_records bs = [clone_record] \<and>
     store_events json_unmarshal (sv_store v) = store_events json_unmarshal sample_store @ recs \<and>
     length recs = 1"
proof -
  obtain bs where bs: "bpf_run (hook_on 1) (bpf_init 1) bs" "bs_records bs = [clone_record]"
    using sample_run by blast
  obtain links where start: "source_start sample_source = Inr (100 * 10 ^ 9, links)"
    using sample_source_starts by blast
  let ?readings = "map2 (\<lambda>ke d. Record (encode_event ke) d True) (bs_records bs) [None]"
    and ?cfg = "\<lparr>sc_ignore_paths = [], sc_batch_size = 2, sc_flush_period = 0\<rparr>"
  define ev where "ev = convert_kernel_event (se_files sample_source) (100 * 10 ^ 9) clone_record 0"
  have "good_record clone_record"
    using acct.run_keeps [OF bs(1) accounted_init] by (simp add: accounted_def bs(2))
  then have "decode_kernel_event (encode_event clone_record) = Inr clone_record"
    by (simp add: good_record_def decode_encoded)
  then have sent: "fst (source_run sample_source ?readings) = [ev]"
    by (simp add: source_run_def start bs(2) stamp_record_def Let_def read_ringbuf_drops_def
        source_init_def ev_def)
  have "ev_path ev = []" "ev_old_path ev = []"
    by (simp_all add: ev_def convert_path clone_record_def event_record_def path_field_def)
  then have "\<not> should_ignore_path (new_ignore_rules []) (ev_path ev)"
    and "\<not> should_ignore_path (new_ignore_rules []) (ev_old_path ev)"
    by (simp_all add: should_ignore_path_def)
  note wanted = this
  have "go_map (ev_metadata ev)" by (simp add: ev_def convert_go_map)
  from one_event_run [OF this wanted] obtain v where
    v: "service_reach (store_sink fragment_exec) ?cfg sample_store v" "sv_main v = MReturned"
      "sv_err v = None" "col_sent (sv_col v) = [ev]" "dropped_events (sv_col v) = 0" by blast
  have "length [None] = length (bs_records bs)" by (simp add: bs(2))
  from machine_activity_reaches_the_store [OF frag.sql_engine_axioms v(1) sample_store_good v(2,3) bs(1)
      this start v(4) [folded sent]]
  obtain events stored recs where
    "list_all2 (\<lambda>ke ev. \<exists>d. ev = convert_kernel_event (se_files sample_source) (100 * 10 ^ 9) ke d)
      (bs_records bs) events"
    and recs: "store_events json_unmarshal (sv_store v) = store_events json_unmarshal sample_store @ recs"
    and stored: "list_all2 stored_as stored recs"
    and all: "length events < 2 ^ 63 \<longrightarrow> stored = filter (wanted (sc_ignore_paths ?cfg)) events"
    unfolding v(5) by blast
  then obtain d where events: "events = [convert_kernel_event (se_files sample_source) (100 * 10 ^ 9) clone_record d]"
    by (auto simp: bs(2) list_all2_Cons1)
  have "filter (wanted (sc_ignore_paths ?cfg)) events = events"
    by (simp add: events wanted_def convert_path should_ignore_path_def clone_record_def event_record_def
        path_field_def)
  with all have "stored = events" by (simp add: events)
  then have "length recs = 1" using list_all2_lengthD [OF stored] by (simp add: events)
  with bs recs show ?thesis by blast
qed

end
