(* ===== verification/Diff.thy ===== *)
theory Diff imports StoreReads begin

text \<open>
  The change summary, \<open>internal/diff/engine.go\<close>: one pass over the events between two times,
  oldest first, that fills the lists of a report. The three Go maps of the pass are finite maps;
  the order in which Go iterates over \<open>writes\<close> at the end is unspecified and is the parameter
  \<open>keys\<close>, an enumeration of the map's keys.
\<close>

section \<open>The report\<close>

record process_change =
  pc_timestamp :: gotime
  pc_pid :: int
  pc_comm :: string
  pc_path :: string
  pc_action :: string

record file_change =
  fc_timestamp :: gotime
  fc_path :: string
  fc_count :: int
  fc_action :: string

record socket_change =
  sc_timestamp :: gotime
  sc_pid :: int
  sc_comm :: string
  sc_socket :: string
  sc_action :: string

record hot_writer =
  hw_path :: string
  hw_pid :: int
  hw_comm :: string
  hw_count :: int
  hw_timestamp :: gotime

record process_restart =
  prs_comm :: string
  prs_pid :: int
  prs_timestamp :: gotime

record diff_report =
  dr_from :: gotime
  dr_to :: gotime
  dr_new_processes :: "process_change list"
  dr_exited_processes :: "process_change list"
  dr_modified_files :: "file_change list"
  dr_deleted_files :: "file_change list"
  dr_new_listeners :: "socket_change list"
  dr_outbound :: "socket_change list"
  dr_hot_writers :: "hot_writer list"
  dr_restarts :: "process_restart list"

definition empty_report :: "gotime \<Rightarrow> gotime \<Rightarrow> diff_report" where
  "empty_report from_t to_t =
     \<lparr>dr_from = from_t, dr_to = to_t, dr_new_processes = [], dr_exited_processes = [],
      dr_modified_files = [], dr_deleted_files = [], dr_new_listeners = [], dr_outbound = [],
      dr_hot_writers = [], dr_restarts = []\<rparr>"

section \<open>The pass\<close>

record diff_state =
  ds_report :: diff_report
  ds_writes :: "string \<rightharpoonup> event list"
  ds_last_exit :: "string \<rightharpoonup> event"
  ds_seen :: "int set"

definition restart_key :: "event \<Rightarrow> string" where
  "restart_key ev =
     (if trim_space (ev_comm ev) \<noteq> [] then ev_comm ev
      else if ev_pid ev \<noteq> 0 then itoa (ev_pid ev)
      else [])"

fun first_non_empty :: "string list \<Rightarrow> string" where
  "first_non_empty [] = []"
| "first_non_empty (x # xs) = (if trim_space x \<noteq> [] then x else first_non_empty xs)"

text \<open>The cases of the \<open>switch\<close>.\<close>

definition event_kind :: "event \<Rightarrow> string" where
  "event_kind ev = ev_category ev @ '':'' @ ev_action ev"

definition is_start :: "event \<Rightarrow> bool" where
  "is_start ev \<longleftrightarrow> event_kind ev \<in> set [''process:exec'', ''process:fork'', ''process:clone'']"

definition is_exit :: "event \<Rightarrow> bool" where
  "is_exit ev \<longleftrightarrow> event_kind ev = ''process:exit''"

definition is_modification :: "event \<Rightarrow> bool" where
  "is_modification ev \<longleftrightarrow> event_kind ev \<in> set [''file:write'', ''file:rename'', ''file:truncate'',
     ''file:chmod'', ''file:chown'', ''file:mkdir'']"

definition is_deletion :: "event \<Rightarrow> bool" where
  "is_deletion ev \<longleftrightarrow> event_kind ev \<in> set [''file:unlink'', ''file:rmdir'']"

definition is_listen :: "event \<Rightarrow> bool" where
  "is_listen ev \<longleftrightarrow> event_kind ev \<in> set [''network:listen'', ''network:bind'']"

definition is_outbound :: "event \<Rightarrow> bool" where
  "is_outbound ev \<longleftrightarrow> event_kind ev \<in> set [''network:connect'', ''network:send'']"

definition process_change_of :: "event \<Rightarrow> process_change" where
  "process_change_of ev = \<lparr>pc_timestamp = ev_timestamp ev, pc_pid = ev_pid ev,
     pc_comm = ev_comm ev, pc_path = ev_exe ev, pc_action = ev_action ev\<rparr>"

definition file_change_of :: "string \<Rightarrow> event \<Rightarrow> file_change" where
  "file_change_of p ev = \<lparr>fc_timestamp = ev_timestamp ev, fc_path = p, fc_count = 1,
     fc_action = ev_action ev\<rparr>"

definition socket_change_of :: "string \<Rightarrow> int \<Rightarrow> event \<Rightarrow> socket_change" where
  "socket_change_of addr port ev = \<lparr>sc_timestamp = ev_timestamp ev, sc_pid = ev_pid ev,
     sc_comm = ev_comm ev, sc_socket = addr @ '':'' @ itoa port, sc_action = ev_action ev\<rparr>"

definition restart_of :: "event \<Rightarrow> process_restart" where
  "restart_of ev = \<lparr>prs_comm = ev_comm ev, prs_pid = ev_pid ev, prs_timestamp = ev_timestamp ev\<rparr>"

definition modified_path :: "event \<Rightarrow> string" where
  "modified_path ev = first_non_empty [ev_path ev, ev_old_path ev]"

definition diff_start :: "diff_state \<Rightarrow> event \<Rightarrow> diff_state" where
  "diff_start s ev =
     (let r = ds_report s;
          (r1, seen1) =
            (if ev_pid ev \<notin> ds_seen s
             then (r\<lparr>dr_new_processes := dr_new_processes r @ [process_change_of ev]\<rparr>,
                   insert (ev_pid ev) (ds_seen s))
             else (r, ds_seen s));
          r2 =
            (case ds_last_exit s (restart_key ev) of
               Some prior \<Rightarrow>
                 if ev_timestamp ev > ev_timestamp prior
                 then r1\<lparr>dr_restarts := dr_restarts r1 @ [restart_of ev]\<rparr> else r1
             | None \<Rightarrow> r1)
      in s\<lparr>ds_report := r2, ds_seen := seen1\<rparr>)"

definition diff_exit :: "diff_state \<Rightarrow> event \<Rightarrow> diff_state" where
  "diff_exit s ev =
     (let r = ds_report s;
          s1 = s\<lparr>ds_report :=
            r\<lparr>dr_exited_processes := dr_exited_processes r @ [process_change_of ev]\<rparr>\<rparr>
      in if restart_key ev \<noteq> [] then s1\<lparr>ds_last_exit := (ds_last_exit s)(restart_key ev \<mapsto> ev)\<rparr>
         else s1)"

definition diff_modify :: "diff_state \<Rightarrow> event \<Rightarrow> diff_state" where
  "diff_modify s ev =
     (let p = modified_path ev in
      if p = [] then s
      else
        let r = ds_report s;
            s1 = s\<lparr>ds_report := r\<lparr>dr_modified_files := dr_modified_files r @ [file_change_of p ev]\<rparr>\<rparr>
        in if ev_action ev = ''write''
           then s1\<lparr>ds_writes := (ds_writes s)(p \<mapsto>
                  (case ds_writes s p of None \<Rightarrow> [] | Some evs \<Rightarrow> evs) @ [ev])\<rparr>
           else s1)"

definition diff_step :: "diff_state \<Rightarrow> event \<Rightarrow> diff_state" where
  "diff_step s ev =
     (let r = ds_report s in
      if is_start ev then diff_start s ev
      else if is_exit ev then diff_exit s ev
      else if is_modification ev then diff_modify s ev
      else if is_deletion ev then
        s\<lparr>ds_report := r\<lparr>dr_deleted_files := dr_deleted_files r @ [file_change_of (ev_path ev) ev]\<rparr>\<rparr>
      else if is_listen ev then
        s\<lparr>ds_report := r\<lparr>dr_new_listeners := dr_new_listeners r @
          [socket_change_of (ev_local_addr ev) (ev_local_port ev) ev]\<rparr>\<rparr>
      else if is_outbound ev then
        s\<lparr>ds_report := r\<lparr>dr_outbound := dr_outbound r @
          [socket_change_of (ev_remote_addr ev) (ev_remote_port ev) ev]\<rparr>\<rparr>
      else s)"

definition diff_init :: "gotime \<Rightarrow> gotime \<Rightarrow> diff_state" where
  "diff_init from_t to_t =
     \<lparr>ds_report = empty_report from_t to_t, ds_writes = Map.empty, ds_last_exit = Map.empty,
      ds_seen = {}\<rparr>"

definition hot_writer_of :: "string \<Rightarrow> event list \<Rightarrow> hot_writer" where
  "hot_writer_of p evs = \<lparr>hw_path = p, hw_pid = ev_pid (last evs), hw_comm = ev_comm (last evs),
     hw_count = int (length evs), hw_timestamp = ev_timestamp (last evs)\<rparr>"

fun hot_writers :: "(string \<rightharpoonup> event list) \<Rightarrow> string list \<Rightarrow> hot_writer list" where
  "hot_writers writes [] = []"
| "hot_writers writes (p # ps) =
     (case writes p of
        Some evs \<Rightarrow>
          if length evs \<ge> 3 then hot_writer_of p evs # hot_writers writes ps
          else hot_writers writes ps
      | None \<Rightarrow> hot_writers writes ps)"

definition diff_events ::
    "((string \<rightharpoonup> event list) \<Rightarrow> string list) \<Rightarrow> gotime \<Rightarrow> gotime \<Rightarrow> event list \<Rightarrow> diff_report" where
  "diff_events keys from_t to_t events =
     (let s = foldl diff_step (diff_init from_t to_t) events
      in (ds_report s)\<lparr>dr_hot_writers := hot_writers (ds_writes s) (keys (ds_writes s))\<rparr>)"

definition diff_filter :: "gotime \<Rightarrow> gotime \<Rightarrow> event_filter" where
  "diff_filter from_t to_t =
     empty_filter\<lparr>f_from := from_t, f_to := to_t, f_order_asc := True, f_limit := 50000\<rparr>"

definition diff_engine ::
    "engine \<Rightarrow> unmarshaller \<Rightarrow> ((string \<rightharpoonup> event list) \<Rightarrow> string list) \<Rightarrow> store \<Rightarrow>
      gotime \<Rightarrow> gotime \<Rightarrow> diff_report result" where
  "diff_engine exec unmarshal keys st from_t to_t =
     rbind (store_query exec unmarshal st (diff_filter from_t to_t))
       (\<lambda>events. Inr (diff_events keys from_t to_t events))"

section \<open>What the pass computes\<close>

text \<open>The cases of the \<open>switch\<close> exclude each other.\<close>

lemma kinds_disjoint:
  "is_start ev \<Longrightarrow> \<not> is_exit ev \<and> \<not> is_modification ev \<and> \<not> is_deletion ev \<and> \<not> is_listen ev \<and> \<not> is_outbound ev"
  "is_exit ev \<Longrightarrow> \<not> is_start ev \<and> \<not> is_modification ev \<and> \<not> is_deletion ev \<and> \<not> is_listen ev \<and> \<not> is_outbound ev"
  "is_modification ev \<Longrightarrow> \<not> is_start ev \<and> \<not> is_exit ev \<and> \<not> is_deletion ev \<and> \<not> is_listen ev \<and> \<not> is_outbound ev"
  "is_deletion ev \<Longrightarrow> \<not> is_start ev \<and> \<not> is_exit ev \<and> \<not> is_modification ev \<and> \<not> is_listen ev \<and> \<not> is_outbound ev"
  "is_listen ev \<Longrightarrow> \<not> is_start ev \<and> \<not> is_exit ev \<and> \<not> is_modification ev \<and> \<not> is_deletion ev \<and> \<not> is_outbound ev"
  "is_outbound ev \<Longrightarrow> \<not> is_start ev \<and> \<not> is_exit ev \<and> \<not> is_modification ev \<and> \<not> is_deletion ev \<and> \<not> is_listen ev"
  by (auto simp: is_start_def is_exit_def is_modification_def is_deletion_def is_listen_def
      is_outbound_def)

text \<open>The events that count as modifications and as content writes.\<close>

definition modifies :: "event \<Rightarrow> bool" where
  "modifies ev \<longleftrightarrow> is_modification ev \<and> modified_path ev \<noteq> []"

definition content_write :: "event \<Rightarrow> bool" where
  "content_write ev \<longleftrightarrow> is_modification ev \<and> ev_action ev = ''write'' \<and> modified_path ev \<noteq> []"

definition writes_to :: "string \<Rightarrow> event list \<Rightarrow> event list" where
  "writes_to p evs = filter (\<lambda>ev. content_write ev \<and> modified_path ev = p) evs"

text \<open>The first event of each process identifier, and the last exit under a key.\<close>

fun first_by_pid :: "int set \<Rightarrow> event list \<Rightarrow> event list" where
  "first_by_pid seen [] = []"
| "first_by_pid seen (ev # evs) =
     (if ev_pid ev \<in> seen then first_by_pid seen evs
      else ev # first_by_pid (insert (ev_pid ev) seen) evs)"

definition exits_under :: "string \<Rightarrow> event list \<Rightarrow> event list" where
  "exits_under k evs = filter (\<lambda>ev. is_exit ev \<and> restart_key ev = k \<and> k \<noteq> []) evs"

definition restarts_after :: "event list \<Rightarrow> event \<Rightarrow> bool" where
  "restarts_after before ev \<longleftrightarrow>
     is_start ev \<and> exits_under (restart_key ev) before \<noteq> [] \<and>
     ev_timestamp (last (exits_under (restart_key ev) before)) < ev_timestamp ev"

fun restart_events :: "event list \<Rightarrow> event list \<Rightarrow> event list" where
  "restart_events before [] = []"
| "restart_events before (ev # evs) =
     (if restarts_after before ev then ev # restart_events (before @ [ev]) evs
      else restart_events (before @ [ev]) evs)"

lemma restart_events_snoc:
  "restart_events before (evs @ [ev]) =
     restart_events before evs @ (if restarts_after (before @ evs) ev then [ev] else [])"
  by (induction evs arbitrary: before) auto

lemma first_by_pid_snoc:
  "first_by_pid seen (evs @ [ev]) =
     first_by_pid seen evs @ (if ev_pid ev \<in> seen \<union> ev_pid ` set evs then [] else [ev])"
  by (induction evs arbitrary: seen) auto

definition pass :: "gotime \<Rightarrow> gotime \<Rightarrow> event list \<Rightarrow> diff_state" where
  "pass from_t to_t evs = foldl diff_step (diff_init from_t to_t) evs"

lemma pass_snoc [simp]: "pass f t (evs @ [ev]) = diff_step (pass f t evs) ev"
  by (simp add: pass_def)

lemma pass_Nil [simp]: "pass f t [] = diff_init f t"
  by (simp add: pass_def)

lemmas step_defs = diff_step_def diff_start_def diff_exit_def diff_modify_def Let_def

text \<open>One field at a time.\<close>

lemma step_last_exit:
  "ds_last_exit (diff_step s ev) =
     (if is_exit ev \<and> restart_key ev \<noteq> [] then (ds_last_exit s)(restart_key ev \<mapsto> ev)
      else ds_last_exit s)"
  using kinds_disjoint(2) [of ev] by (auto simp: step_defs split: option.splits)

lemma step_writes:
  "ds_writes (diff_step s ev) =
     (if content_write ev
      then (ds_writes s)(modified_path ev \<mapsto>
        (case ds_writes s (modified_path ev) of None \<Rightarrow> [] | Some evs \<Rightarrow> evs) @ [ev])
      else ds_writes s)"
  using kinds_disjoint(3) [of ev] by (auto simp: content_write_def step_defs split: option.splits)

lemma step_seen: "ds_seen (diff_step s ev) = (if is_start ev then insert (ev_pid ev) (ds_seen s) else ds_seen s)"
  by (auto simp: step_defs split: option.splits)

lemma step_new:
  "dr_new_processes (ds_report (diff_step s ev)) = dr_new_processes (ds_report s) @
     (if is_start ev \<and> ev_pid ev \<notin> ds_seen s then [process_change_of ev] else [])"
  by (auto simp: step_defs split: option.splits)

lemma step_restarts:
  "dr_restarts (ds_report (diff_step s ev)) = dr_restarts (ds_report s) @
     (if is_start ev \<and> (\<exists>x. ds_last_exit s (restart_key ev) = Some x \<and> ev_timestamp x < ev_timestamp ev)
      then [restart_of ev] else [])"
  by (auto simp: step_defs split: option.splits)

lemma step_exited:
  "dr_exited_processes (ds_report (diff_step s ev)) = dr_exited_processes (ds_report s) @
     (if is_exit ev then [process_change_of ev] else [])"
  using kinds_disjoint(2) [of ev] by (auto simp: step_defs split: option.splits)

lemma step_modified:
  "dr_modified_files (ds_report (diff_step s ev)) = dr_modified_files (ds_report s) @
     (if modifies ev then [file_change_of (modified_path ev) ev] else [])"
  using kinds_disjoint(3) [of ev] by (auto simp: modifies_def step_defs split: option.splits)

lemma step_deleted:
  "dr_deleted_files (ds_report (diff_step s ev)) = dr_deleted_files (ds_report s) @
     (if is_deletion ev then [file_change_of (ev_path ev) ev] else [])"
  using kinds_disjoint(4) [of ev] by (auto simp: step_defs split: option.splits)

lemma step_listeners:
  "dr_new_listeners (ds_report (diff_step s ev)) = dr_new_listeners (ds_report s) @
     (if is_listen ev then [socket_change_of (ev_local_addr ev) (ev_local_port ev) ev] else [])"
  using kinds_disjoint(5) [of ev] by (auto simp: step_defs split: option.splits)

lemma step_outbound:
  "dr_outbound (ds_report (diff_step s ev)) = dr_outbound (ds_report s) @
     (if is_outbound ev then [socket_change_of (ev_remote_addr ev) (ev_remote_port ev) ev] else [])"
  using kinds_disjoint(6) [of ev] by (auto simp: step_defs split: option.splits)

lemma step_range:
  "dr_from (ds_report (diff_step s ev)) = dr_from (ds_report s)"
  "dr_to (ds_report (diff_step s ev)) = dr_to (ds_report s)"
  by (auto simp: step_defs split: option.splits)

lemmas step_fields = step_last_exit step_writes step_seen step_new step_restarts step_exited
  step_modified step_deleted step_listeners step_outbound step_range

lemma pass_seen: "ds_seen (pass f t evs) = ev_pid ` set (filter is_start evs)"
  by (induction evs rule: rev_induct) (auto simp: step_fields diff_init_def)

lemma pass_last_exit:
  "ds_last_exit (pass f t evs) k =
     (if exits_under k evs = [] then None else Some (last (exits_under k evs)))"
  by (induction evs rule: rev_induct) (auto simp: step_fields exits_under_def diff_init_def)

lemma pass_writes:
  "ds_writes (pass f t evs) p = (if writes_to p evs = [] then None else Some (writes_to p evs))"
  by (induction evs rule: rev_induct) (auto simp: step_fields writes_to_def diff_init_def)

lemma pass_lists:
  "dr_from (ds_report (pass f t evs)) = f"
  "dr_to (ds_report (pass f t evs)) = t"
  "dr_new_processes (ds_report (pass f t evs)) =
     map process_change_of (first_by_pid {} (filter is_start evs))"
  "dr_exited_processes (ds_report (pass f t evs)) = map process_change_of (filter is_exit evs)"
  "dr_modified_files (ds_report (pass f t evs)) =
     map (\<lambda>ev. file_change_of (modified_path ev) ev) (filter modifies evs)"
  "dr_deleted_files (ds_report (pass f t evs)) =
     map (\<lambda>ev. file_change_of (ev_path ev) ev) (filter is_deletion evs)"
  "dr_new_listeners (ds_report (pass f t evs)) =
     map (\<lambda>ev. socket_change_of (ev_local_addr ev) (ev_local_port ev) ev) (filter is_listen evs)"
  "dr_outbound (ds_report (pass f t evs)) =
     map (\<lambda>ev. socket_change_of (ev_remote_addr ev) (ev_remote_port ev) ev) (filter is_outbound evs)"
  "dr_restarts (ds_report (pass f t evs)) = map restart_of (restart_events [] evs)"
  by (induction evs rule: rev_induct)
    (auto simp: step_fields diff_init_def empty_report_def pass_seen pass_last_exit
      restart_events_snoc restarts_after_def first_by_pid_snoc)

lemma set_first_by_pid: "ev_pid ` set (first_by_pid seen evs) = ev_pid ` set evs - seen"
  by (induction evs arbitrary: seen) auto

lemma distinct_first_by_pid: "distinct (map ev_pid (first_by_pid seen evs))"
  using set_first_by_pid by (induction evs arbitrary: seen) fastforce+

lemma hot_writers_map:
  "hot_writers writes ps = map (\<lambda>p. hot_writer_of p (the (writes p)))
     (filter (\<lambda>p. \<exists>evs. writes p = Some evs \<and> length evs \<ge> 3) ps)"
  by (induction ps) (auto split: option.splits)

end
