(* ===== verification/DiffProps.thy ===== *)
theory DiffProps imports Diff StoreProps begin

text \<open>The properties of the change summary: each list of the report against the events.\<close>

text \<open>
  The lists of a report without counting logic are exactly the events of their kind, in
  order: exits, modifications (with the path or, failing that, the old path), deletions, new
  listeners and outbound connections.
\<close>

theorem report_lists_events_by_kind:
  "dr_exited_processes (diff_events keys f t evs) = map process_change_of (filter is_exit evs) \<and>
   dr_modified_files (diff_events keys f t evs) =
     map (\<lambda>ev. file_change_of (modified_path ev) ev) (filter modifies evs) \<and>
   dr_deleted_files (diff_events keys f t evs) =
     map (\<lambda>ev. file_change_of (ev_path ev) ev) (filter is_deletion evs) \<and>
   dr_new_listeners (diff_events keys f t evs) =
     map (\<lambda>ev. socket_change_of (ev_local_addr ev) (ev_local_port ev) ev) (filter is_listen evs) \<and>
   dr_outbound (diff_events keys f t evs) =
     map (\<lambda>ev. socket_change_of (ev_remote_addr ev) (ev_remote_port ev) ev) (filter is_outbound evs)"
  unfolding diff_events_def Let_def pass_def [symmetric] by (simp add: pass_lists)

text \<open>
  A process is reported as new once however many events its creation fires: the reported
  process identifiers are distinct, and they are those of the fork, clone and exec events.
\<close>

theorem new_processes_once_each:
  "distinct (map pc_pid (dr_new_processes (diff_events keys f t evs))) \<and>
   pc_pid ` set (dr_new_processes (diff_events keys f t evs)) = ev_pid ` set (filter is_start evs)"
proof -
  have new: "dr_new_processes (diff_events keys f t evs) =
      map process_change_of (first_by_pid {} (filter is_start evs))"
    unfolding diff_events_def Let_def pass_def [symmetric] by (simp add: pass_lists)
  have pid: "pc_pid (process_change_of ev) = ev_pid ev" for ev
    by (simp add: process_change_of_def)
  have "map pc_pid (map process_change_of xs) = map ev_pid xs" for xs
    by (simp add: pid)
  then have "map pc_pid (dr_new_processes (diff_events keys f t evs)) =
      map ev_pid (first_by_pid {} (filter is_start evs))"
    unfolding new .
  then show ?thesis
    using distinct_first_by_pid [of "{}" "filter is_start evs"]
      set_first_by_pid [of "{}" "filter is_start evs"]
    by (metis Diff_empty set_map)
qed

text \<open>
  C23: Whatever order Go iterates over the map in, the hot writers are the paths with at least
  three content writes, each once, with the number of its writes and the process and time of the
  last one.
\<close>

theorem hot_writers_exact:
  assumes "\<And>m. finite (dom m) \<Longrightarrow> distinct (keys m) \<and> set (keys m) = dom m"
  shows "distinct (map hw_path (dr_hot_writers (diff_events keys f t evs))) \<and>
    set (dr_hot_writers (diff_events keys f t evs)) =
      {hot_writer_of p (writes_to p evs) | p. length (writes_to p evs) \<ge> 3}"
proof -
  let ?w = "ds_writes (pass f t evs)"
  have dom: "dom ?w = {p. writes_to p evs \<noteq> []}" by (auto simp: pass_writes split: if_splits)
  have "dom ?w \<subseteq> modified_path ` set evs"
    unfolding dom by (auto simp: writes_to_def filter_empty_conv)
  then have "finite (dom ?w)" by (rule finite_subset) simp
  note keys = assms [OF this]
  have hot: "dr_hot_writers (diff_events keys f t evs) = map (\<lambda>p. hot_writer_of p (the (?w p)))
     (filter (\<lambda>p. \<exists>ws. ?w p = Some ws \<and> length ws \<ge> 3) (keys ?w))"
    unfolding diff_events_def Let_def pass_def [symmetric] by (simp add: hot_writers_map)
  have "map hw_path (dr_hot_writers (diff_events keys f t evs)) =
      filter (\<lambda>p. \<exists>ws. ?w p = Some ws \<and> length ws \<ge> 3) (keys ?w)"
    by (simp add: hot hot_writer_of_def comp_def)
  moreover have "set (dr_hot_writers (diff_events keys f t evs)) =
      {hot_writer_of p (writes_to p evs) | p. length (writes_to p evs) \<ge> 3}"
    using keys unfolding hot dom by (auto simp: pass_writes split: if_splits)
  ultimately show ?thesis using keys by simp
qed

definition sorted_keys :: "(string \<rightharpoonup> event list) \<Rightarrow> string list" where
  "sorted_keys m = sorted_list_of_set (dom m)"

theorem hot_writers_exact_witness:
  "hw_count ` set (dr_hot_writers (diff_events sorted_keys 0 9 (replicate 3
     (sample_event\<lparr>ev_action := ''write''\<rparr>)))) = {3}"
proof -
  let ?ev = "sample_event\<lparr>ev_action := ''write''\<rparr>"
  have "distinct (sorted_keys m) \<and> set (sorted_keys m) = dom m" if "finite (dom m)" for m
    using that by (simp add: sorted_keys_def)
  note hot = hot_writers_exact [of sorted_keys, OF this]
  have wr: "content_write ?ev" "modified_path ?ev = ''/etc/a_b''" by code_simp+
  then have "length (writes_to p (replicate 3 ?ev)) \<ge> 3 \<longleftrightarrow> p = ''/etc/a_b''"
    and "length (writes_to ''/etc/a_b'' (replicate 3 ?ev)) = 3" for p
    by (auto simp: writes_to_def numeral_3_eq_3)
  with hot [of 0 9 "replicate 3 ?ev"] show ?thesis by (simp add: hot_writer_of_def)
qed

lemma set_restart_events:
  "set (restart_events before evs) =
     {ev. \<exists>xs ys. evs = xs @ ev # ys \<and> restarts_after (before @ xs) ev}"
proof (induction evs arbitrary: before)
  case (Cons e evs)
  have "(\<exists>xs ys. e # evs = xs @ ev # ys \<and> restarts_after (before @ xs) ev) \<longleftrightarrow>
      ev = e \<and> restarts_after before e \<or>
      (\<exists>xs ys. evs = xs @ ev # ys \<and> restarts_after ((before @ [e]) @ xs) ev)" for ev
    by (auto simp: Cons_eq_append_conv)
  then show ?case using Cons.IH [of "before @ [e]"] by auto
qed simp

text \<open>
  C24: A restart is reported for exactly those start events before which a process of the same
  name (or, without a name, the same identifier) exited, the last such exit at an earlier time.
\<close>

theorem restarts_exact:
  "set (dr_restarts (diff_events keys f t evs)) =
     {restart_of ev | xs ev ys. evs = xs @ ev # ys \<and> restarts_after xs ev}"
proof -
  have "dr_restarts (diff_events keys f t evs) = map restart_of (restart_events [] evs)"
    unfolding diff_events_def Let_def pass_def [symmetric] by (simp add: pass_lists)
  then show ?thesis by (auto simp: set_restart_events)
qed

text \<open>
  C22: \<open>Diff\<close> of a store is that summary of the stored events between the two times, oldest
  first, as far as the first 50000 of them.
\<close>

theorem diff_summarises_interval:
  assumes "sql_engine_total exec" and "store_ready st" and "store_inv json_unmarshal st"
    and "from_t \<le> to_t" and "int64_range from_t" and "int64_range to_t"
  shows "diff_engine exec json_unmarshal keys st from_t to_t =
    Inr (diff_events keys from_t to_t (take 50000 (order_events True
      (filter (\<lambda>ev. from_t \<le> ev_timestamp ev \<and> ev_timestamp ev \<le> to_t)
        (store_events json_unmarshal st)))))"
proof -
  let ?f = "diff_filter from_t to_t"
  have valid: "validate_filter ?f = None"
    using assms(4) by (simp add: validate_filter_def diff_filter_def empty_filter_def)
  have zero: "\<not> int64_range zero_time" by (simp add: int64_range_def zero_time_def)
  have "event_matches ?f ev \<longleftrightarrow> from_t \<le> ev_timestamp ev \<and> ev_timestamp ev \<le> to_t" for ev
    using assms(5,6) zero
    by (auto simp: event_matches_def diff_filter_def empty_filter_def is_zero_time_def)
  then have eq: "event_matches ?f = (\<lambda>ev. from_t \<le> ev_timestamp ev \<and> ev_timestamp ev \<le> to_t)"
    by (simp add: fun_eq_iff)
  have "query_spec ?f (store_events json_unmarshal st) = take 50000 (order_events True
      (filter (\<lambda>ev. from_t \<le> ev_timestamp ev \<and> ev_timestamp ev \<le> to_t) (store_events json_unmarshal st)))"
    unfolding query_spec_def eq by (simp add: diff_filter_def)
  with event_store_total.store_query_total [OF event_store_total_json [OF assms(1)] assms(2,3) valid]
  show ?thesis by (simp add: diff_engine_def)
qed

theorem diff_summarises_interval_witness:
  "diff_engine fragment_exec json_unmarshal sorted_keys filled_store 500 1500 =
    Inr (diff_events sorted_keys 500 1500 (take 50000 (order_events True
      (filter (\<lambda>ev. 500 \<le> ev_timestamp ev \<and> ev_timestamp ev \<le> 1500)
        (store_events json_unmarshal filled_store)))))"
  by (rule diff_summarises_interval [OF frag.sql_engine_total_axioms filled_store_inv(2,1)])
    (simp_all add: int64_range_def)

end
