(* ===== verification/GoTime.thy ===== *)
theory GoTime imports Types begin

text \<open>
  \<open>Time.Format\<close> with the layout \<open>RFC3339\<close>, of a time in UTC: the proleptic Gregorian date from
  the number of days since the Unix epoch, then the time of day, then \<open>Z\<close>.
\<close>

definition pad_digits :: "nat \<Rightarrow> int \<Rightarrow> string" where
  "pad_digits w n = (let s = itoa n in replicate (w - length s) CHR ''0'' @ s)"

text \<open>Year, month and day of a day number; years are counted from March, in eras of 400.\<close>

definition civil_from_days :: "int \<Rightarrow> int \<times> int \<times> int" where
  "civil_from_days z0 =
     (let z = z0 + 719468;
          era = z div 146097;
          doe = z mod 146097;
          yoe = (doe - doe div 1460 + doe div 36524 - doe div 146096) div 365;
          doy = doe - (365 * yoe + yoe div 4 - yoe div 100);
          mp = (5 * doy + 2) div 153;
          d = doy - (153 * mp + 2) div 5 + 1;
          m = (if mp < 10 then mp + 3 else mp - 9)
      in (yoe + era * 400 + (if m \<le> 2 then 1 else 0), m, d))"

definition rfc3339 :: "gotime \<Rightarrow> string" where
  "rfc3339 t =
     (let secs = t div 10 ^ 9; (y, m, d) = civil_from_days (secs div 86400);
          s = secs mod 86400
      in pad_digits 4 y @ ''-'' @ pad_digits 2 m @ ''-'' @ pad_digits 2 d @ ''T'' @
         pad_digits 2 (s div 3600) @ '':'' @ pad_digits 2 (s div 60 mod 60) @ '':'' @
         pad_digits 2 (s mod 60) @ ''Z'')"

lemma rfc3339_epoch: "rfc3339 0 = ''1970-01-01T00:00:00Z''"
  by code_simp

lemma rfc3339_zero_time: "rfc3339 zero_time = ''0001-01-01T00:00:00Z''"
  by code_simp

lemma rfc3339_leap_day: "rfc3339 (1709210096 * 10 ^ 9 + 5) = ''2024-02-29T12:34:56Z''"
  by code_simp

end
