(* ===== verification/QueryEngine.thy ===== *)
theory QueryEngine imports StoreReads GoTime begin

text \<open>
  Plain-English questions, \<open>internal/query/engine.go\<close>: \<open>Execute\<close> recognises a question by a
  regular expression or by words it contains, runs one store operation and formats its rows.
  The four regular expressions are written out as searches on bytes.
\<close>

section \<open>The regular expressions\<close>

definition is_word :: "char \<Rightarrow> bool" where
  "is_word c \<longleftrightarrow> is_digit c \<or> in_bytes 65 90 c \<or> in_bytes 97 122 c \<or> c = CHR ''_''"

definition at_boundary :: "bool \<Rightarrow> string \<Rightarrow> bool" where
  "at_boundary prev s \<longleftrightarrow> prev \<noteq> (s \<noteq> [] \<and> is_word (hd s))"

definition re_space :: "char \<Rightarrow> bool" where
  "re_space c \<longleftrightarrow> byte_val c \<in> {9, 10, 12, 13, 32}"

text \<open>\<open>(?i)^who modified (.+?)\??$\<close>: a nonempty rest without newlines, less one final question
  mark if something is left.\<close>

definition match_who_modified :: "string \<Rightarrow> string option" where
  "match_who_modified q =
     (let kw = ''who modified ''; rest = drop (length kw) q in
      if prefix kw (to_lower q) \<and> rest \<noteq> [] \<and> CHR 0x0A \<notin> set rest then
        (if last rest = CHR ''?'' \<and> length rest > 1 then Some (butlast rest) else Some rest)
      else None)"

text \<open>\<open>(?i)\b<kw>\s+(\d+)\b\<close>: the digits of the first match.\<close>

definition match_keyword_number_at :: "string \<Rightarrow> bool \<Rightarrow> string \<Rightarrow> string option" where
  "match_keyword_number_at kw prev s =
     (let r = drop (length kw) s; r' = dropWhile re_space r;
          ds = takeWhile is_digit r'; r'' = dropWhile is_digit r'
      in if at_boundary prev s \<and> prefix kw (to_lower s) \<and> r \<noteq> [] \<and> re_space (hd r) \<and> ds \<noteq> [] \<and>
            at_boundary True r''
         then Some ds else None)"

fun match_keyword_number :: "string \<Rightarrow> bool \<Rightarrow> string \<Rightarrow> string option" where
  "match_keyword_number kw prev s =
     (case match_keyword_number_at kw prev s of
        Some ds \<Rightarrow> Some ds
      | None \<Rightarrow>
          (case s of
             [] \<Rightarrow> None
           | c # t \<Rightarrow> match_keyword_number kw (is_word c) t))"

declare match_keyword_number.simps [simp del]

text \<open>\<open>(?i)\b(\d+\.\d+\.\d+\.\d+)\b\<close>: four groups of digits, the first match.\<close>

fun match_groups :: "nat \<Rightarrow> string \<Rightarrow> string option" where
  "match_groups 0 s = None"
| "match_groups (Suc n) s =
     (let ds = takeWhile is_digit s; r = dropWhile is_digit s in
      if ds = [] then None
      else if n = 0 then (if at_boundary True r then Some ds else None)
      else case r of
        [] \<Rightarrow> None
      | c # r' \<Rightarrow>
          if c = CHR ''.'' then map_option (\<lambda>m. ds @ c # m) (match_groups n r') else None)"

fun match_ip :: "bool \<Rightarrow> string \<Rightarrow> string option" where
  "match_ip prev s =
     (case (if at_boundary prev s then match_groups 4 s else None) of
        Some ip \<Rightarrow> Some ip
      | None \<Rightarrow> (case s of [] \<Rightarrow> None | c # t \<Rightarrow> match_ip (is_word c) t))"

declare match_ip.simps [simp del]

section \<open>Results\<close>

record query_result =
  qr_title :: string
  qr_rows :: "string list"

definition row_process :: "event \<Rightarrow> string" where
  "row_process ev = rfc3339 (ev_timestamp ev) @ '' pid='' @ itoa (ev_pid ev) @ '' comm='' @ ev_comm ev"

definition row_modified :: "event \<Rightarrow> string" where
  "row_modified ev = row_process ev @ '' action='' @ ev_action ev"

definition row_matched :: "event \<Rightarrow> string" where
  "row_matched ev = rfc3339 (ev_timestamp ev) @ '' '' @ ev_category ev @ '' pid='' @ itoa (ev_pid ev) @
     '' '' @ ev_action ev @ '' '' @ ev_path ev"

definition row_restart :: "event \<Rightarrow> string" where
  "row_restart ev =
     (if ev_action ev = ''exit''
      then rfc3339 (ev_timestamp ev) @ '' process exited pid='' @ itoa (ev_pid ev) @ '' comm='' @ ev_comm ev
      else rfc3339 (ev_timestamp ev) @ '' process started pid='' @ itoa (ev_pid ev) @ '' comm='' @
        ev_comm ev @ '' exe='' @ ev_exe ev)"

definition row_connection :: "event \<Rightarrow> string" where
  "row_connection ev = row_process ev @ '' -> '' @ ev_remote_addr ev @ '':'' @ itoa (ev_remote_port ev)"

definition row_port :: "int \<Rightarrow> socket_record \<Rightarrow> string" where
  "row_port port sr = rfc3339 (sr_seen_at sr) @ '' pid='' @ itoa (sr_pid sr) @ '' comm='' @
     sr_comm sr @ '' port='' @ itoa port"

definition row_pid :: "event \<Rightarrow> string" where
  "row_pid ev = rfc3339 (ev_timestamp ev) @ '' '' @ ev_category ev @ '' '' @ ev_action ev"

definition row_file :: "event \<Rightarrow> string" where
  "row_file ev = row_modified ev @ '' path='' @ ev_path ev"

section \<open>The queries\<close>

text \<open>The characters of \<open>strings.Trim(w, "?.,'\"")\<close>.\<close>

definition trim_marks :: "string \<Rightarrow> string" where
  "trim_marks s = trim_cutset s [CHR ''?'', CHR ''.'', CHR '','', CHR 0x27, CHR 0x22]"

definition restart_stop_words :: "string list" where
  "restart_stop_words =
     [''what'', ''changed'', ''before'', ''after'', ''the'', ''restarted'', ''restart'', ''was'', ''did'',
      ''when'', ''why'', ''process'', ''service'', ''a'', ''is'']"

fun first_content_word :: "string list \<Rightarrow> string" where
  "first_content_word [] = []"
| "first_content_word (w0 # ws) =
     (let w = trim_marks w0 in
      if w \<noteq> [] \<and> w \<notin> set restart_stop_words then w else first_content_word ws)"

definition restart_comm :: "string \<Rightarrow> string" where
  "restart_comm q = first_content_word (split_fields (to_lower q))"

definition connection_host :: "string \<Rightarrow> string" where
  "connection_host q =
     (case cut_at (to_lower q) ''connected to '' of
        None \<Rightarrow> []
      | Some (before, after) \<Rightarrow> takeWhile (\<lambda>c. c \<noteq> CHR '' '') (trim_marks (trim_space after)))"

type_synonym asker = "store \<Rightarrow> string \<Rightarrow> query_result result"

definition query_restart :: "engine \<Rightarrow> unmarshaller \<Rightarrow> asker" where
  "query_restart exec um st q =
     (let comm = restart_comm q;
          f0 = empty_filter\<lparr>f_categories := [''process''],
            f_actions := [''exec'', ''exit'', ''fork'', ''clone''], f_limit := 200\<rparr>;
          f = (if comm \<noteq> [] then f0\<lparr>f_comms := [comm]\<rparr> else f0);
          title = (if comm \<noteq> [] then ''restart window for '' @ comm else ''process restart window'')
      in rbind (store_query exec um st f)
           (\<lambda>events. Inr \<lparr>qr_title = title, qr_rows = map row_restart events\<rparr>))"

definition connect_filter :: event_filter where
  "connect_filter = empty_filter\<lparr>f_categories := [''network''], f_actions := [''connect''], f_limit := 200\<rparr>"

definition matches_ip :: "string \<Rightarrow> event \<Rightarrow> bool" where
  "matches_ip ip ev \<longleftrightarrow>
     \<not> (ev_remote_addr ev \<noteq> ip \<and> \<not> contains (to_lower (ev_remote_host ev)) (to_lower ip))"

definition matches_host :: "string \<Rightarrow> event \<Rightarrow> bool" where
  "matches_host host ev \<longleftrightarrow>
     \<not> (host \<noteq> [] \<and> \<not> contains (to_lower (ev_remote_host ev)) host \<and>
        \<not> contains (ev_remote_addr ev) host)"

definition query_connection :: "engine \<Rightarrow> unmarshaller \<Rightarrow> asker" where
  "query_connection exec um st q =
     rbind (store_query exec um st connect_filter) (\<lambda>events.
       Inr \<lparr>qr_title = ''matching connections'',
         qr_rows =
           (case match_ip False q of
              Some ip \<Rightarrow> map row_connection (filter (matches_ip ip) events)
            | None \<Rightarrow> map row_connection (filter (matches_host (connection_host q)) events))\<rparr>)"

text \<open>\<open>strconv.Atoi\<close> of digits with the error ignored: out of range gives the largest integer.\<close>

definition digits_int :: "string \<Rightarrow> int" where
  "digits_int ds = (case atoi ds of Some n \<Rightarrow> n | None \<Rightarrow> 2 ^ 63 - 1)"

definition opened_port :: "int \<Rightarrow> socket_record \<Rightarrow> bool" where
  "opened_port port sr \<longleftrightarrow>
     sr_local_port sr = port \<and> (sr_state sr = ''listen'' \<or> sr_state sr = ''bind'')"

definition query_port :: "engine \<Rightarrow> asker" where
  "query_port exec st q =
     (case match_keyword_number ''port'' False q of
        None \<Rightarrow> Inr \<lparr>qr_title = ''opened port'', qr_rows = []\<rparr>
      | Some ds \<Rightarrow>
          let port = digits_int ds in
          rbind (store_sockets exec st 500) (\<lambda>socks.
            Inr \<lparr>qr_title = ''processes that opened port '' @ itoa port,
                 qr_rows = map (row_port port) (filter (opened_port port) socks)\<rparr>))"

definition empty_result :: query_result where
  "empty_result = \<lparr>qr_title = [], qr_rows = []\<rparr>"

definition query_pid :: "engine \<Rightarrow> unmarshaller \<Rightarrow> asker" where
  "query_pid exec um st q =
     (case match_keyword_number ''pid'' False q of
        None \<Rightarrow> Inr empty_result
      | Some ds \<Rightarrow>
          let pid = digits_int ds in
          rbind (store_query exec um st
              (empty_filter\<lparr>f_pids := [pid], f_order_asc := True, f_limit := 200\<rparr>)) (\<lambda>events.
            Inr \<lparr>qr_title = ''activity for pid '' @ itoa pid, qr_rows = map row_pid events\<rparr>))"

definition path_filter :: "string \<Rightarrow> event_filter" where
  "path_filter path = empty_filter\<lparr>f_exact_path := path, f_order_asc := True, f_limit := 200\<rparr>"

definition query_file :: "engine \<Rightarrow> unmarshaller \<Rightarrow> asker" where
  "query_file exec um st q =
     (case cut_at q ''file'' of
        None \<Rightarrow> Inr empty_result
      | Some (before, after) \<Rightarrow>
          let path = trim_cutset (trim_space after) [CHR 0x22] in
          rbind (store_query exec um st (path_filter path)) (\<lambda>events.
            Inr \<lparr>qr_title = ''activity for file '' @ path, qr_rows = map row_file events\<rparr>))"

definition modifies_file :: "event \<Rightarrow> bool" where
  "modifies_file ev \<longleftrightarrow> ev_category ev = ''file'' \<and>
     (ev_action ev = ''write'' \<or> ev_action ev = ''rename'' \<or> ev_action ev = ''unlink'')"

definition query_who_modified :: "engine \<Rightarrow> unmarshaller \<Rightarrow> store \<Rightarrow> string \<Rightarrow> query_result result" where
  "query_who_modified exec um st m =
     (let path = trim_space m in
      rbind (store_query exec um st (path_filter path)) (\<lambda>events.
        Inr \<lparr>qr_title = ''who modified '' @ path,
             qr_rows = map row_modified (filter modifies_file events)\<rparr>))"

definition query_text_default :: "engine \<Rightarrow> unmarshaller \<Rightarrow> asker" where
  "query_text_default exec um st q =
     rbind (store_query_text exec um st (split_fields (trim_space q)) 50) (\<lambda>events.
       Inr \<lparr>qr_title = ''matched timeline'', qr_rows = map row_matched events\<rparr>)"

definition execute_question :: "engine \<Rightarrow> unmarshaller \<Rightarrow> asker" where
  "execute_question exec um st question =
     (let q = trim_space question; lq = to_lower q in
      case match_who_modified q of
        Some m \<Rightarrow> query_who_modified exec um st m
      | None \<Rightarrow>
          if contains lq ''restarted'' \<and> contains lq ''before'' then query_restart exec um st q
          else if contains lq ''connected to'' \<or> contains lq ''connected'' then query_connection exec um st q
          else if contains lq ''opened port'' then query_port exec st q
          else if contains lq ''show activity for pid'' then query_pid exec um st q
          else if contains lq ''show activity for file'' then query_file exec um st q
          else query_text_default exec um st q)"

section \<open>Reading the questions\<close>

lemma match_who_modified_plain:
  "p \<noteq> [] \<Longrightarrow> CHR 0x0A \<notin> set p \<Longrightarrow> last p \<noteq> CHR ''?'' \<Longrightarrow> to_lower kw = ''who modified '' \<Longrightarrow>
    match_who_modified (kw @ p) = Some p \<and> match_who_modified (kw @ p @ ''?'') = Some p"
proof -
  assume p: "p \<noteq> []" "CHR 0x0A \<notin> set p" "last p \<noteq> CHR ''?''" and kw: "to_lower kw = ''who modified ''"
  have len: "length kw = 13" using arg_cong [OF kw, of length] by simp
  have drop: "drop 13 (kw @ r) = r" for r using len by simp
  have kw': "prefix ''who modified '' (to_lower (kw @ r))" for r using kw by simp
  have l13: "length ''who modified '' = 13" by simp
  show ?thesis
    unfolding match_who_modified_def Let_def l13 drop using kw' [of p] kw' [of "p @ ''?''"] p by simp
qed

end
