(* ===== verification/QueryProps.thy ===== *)
theory QueryProps imports QueryEngine StoreProps begin

text \<open>The properties of the plain-English questions: what each recognised question answers.\<close>

text \<open>
  C32: \<open>who modified <path>?\<close> lists, oldest first, the writes, renames and unlinks among the first
  200 stored events on exactly that path (as path or old path), however the words are cased and
  with or without the question mark.
\<close>

theorem who_modified_lists_changes:
  assumes "sql_engine_total exec" and "store_ready st" and "store_inv json_unmarshal st"
    and "to_lower kw = ''who modified ''" and "trim_space (kw @ p @ m) = kw @ p @ m"
    and "m = [] \<or> m = ''?''" and "trim_space p = p" and "p \<noteq> []" and "CHR 0x0A \<notin> set p"
    and "last p \<noteq> CHR ''?''"
  shows "execute_question exec json_unmarshal st (kw @ p @ m) =
    Inr \<lparr>qr_title = ''who modified '' @ p,
      qr_rows = map row_modified (filter modifies_file (take 200 (order_events True
        (filter (\<lambda>ev. ev_path ev = p \<or> ev_old_path ev = p) (store_events json_unmarshal st)))))\<rparr>"
proof -
  have "match_who_modified (kw @ p @ m) = Some p"
    using match_who_modified_plain [OF assms(8-10,4)] assms(6) by auto
  then have "execute_question exec json_unmarshal st (kw @ p @ m) =
      query_who_modified exec json_unmarshal st p"
    by (simp add: execute_question_def assms(5) Let_def)
  moreover have "event_matches (path_filter p) = (\<lambda>ev. ev_path ev = p \<or> ev_old_path ev = p)"
    using assms(8) by (simp add: fun_eq_iff event_matches_def path_filter_def empty_filter_def is_zero_time_def)
  moreover have "validate_filter (path_filter p) = None"
    by (simp add: validate_filter_def path_filter_def empty_filter_def is_zero_time_def)
  from event_store_total.store_query_total [OF event_store_total_json [OF assms(1)] assms(2,3) this]
  have "store_query exec json_unmarshal st (path_filter p) =
      Inr (query_spec (path_filter p) (store_events json_unmarshal st))" .
  ultimately show ?thesis
    by (simp add: query_who_modified_def assms(7) query_spec_def Let_def)
      (simp add: path_filter_def)
qed

theorem who_modified_lists_changes_witness:
  "execute_question fragment_exec json_unmarshal filled_store (''Who Modified '' @ ''/etc/a_b'' @ ''?'') =
    Inr \<lparr>qr_title = ''who modified '' @ ''/etc/a_b'',
      qr_rows = map row_modified (filter modifies_file (take 200 (order_events True
        (filter (\<lambda>ev. ev_path ev = ''/etc/a_b'' \<or> ev_old_path ev = ''/etc/a_b'')
          (store_events json_unmarshal filled_store)))))\<rparr>"
proof (rule who_modified_lists_changes [OF frag.sql_engine_total_axioms filled_store_inv(2,1)])
  show "to_lower ''Who Modified '' = ''who modified ''" by code_simp
  show "trim_space (''Who Modified '' @ ''/etc/a_b'' @ ''?'') = ''Who Modified '' @ ''/etc/a_b'' @ ''?''"
    by code_simp
  show "trim_space ''/etc/a_b'' = ''/etc/a_b''" by code_simp
qed simp_all

text \<open>
  A question no pattern recognises falls back to the free-text search of its words over the
  50 newest matches, so every question is answered: over an engine without I/O errors \<open>Execute\<close>
  never fails on it.
\<close>

theorem other_questions_search_words:
  assumes "sql_engine_total exec" and "store_ready st" and "store_inv json_unmarshal st"
    and "match_who_modified (trim_space question) = None"
    and "\<forall>w \<in> {''restarted'', ''connected'', ''opened port'', ''show activity for pid'',
      ''show activity for file''}. \<not> contains (to_lower (trim_space question)) w"
  shows "execute_question exec json_unmarshal st question =
    Inr \<lparr>qr_title = ''matched timeline'',
      qr_rows = map row_matched (text_spec (split_fields (trim_space question)) 50
        (store_events json_unmarshal st))\<rparr>"
proof -
  have "prefix ''connected'' ''connected to''" by simp
  then have "\<not> contains (to_lower (trim_space question)) ''connected to''"
    using assms(5) unfolding contains_sublist
    by (meson insertI1 insertI2 prefix_imp_sublist sublist_order.order.trans)
  with assms(4,5) have "execute_question exec json_unmarshal st question =
      query_text_default exec json_unmarshal st (trim_space question)"
    by (simp add: execute_question_def Let_def)
  with event_store_total.query_text_total [OF event_store_total_json [OF assms(1)] assms(2,3)]
  show ?thesis by (simp add: query_text_default_def)
qed

theorem other_questions_search_words_witness:
  "execute_question fragment_exec json_unmarshal filled_store '' vim open '' =
    Inr \<lparr>qr_title = ''matched timeline'',
      qr_rows = map row_matched (text_spec (split_fields (trim_space '' vim open '')) 50
        (store_events json_unmarshal filled_store))\<rparr>"
  by (rule other_questions_search_words [OF frag.sql_engine_total_axioms filled_store_inv(2,1)])
    code_simp+

text \<open>
  \<open>what opened port N\<close> lists the listen and bind records of the store's socket list with that
  port; a listener recorded without an address, as the wildcard address is, is not in that list
  and can never be reported.
\<close>

theorem opened_port_needs_an_address:
  assumes "sql_engine_total exec" and "store_ready st" and "store_inv json_unmarshal st"
    and "match_keyword_number ''port'' False q = Some ds" and "port = digits_int ds"
  shows "query_port exec st q =
      Inr \<lparr>qr_title = ''processes that opened port '' @ itoa port,
        qr_rows = map (row_port port) (filter (opened_port port)
          (sockets_spec 500 (store_events json_unmarshal st)))\<rparr> \<and>
    (\<forall>sr \<in> set (sockets_spec 500 (store_events json_unmarshal st)).
      \<exists>ev \<in> set (store_events json_unmarshal st).
        sr = socket_of ev \<and> (ev_local_addr ev \<noteq> [] \<or> ev_remote_addr ev \<noteq> []))"
proof
  show "query_port exec st q =
      Inr \<lparr>qr_title = ''processes that opened port '' @ itoa port,
        qr_rows = map (row_port port) (filter (opened_port port)
          (sockets_spec 500 (store_events json_unmarshal st)))\<rparr>"
    using assms(4,5) event_store_total.sockets_total [OF event_store_total_json [OF assms(1)] assms(2,3)]
    unfolding query_port_def Let_def by simp
  show "\<forall>sr \<in> set (sockets_spec 500 (store_events json_unmarshal st)).
      \<exists>ev \<in> set (store_events json_unmarshal st).
        sr = socket_of ev \<and> (ev_local_addr ev \<noteq> [] \<or> ev_remote_addr ev \<noteq> [])"
    by (auto simp: sockets_spec_def has_socket_def dest!: in_set_takeD)
qed

theorem opened_port_needs_an_address_witness:
  "query_port fragment_exec filled_store ''what opened port 8080?'' =
    Inr \<lparr>qr_title = ''processes that opened port '' @ itoa 8080,
      qr_rows = map (row_port 8080) (filter (opened_port 8080)
        (sockets_spec 500 (store_events json_unmarshal filled_store)))\<rparr>"
proof -
  have m: "match_keyword_number ''port'' False ''what opened port 8080?'' = Some ''8080''" by code_simp
  have d: "8080 = digits_int ''8080''" by code_simp
  from opened_port_needs_an_address [OF frag.sql_engine_total_axioms filled_store_inv(2,1) m d]
  show ?thesis by blast
qed

end
