(* ===== verification/Bindings.thy ===== *)
theory Bindings imports KernelPrograms begin

text \<open>
  The bindings that \<open>bpf2go\<close> generates, \<open>internal/ebpf/collector_bpfel.go\<close>: the loading of the
  embedded object, the structs whose fields the eBPF library fills by the tag of each, and the
  closing of what was loaded. Reading the object's format and loading it into the kernel is the
  library's and a parameter. A struct is the list of its fields with their tags, in order.
\<close>

section \<open>Loading\<close>

definition load_collector :: "(byte list \<Rightarrow> 'spec result) \<Rightarrow> byte list \<Rightarrow> 'spec result" where
  "load_collector load_spec object =
     (case load_spec object of
        Inl e \<Rightarrow> Inl (wrap_err ''can't load collector'' e)
      | Inr spec \<Rightarrow> Inr spec)"

definition load_collector_objects ::
    "(byte list \<Rightarrow> 'spec result) \<Rightarrow> ('spec \<Rightarrow> go_error option) \<Rightarrow> byte list \<Rightarrow> go_error option" where
  "load_collector_objects load_spec load_and_assign object =
     (case load_collector load_spec object of
        Inl e \<Rightarrow> Some e
      | Inr spec \<Rightarrow> load_and_assign spec)"

section \<open>Specifications\<close>

definition collector_program_specs :: "(string \<times> string) list" where
  "collector_program_specs =
     [(''TraceBlockRqIssue'', ''trace_block_rq_issue''),
      (''TraceSchedProcessExit'', ''trace_sched_process_exit''),
      (''TraceSchedProcessFork'', ''trace_sched_process_fork''),
      (''TraceSysEnterAccept'', ''trace_sys_enter_accept''),
      (''TraceSysEnterAccept4'', ''trace_sys_enter_accept4''),
      (''TraceSysEnterAccess'', ''trace_sys_enter_access''),
      (''TraceSysEnterBind'', ''trace_sys_enter_bind''),
      (''TraceSysEnterChmod'', ''trace_sys_enter_chmod''),
      (''TraceSysEnterChown'', ''trace_sys_enter_chown''),
      (''TraceSysEnterClone'', ''trace_sys_enter_clone''),
      (''TraceSysEnterClone3'', ''trace_sys_enter_clone3''),
      (''TraceSysEnterClose'', ''trace_sys_enter_close''),
      (''TraceSysEnterConnect'', ''trace_sys_enter_connect''),
      (''TraceSysEnterCopyFileRange'', ''trace_sys_enter_copy_file_range''),
      (''TraceSysEnterDup'', ''trace_sys_enter_dup''),
      (''TraceSysEnterDup2'', ''trace_sys_enter_dup2''),
      (''TraceSysEnterDup3'', ''trace_sys_enter_dup3''),
      (''TraceSysEnterExecve'', ''trace_sys_enter_execve''),
      (''TraceSysEnterExecveat'', ''trace_sys_enter_execveat''),
      (''TraceSysEnterFaccessat'', ''trace_sys_enter_faccessat''),
      (''TraceSysEnterFchmod'', ''trace_sys_enter_fchmod''),
      (''TraceSysEnterFchmodat'', ''trace_sys_enter_fchmodat''),
      (''TraceSysEnterFchown'', ''trace_sys_enter_fchown''),
      (''TraceSysEnterFchownat'', ''trace_sys_enter_fchownat''),
      (''TraceSysEnterFtruncate'', ''trace_sys_enter_ftruncate''),
      (''TraceSysEnterKill'', ''trace_sys_enter_kill''),
      (''TraceSysEnterLinkat'', ''trace_sys_enter_linkat''),
      (''TraceSysEnterListen'', ''trace_sys_enter_listen''),
      (''TraceSysEnterLseek'', ''trace_sys_enter_lseek''),
      (''TraceSysEnterMkdir'', ''trace_sys_enter_mkdir''),
      (''TraceSysEnterMkdirat'', ''trace_sys_enter_mkdirat''),
      (''TraceSysEnterMmap'', ''trace_sys_enter_mmap''),
      (''TraceSysEnterMprotect'', ''trace_sys_enter_mprotect''),
      (''TraceSysEnterMunmap'', ''trace_sys_enter_munmap''),
      (''TraceSysEnterNewfstatat'', ''trace_sys_enter_newfstatat''),
      (''TraceSysEnterOpen'', ''trace_sys_enter_open''),
      (''TraceSysEnterOpenat'', ''trace_sys_enter_openat''),
      (''TraceSysEnterOpenat2'', ''trace_sys_enter_openat2''),
      (''TraceSysEnterPipe2'', ''trace_sys_enter_pipe2''),
      (''TraceSysEnterPread64'', ''trace_sys_enter_pread64''),
      (''TraceSysEnterPwrite64'', ''trace_sys_enter_pwrite64''),
      (''TraceSysEnterRead'', ''trace_sys_enter_read''),
      (''TraceSysEnterReadlinkat'', ''trace_sys_enter_readlinkat''),
      (''TraceSysEnterReadv'', ''trace_sys_enter_readv''),
      (''TraceSysEnterRecvfrom'', ''trace_sys_enter_recvfrom''),
      (''TraceSysEnterRecvmsg'', ''trace_sys_enter_recvmsg''),
      (''TraceSysEnterRenameat2'', ''trace_sys_enter_renameat2''),
      (''TraceSysEnterRmdir'', ''trace_sys_enter_rmdir''),
      (''TraceSysEnterSendfile'', ''trace_sys_enter_sendfile''),
      (''TraceSysEnterSendmsg'', ''trace_sys_enter_sendmsg''),
      (''TraceSysEnterSendto'', ''trace_sys_enter_sendto''),
      (''TraceSysEnterShutdown'', ''trace_sys_enter_shutdown''),
      (''TraceSysEnterSocket'', ''trace_sys_enter_socket''),
      (''TraceSysEnterSplice'', ''trace_sys_enter_splice''),
      (''TraceSysEnterSymlinkat'', ''trace_sys_enter_symlinkat''),
      (''TraceSysEnterTgkill'', ''trace_sys_enter_tgkill''),
      (''TraceSysEnterTruncate'', ''trace_sys_enter_truncate''),
      (''TraceSysEnterUnlinkat'', ''trace_sys_enter_unlinkat''),
      (''TraceSysEnterWrite'', ''trace_sys_enter_write''),
      (''TraceSysEnterWritev'', ''trace_sys_enter_writev''),
      (''TraceSysExitOpen'', ''trace_sys_exit_open''),
      (''TraceSysExitOpenat'', ''trace_sys_exit_openat''),
      (''TraceSysExitOpenat2'', ''trace_sys_exit_openat2'')]"

definition collector_map_specs :: "(string \<times> string) list" where
  "collector_map_specs =
     [(''Events'', ''events''),
      (''FdPath'', ''fd_path''),
      (''PathScratch'', ''path_scratch''),
      (''PendingOpen'', ''pending_open''),
      (''RingbufDrops'', ''ringbuf_drops''),
      (''SelfPid'', ''self_pid'')]"

definition collector_variable_specs :: "(string \<times> string) list" where
  "collector_variable_specs =
     [(''LtmUnusedEvent'', ''_ltm_unused_event'')]"

section \<open>Loaded objects\<close>

definition collector_programs :: "(string \<times> string) list" where
  "collector_programs =
     [(''TraceBlockRqIssue'', ''trace_block_rq_issue''),
      (''TraceSchedProcessExit'', ''trace_sched_process_exit''),
      (''TraceSchedProcessFork'', ''trace_sched_process_fork''),
      (''TraceSysEnterAccept'', ''trace_sys_enter_accept''),
      (''TraceSysEnterAccept4'', ''trace_sys_enter_accept4''),
      (''TraceSysEnterAccess'', ''trace_sys_enter_access''),
      (''TraceSysEnterBind'', ''trace_sys_enter_bind''),
      (''TraceSysEnterChmod'', ''trace_sys_enter_chmod''),
      (''TraceSysEnterChown'', ''trace_sys_enter_chown''),
      (''TraceSysEnterClone'', ''trace_sys_enter_clone''),
      (''TraceSysEnterClone3'', ''trace_sys_enter_clone3''),
      (''TraceSysEnterClose'', ''trace_sys_enter_close''),
      (''TraceSysEnterConnect'', ''trace_sys_enter_connect''),
      (''TraceSysEnterCopyFileRange'', ''trace_sys_enter_copy_file_range''),
      (''TraceSysEnterDup'', ''trace_sys_enter_dup''),
      (''TraceSysEnterDup2'', ''trace_sys_enter_dup2''),
      (''TraceSysEnterDup3'', ''trace_sys_enter_dup3''),
      (''TraceSysEnterExecve'', ''trace_sys_enter_execve''),
      (''TraceSysEnterExecveat'', ''trace_sys_enter_execveat''),
      (''TraceSysEnterFaccessat'', ''trace_sys_enter_faccessat''),
      (''TraceSysEnterFchmod'', ''trace_sys_enter_fchmod''),
      (''TraceSysEnterFchmodat'', ''trace_sys_enter_fchmodat''),
      (''TraceSysEnterFchown'', ''trace_sys_enter_fchown''),
      (''TraceSysEnterFchownat'', ''trace_sys_enter_fchownat''),
      (''TraceSysEnterFtruncate'', ''trace_sys_enter_ftruncate''),
      (''TraceSysEnterKill'', ''trace_sys_enter_kill''),
      (''TraceSysEnterLinkat'', ''trace_sys_enter_linkat''),
      (''TraceSysEnterListen'', ''trace_sys_enter_listen''),
      (''TraceSysEnterLseek'', ''trace_sys_enter_lseek''),
      (''TraceSysEnterMkdir'', ''trace_sys_enter_mkdir''),
      (''TraceSysEnterMkdirat'', ''trace_sys_enter_mkdirat''),
      (''TraceSysEnterMmap'', ''trace_sys_enter_mmap''),
      (''TraceSysEnterMprotect'', ''trace_sys_enter_mprotect''),
      (''TraceSysEnterMunmap'', ''trace_sys_enter_munmap''),
      (''TraceSysEnterNewfstatat'', ''trace_sys_enter_newfstatat''),
      (''TraceSysEnterOpen'', ''trace_sys_enter_open''),
      (''TraceSysEnterOpenat'', ''trace_sys_enter_openat''),
      (''TraceSysEnterOpenat2'', ''trace_sys_enter_openat2''),
      (''TraceSysEnterPipe2'', ''trace_sys_enter_pipe2''),
      (''TraceSysEnterPread64'', ''trace_sys_enter_pread64''),
      (''TraceSysEnterPwrite64'', ''trace_sys_enter_pwrite64''),
      (''TraceSysEnterRead'', ''trace_sys_enter_read''),
      (''TraceSysEnterReadlinkat'', ''trace_sys_enter_readlinkat''),
      (''TraceSysEnterReadv'', ''trace_sys_enter_readv''),
      (''TraceSysEnterRecvfrom'', ''trace_sys_enter_recvfrom''),
      (''TraceSysEnterRecvmsg'', ''trace_sys_enter_recvmsg''),
      (''TraceSysEnterRenameat2'', ''trace_sys_enter_renameat2''),
      (''TraceSysEnterRmdir'', ''trace_sys_enter_rmdir''),
      (''TraceSysEnterSendfile'', ''trace_sys_enter_sendfile''),
      (''TraceSysEnterSendmsg'', ''trace_sys_enter_sendmsg''),
      (''TraceSysEnterSendto'', ''trace_sys_enter_sendto''),
      (''TraceSysEnterShutdown'', ''trace_sys_enter_shutdown''),
      (''TraceSysEnterSocket'', ''trace_sys_enter_socket''),
      (''TraceSysEnterSplice'', ''trace_sys_enter_splice''),
      (''TraceSysEnterSymlinkat'', ''trace_sys_enter_symlinkat''),
      (''TraceSysEnterTgkill'', ''trace_sys_enter_tgkill''),
      (''TraceSysEnterTruncate'', ''trace_sys_enter_truncate''),
      (''TraceSysEnterUnlinkat'', ''trace_sys_enter_unlinkat''),
      (''TraceSysEnterWrite'', ''trace_sys_enter_write''),
      (''TraceSysEnterWritev'', ''trace_sys_enter_writev''),
      (''TraceSysExitOpen'', ''trace_sys_exit_open''),
      (''TraceSysExitOpenat'', ''trace_sys_exit_openat''),
      (''TraceSysExitOpenat2'', ''trace_sys_exit_openat2'')]"

definition collector_maps :: "(string \<times> string) list" where
  "collector_maps =
     [(''Events'', ''events''),
      (''FdPath'', ''fd_path''),
      (''PathScratch'', ''path_scratch''),
      (''PendingOpen'', ''pending_open''),
      (''RingbufDrops'', ''ringbuf_drops''),
      (''SelfPid'', ''self_pid'')]"

definition collector_variables :: "(string \<times> string) list" where
  "collector_variables =
     [(''LtmUnusedEvent'', ''_ltm_unused_event'')]"

section \<open>Closing\<close>

text \<open>\<open>_CollectorClose\<close>: the closers reached, in order, and the error. A closer is a field; \<open>close\<close> is
  what closing it gives.\<close>

fun collector_close :: "(string \<Rightarrow> go_error option) \<Rightarrow> string list \<Rightarrow> string list \<times> go_error option" where
  "collector_close close [] = ([], None)"
| "collector_close close (c # cs) =
     (case close c of
        Some e \<Rightarrow> ([c], Some e)
      | None \<Rightarrow> (case collector_close close cs of (reached, r) \<Rightarrow> (c # reached, r)))"

definition program_closers :: "string list" where
  "program_closers =
     [''TraceBlockRqIssue'', ''TraceSchedProcessExit'', ''TraceSchedProcessFork'',
      ''TraceSysEnterAccept'', ''TraceSysEnterAccept4'', ''TraceSysEnterAccess'',
      ''TraceSysEnterBind'', ''TraceSysEnterChmod'', ''TraceSysEnterChown'',
      ''TraceSysEnterClone'', ''TraceSysEnterClone3'', ''TraceSysEnterClose'',
      ''TraceSysEnterConnect'', ''TraceSysEnterCopyFileRange'', ''TraceSysEnterDup'',
      ''TraceSysEnterDup2'', ''TraceSysEnterDup3'', ''TraceSysEnterExecve'',
      ''TraceSysEnterExecveat'', ''TraceSysEnterFaccessat'', ''TraceSysEnterFchmod'',
      ''TraceSysEnterFchmodat'', ''TraceSysEnterFchown'', ''TraceSysEnterFchownat'',
      ''TraceSysEnterFtruncate'', ''TraceSysEnterKill'', ''TraceSysEnterLinkat'',
      ''TraceSysEnterListen'', ''TraceSysEnterLseek'', ''TraceSysEnterMkdir'',
      ''TraceSysEnterMkdirat'', ''TraceSysEnterMmap'', ''TraceSysEnterMprotect'',
      ''TraceSysEnterMunmap'', ''TraceSysEnterNewfstatat'', ''TraceSysEnterOpen'',
      ''TraceSysEnterOpenat'', ''TraceSysEnterOpenat2'', ''TraceSysEnterPipe2'',
      ''TraceSysEnterPread64'', ''TraceSysEnterPwrite64'', ''TraceSysEnterRead'',
      ''TraceSysEnterReadlinkat'', ''TraceSysEnterReadv'', ''TraceSysEnterRecvfrom'',
      ''TraceSysEnterRecvmsg'', ''TraceSysEnterRenameat2'', ''TraceSysEnterRmdir'',
      ''TraceSysEnterSendfile'', ''TraceSysEnterSendmsg'', ''TraceSysEnterSendto'',
      ''TraceSysEnterShutdown'', ''TraceSysEnterSocket'', ''TraceSysEnterSplice'',
      ''TraceSysEnterSymlinkat'', ''TraceSysEnterTgkill'', ''TraceSysEnterTruncate'',
      ''TraceSysEnterUnlinkat'', ''TraceSysEnterWrite'', ''TraceSysEnterWritev'',
      ''TraceSysExitOpen'', ''TraceSysExitOpenat'', ''TraceSysExitOpenat2'']"

definition map_closers :: "string list" where
  "map_closers =
     [''Events'', ''FdPath'', ''PathScratch'', ''PendingOpen'', ''RingbufDrops'', ''SelfPid'']"

definition collector_programs_close :: "(string \<Rightarrow> go_error option) \<Rightarrow> string list \<times> go_error option" where
  "collector_programs_close close = collector_close close program_closers"

definition collector_maps_close :: "(string \<Rightarrow> go_error option) \<Rightarrow> string list \<times> go_error option" where
  "collector_maps_close close = collector_close close map_closers"

definition collector_objects_close :: "(string \<Rightarrow> go_error option) \<Rightarrow> string list \<times> go_error option" where
  "collector_objects_close close =
     (case collector_programs_close close of
        (reached, Some e) \<Rightarrow> (reached, Some e)
      | (reached, None) \<Rightarrow>
          (case collector_maps_close close of (more_reached, r) \<Rightarrow> (reached @ more_reached, r)))"

section \<open>The bindings and the object\<close>

lemma collector_close_append:
  "collector_close close (xs @ ys) =
    (case collector_close close xs of
       (reached, Some e) \<Rightarrow> (reached, Some e)
     | (reached, None) \<Rightarrow>
         (case collector_close close ys of (more_reached, r) \<Rightarrow> (reached @ more_reached, r)))"
  by (induction xs) (auto split: option.split prod.split)

lemma collector_close_none:
  "snd (collector_close close cs) = None \<longleftrightarrow> (\<forall>c \<in> set cs. close c = None)"
  by (induction cs) (auto split: option.split prod.split)

lemma collector_close_reached:
  "fst (collector_close close cs) =
    (let ok = takeWhile (\<lambda>c. close c = None) cs in take (Suc (length ok)) cs)"
  by (induction cs) (auto simp: Let_def split: option.split prod.split)

text \<open>The maps of the C source, by the names of their variables.\<close>

definition object_maps :: "string list" where
  "object_maps = [''events'', ''pending_open'', ''fd_path'', ''self_pid'', ''ringbuf_drops'', ''path_scratch'']"

lemma program_specs_in_object:
  "set (map snd collector_program_specs) \<subseteq> set (map (\<lambda>(g, e, p). p) object_programs)"
  by (simp add: collector_program_specs_def object_programs_def syscall_program_def process_programs_def
      open_programs_def open_exit_programs_def descriptor_programs_def path_programs_def
      memory_programs_def copy_programs_def network_programs_def)

lemma program_specs_distinct: "distinct (map snd collector_program_specs)"
  by (simp add: collector_program_specs_def)

lemma program_specs_object:
  "set (map snd collector_program_specs) = (\<lambda>(g, e, p). p) ` set object_programs"
proof -
  let ?A = "set (map snd collector_program_specs)" and ?B = "set (map (\<lambda>(g, e, p). p) object_programs)"
  have "card ?A = 63"
    using distinct_card [OF program_specs_distinct] by (simp add: collector_program_specs_def)
  moreover have "length object_programs = 63"
    by (simp add: object_programs_def process_programs_def open_programs_def open_exit_programs_def
        descriptor_programs_def path_programs_def memory_programs_def copy_programs_def network_programs_def)
  then have "card ?B \<le> 63" using card_length [of "map (\<lambda>(g, e, p). p) object_programs"] by simp
  ultimately have "?A = ?B" using card_seteq [OF _ program_specs_in_object] by simp
  then show ?thesis by simp
qed

text \<open>
  The generated bindings are those of this object: each program and each map of
  \<open>collector.bpf.c\<close> has exactly one field, before and after loading; and \<open>Close\<close> goes over every field
  once, the programs first, up to the first that fails, whose error it returns.
\<close>

theorem bindings_cover_the_object:
  "distinct (map snd collector_program_specs) \<and>
   set (map snd collector_program_specs) = (\<lambda>(g, e, p). p) ` set object_programs \<and>
   distinct (map snd collector_map_specs) \<and> set (map snd collector_map_specs) = set object_maps \<and>
   collector_programs = collector_program_specs \<and> collector_maps = collector_map_specs \<and>
   (let fields = map fst collector_programs @ map fst collector_maps in
    distinct fields \<and>
    fst (collector_objects_close close) =
      take (Suc (length (takeWhile (\<lambda>c. close c = None) fields))) fields \<and>
    (snd (collector_objects_close close) = None \<longleftrightarrow> (\<forall>c \<in> set fields. close c = None)))"
proof -
  let ?fields = "map fst collector_programs @ map fst collector_maps"
  have closers: "program_closers @ map_closers = ?fields"
    by (simp add: program_closers_def map_closers_def collector_programs_def collector_maps_def)
  then have "collector_objects_close close = collector_close close ?fields"
    by (simp add: collector_objects_close_def collector_programs_close_def collector_maps_close_def
        collector_close_append flip: closers)
  moreover have "distinct ?fields"
    by (simp add: collector_programs_def collector_maps_def)
  moreover have "distinct (map snd collector_map_specs)" by (simp add: collector_map_specs_def)
  moreover have "set (map snd collector_map_specs) = set object_maps"
    by (auto simp: collector_map_specs_def object_maps_def)
  moreover have "collector_programs = collector_program_specs" "collector_maps = collector_map_specs"
    by (simp_all add: collector_programs_def collector_program_specs_def collector_maps_def
        collector_map_specs_def)
  ultimately show ?thesis
    using program_specs_distinct program_specs_object
    by (simp only: collector_close_none collector_close_reached Let_def)
qed

end
