(* ===== verification/GoFlag.thy ===== *)
theory GoFlag imports GoStrings begin

text \<open>
  Go's \<open>flag\<close> package as the commands use it: a flag set with boolean flags and flags with a value,
  parsed up to the first argument that is no flag. \<open>strconv.ParseInt\<close> with base 0 reads the values
  of its integer flags.
\<close>

section \<open>Integers with a base prefix\<close>

definition lower_eq :: "char \<Rightarrow> char \<Rightarrow> bool" where
  "lower_eq c d \<longleftrightarrow> lower_char c = d"

text \<open>\<open>underscoreOK\<close>: the state is what came last, a digit or prefix, an underscore, other, nothing.\<close>

datatype underscore_state = USStart | USDigit | USUnderscore | USOther

fun underscore_loop :: "bool \<Rightarrow> underscore_state \<Rightarrow> string \<Rightarrow> bool" where
  "underscore_loop hex i [] = (i \<noteq> USUnderscore)"
| "underscore_loop hex i (c # s) =
     (if is_digit c \<or> hex \<and> in_bytes 97 102 (lower_char c) then underscore_loop hex USDigit s
      else if c = CHR ''_'' then (if i \<noteq> USDigit then False else underscore_loop hex USUnderscore s)
      else if i = USUnderscore then False
      else underscore_loop hex USOther s)"

definition base_of_prefix :: "string \<Rightarrow> (nat \<times> nat) option" where
  "base_of_prefix s =
     (case s of
        z # c # t \<Rightarrow>
          if z \<noteq> CHR ''0'' then None
          else if lower_eq c CHR ''b'' then Some (2, 2)
          else if lower_eq c CHR ''o'' then Some (8, 2)
          else if lower_eq c CHR ''x'' then Some (16, 2)
          else None
      | _ \<Rightarrow> None)"

definition underscore_ok :: "string \<Rightarrow> bool" where
  "underscore_ok s0 =
     (let s = (if s0 \<noteq> [] \<and> (hd s0 = CHR ''-'' \<or> hd s0 = CHR ''+'') then tl s0 else s0) in
      case base_of_prefix s of
        Some (b, n) \<Rightarrow> underscore_loop (b = 16) USDigit (drop n s)
      | None \<Rightarrow> underscore_loop False USStart s)"

definition digit_value :: "char \<Rightarrow> nat option" where
  "digit_value c =
     (if is_digit c then Some (byte_val c - 48)
      else if in_bytes 97 122 (lower_char c) then Some (byte_val (lower_char c) - 97 + 10)
      else None)"

fun digits_loop :: "nat \<Rightarrow> nat \<Rightarrow> string \<Rightarrow> nat option" where
  "digits_loop b n [] = Some n"
| "digits_loop b n (c # s) =
     (if c = CHR ''_'' then digits_loop b n s
      else case digit_value c of
        None \<Rightarrow> None
      | Some d \<Rightarrow> if d \<ge> b then None else digits_loop b (n * b + d) s)"

definition parse_uint0 :: "string \<Rightarrow> nat option" where
  "parse_uint0 s =
     (if s = [] then None
      else
        let (b, body) =
          (if hd s = CHR ''0'' then
             (case base_of_prefix s of
                Some (b, n) \<Rightarrow> if length s \<ge> 3 then (b, drop n s) else (8, drop 1 s)
              | None \<Rightarrow> (8, drop 1 s))
           else (10, s))
        in case digits_loop b 0 body of
          None \<Rightarrow> None
        | Some n \<Rightarrow> if CHR ''_'' \<in> set body \<and> \<not> underscore_ok s then None else Some n)"

definition parse_int0 :: "string \<Rightarrow> int option" where
  "parse_int0 s =
     (if s = [] then None
      else
        let neg = (hd s = CHR ''-'');
            body = (if neg \<or> hd s = CHR ''+'' then tl s else s)
        in case parse_uint0 body of
          None \<Rightarrow> None
        | Some n \<Rightarrow>
            let v = (if neg then - int n else int n)
            in if int64_range v then Some v else None)"

lemma parse_int0_samples:
  "parse_int0 ''200'' = Some 200" "parse_int0 ''-0x1F'' = Some (- 31)" "parse_int0 ''0b101'' = Some 5"
  "parse_int0 ''017'' = Some 15" "parse_int0 ''1_000'' = Some 1000" "parse_int0 ''1__0'' = None"
  "parse_int0 ''08'' = None" "parse_int0 ''0'' = Some 0" "parse_int0 ''0x'' = None" "parse_int0 ''-'' = None"
  by code_simp+

section \<open>Flag sets\<close>

text \<open>A flag is boolean or has a value that its \<open>Set\<close> accepts or refuses with an error text.\<close>

datatype flag_kind = BoolFlag | ValueFlag "string \<Rightarrow> string option"

definition string_flag :: flag_kind where
  "string_flag = ValueFlag (\<lambda>v. None)"

definition int_error :: "string \<Rightarrow> string" where
  "int_error v =
     (let body = (if v \<noteq> [] \<and> (hd v = CHR ''-'' \<or> hd v = CHR ''+'') then tl v else v)
      in if parse_uint0 body = None then ''parse error'' else ''value out of range'')"

definition int_flag :: flag_kind where
  "int_flag = ValueFlag (\<lambda>v. if parse_int0 v = None then Some (int_error v) else None)"

type_synonym flag_set = "(string \<times> flag_kind) list"

text \<open>The values set, in order, as text; a boolean flag is set to the text of its value.\<close>

type_synonym flag_values = "(string \<times> string) list"

datatype flag_token = NotAFlag | Terminator | BadFlag | Flag string "string option"

definition flag_token :: "string \<Rightarrow> flag_token" where
  "flag_token s =
     (if length s < 2 \<or> hd s \<noteq> CHR ''-'' then NotAFlag
      else if s = ''--'' then Terminator
      else
        let name = (if s ! 1 = CHR ''-'' then drop 2 s else drop 1 s) in
        if name = [] \<or> hd name = CHR ''-'' \<or> hd name = CHR ''='' then BadFlag
        else case cut_at name ''='' of
          Some (n, v) \<Rightarrow> Flag n (Some v)
        | None \<Rightarrow> Flag name None)"

definition set_flag :: "flag_kind \<Rightarrow> string \<Rightarrow> string \<Rightarrow> unit result" where
  "set_flag k name v =
     (case k of
        BoolFlag \<Rightarrow>
          if parse_bool v = None
          then Inl (Err (''invalid boolean value '' @ quote_go v @ '' for -'' @ name @ '': parse error''))
          else Inr ()
      | ValueFlag check \<Rightarrow>
          (case check v of
             Some e \<Rightarrow> Inl (Err (''invalid value '' @ quote_go v @ '' for flag -'' @ name @ '': '' @ e))
           | None \<Rightarrow> Inr ()))"

text \<open>The value of a flag and the arguments after it, \<open>None\<close> if the value is missing.\<close>

definition flag_argument ::
    "flag_kind \<Rightarrow> string option \<Rightarrow> string list \<Rightarrow> (string \<times> string list) option" where
  "flag_argument k value args =
     (case value of
        Some v \<Rightarrow> Some (v, args)
      | None \<Rightarrow>
          (case k of
             BoolFlag \<Rightarrow> Some (''true'', args)
           | ValueFlag check \<Rightarrow> (case args of [] \<Rightarrow> None | v # args' \<Rightarrow> Some (v, args'))))"

lemma flag_argument_shorter: "flag_argument k value args = Some (v, args') \<Longrightarrow> length args' \<le> length args"
  by (auto simp: flag_argument_def split: option.splits flag_kind.splits list.splits)

function (sequential) flagset_parse :: "flag_set \<Rightarrow> string list \<Rightarrow> (flag_values \<times> string list) result" where
  "flagset_parse fs [] = Inr ([], [])"
| "flagset_parse fs (a # args) =
     (case flag_token a of
        NotAFlag \<Rightarrow> Inr ([], a # args)
      | Terminator \<Rightarrow> Inr ([], args)
      | BadFlag \<Rightarrow> Inl (Err (''bad flag syntax: '' @ a))
      | Flag name value \<Rightarrow>
          (case map_of fs name of
             None \<Rightarrow>
               if name = ''help'' \<or> name = ''h'' then Inl (Err ''flag: help requested'')
               else Inl (Err (''flag provided but not defined: -'' @ name))
           | Some k \<Rightarrow>
               (case flag_argument k value args of
                  None \<Rightarrow> Inl (Err (''flag needs an argument: -'' @ name))
                | Some (v, args') \<Rightarrow>
                    rbind (set_flag k name v) (\<lambda>u.
                    rbind (flagset_parse fs args') (\<lambda>(vals, others).
                      Inr ((name, v) # vals, others))))))"
  by pat_completeness auto

termination
  by (relation "measure (\<lambda>(fs, args). length args)") (auto dest!: flag_argument_shorter)

declare flagset_parse.simps(2) [simp del]

text \<open>The last value of a flag, or its default; every value of a repeatable one.\<close>

definition flag_values_of :: "string \<Rightarrow> flag_values \<Rightarrow> string list" where
  "flag_values_of name vals = map snd (filter (\<lambda>nv. fst nv = name) vals)"

definition string_value :: "string \<Rightarrow> string \<Rightarrow> flag_values \<Rightarrow> string" where
  "string_value name dflt vals = last (dflt # flag_values_of name vals)"

definition bool_value :: "string \<Rightarrow> bool \<Rightarrow> flag_values \<Rightarrow> bool" where
  "bool_value name dflt vals =
     last (dflt # List.map_filter parse_bool (flag_values_of name vals))"

definition int_value :: "string \<Rightarrow> int \<Rightarrow> flag_values \<Rightarrow> int" where
  "int_value name dflt vals =
     last (dflt # List.map_filter parse_int0 (flag_values_of name vals))"

lemma flag_token_positional: "s = [] \<or> hd s \<noteq> CHR ''-'' \<Longrightarrow> flag_token s = NotAFlag"
  by (auto simp: flag_token_def)

lemma flagset_parse_positional:
  "a = [] \<or> hd a \<noteq> CHR ''-'' \<Longrightarrow> flagset_parse fs (a # args) = Inr ([], a # args)"
  using flag_token_positional [of a] by (simp add: flagset_parse.simps(2))

end
