(* ===== verification/AbiGen.thy ===== *)
theory AbiGen imports SqlText KernelSource GoFlag begin

text \<open>
  The generator \<open>internal/abi/gen/main.go\<close>: it checks the decoded \<open>abi.yaml\<close> and renders the four
  generated files, each with a hash of its body in a header, which \<open>-verify\<close> compares later. The YAML
  decoder, \<open>go/format\<close> (a function of the text that may fail), the file system and SHA-256 (any
  function from texts to bytes) are parameters. Padding counts bytes, as it does for the ASCII
  names of a schema.
\<close>

section \<open>The document\<close>

type_synonym tracepoint = tracepoint_spec

record column =
  cl_name :: string
  cl_type :: string
  cl_doc :: string
  cl_insert :: "bool option"

definition inserted :: "column \<Rightarrow> bool" where
  "inserted c \<longleftrightarrow> (case cl_insert c of None \<Rightarrow> True | Some b \<Rightarrow> b)"

record index_spec =
  ix_name :: string
  ix_columns :: "string list"

record schema_spec =
  ys_version :: int
  ys_table :: string
  ys_table_doc :: string
  ys_columns :: "column list"
  ys_indexes :: "index_spec list"

record kconst =
  kc_name :: string
  kc_value :: int

record kfield =
  kf_name :: string
  kf_type :: string
  kf_count :: string

record kernel_event_spec =
  kv_struct :: string
  kv_constants :: "kconst list"
  kv_fields :: "kfield list"

record abi_doc =
  ad_tracepoints :: "tracepoint list"
  ad_schema :: schema_spec
  ad_kernel_event :: kernel_event_spec

section \<open>Validation\<close>

definition fail :: "string \<Rightarrow> go_error + 'a" where
  "fail m = Inl (Err m)"

definition group_event :: "tracepoint \<Rightarrow> string" where
  "group_event tp = tp_group tp @ CHR 0x00 # tp_event tp"

fun check_tracepoints :: "int \<Rightarrow> string set \<Rightarrow> string set \<Rightarrow> tracepoint list \<Rightarrow> unit result" where
  "check_tracepoints i programs events [] = Inr ()"
| "check_tracepoints i programs events (tp # tps) =
     (if tp_group tp = [] \<or> tp_event tp = [] \<or> tp_program tp = [] then
        fail (''tracepoint '' @ itoa i @ '' has an empty group/event/program'')
      else if tp_program tp \<in> programs then fail (''duplicate program '' @ quote_go (tp_program tp))
      else if group_event tp \<in> events then
        fail (''duplicate tracepoint '' @ tp_group tp @ ''/'' @ tp_event tp)
      else check_tracepoints (i + 1) (insert (tp_program tp) programs) (insert (group_event tp) events) tps)"

fun check_columns :: "string set \<Rightarrow> column list \<Rightarrow> string set result" where
  "check_columns cols [] = Inr cols"
| "check_columns cols (c # cs) =
     (if cl_name c = [] \<or> cl_type c = [] then fail ''column with empty name or type''
      else if cl_name c \<in> cols then fail (''duplicate column '' @ quote_go (cl_name c))
      else check_columns (insert (cl_name c) cols) cs)"

fun check_index_columns :: "string set \<Rightarrow> string \<Rightarrow> string list \<Rightarrow> unit result" where
  "check_index_columns cols name [] = Inr ()"
| "check_index_columns cols name (c # cs) =
     (if c \<notin> cols then
        fail (''index '' @ quote_go name @ '' references unknown column '' @ quote_go c)
      else check_index_columns cols name cs)"

fun check_indexes :: "string set \<Rightarrow> string set \<Rightarrow> index_spec list \<Rightarrow> unit result" where
  "check_indexes cols seen [] = Inr ()"
| "check_indexes cols seen (ix # ixs) =
     (if ix_name ix = [] \<or> ix_columns ix = [] then
        fail (''index '' @ quote_go (ix_name ix) @ '' has no name or columns'')
      else if ix_name ix \<in> seen then fail (''duplicate index '' @ quote_go (ix_name ix))
      else rbind (check_index_columns cols (ix_name ix) (ix_columns ix))
        (\<lambda>_. check_indexes cols (insert (ix_name ix) seen) ixs))"

fun check_constants :: "(string \<rightharpoonup> int) \<Rightarrow> kconst list \<Rightarrow> (string \<rightharpoonup> int) result" where
  "check_constants km [] = Inr km"
| "check_constants km (c # cs) =
     (if kc_name c = [] then fail ''kernel_event constant with empty name''
      else if km (kc_name c) \<noteq> None then
        fail (''duplicate kernel_event constant '' @ quote_go (kc_name c))
      else check_constants (km(kc_name c \<mapsto> kc_value c)) cs)"

definition check_count :: "(string \<rightharpoonup> int) \<Rightarrow> kfield \<Rightarrow> unit result" where
  "check_count km f =
     (let what = ''field '' @ quote_go (kf_name f) @ '' count '' @ quote_go (kf_count f) in
      if kf_count f = [] then Inr ()
      else case km (kf_count f) of
        Some v \<Rightarrow>
          if v \<le> 0 then fail (what @ '' resolves to non-positive constant value '' @ itoa v) else Inr ()
      | None \<Rightarrow>
          (case atoi (kf_count f) of
             None \<Rightarrow> fail (what @ '' is neither a declared constant nor an integer'')
           | Some n \<Rightarrow> if n \<le> 0 then fail (what @ '' must be positive, got '' @ itoa n) else Inr ()))"

fun check_fields :: "(string \<rightharpoonup> int) \<Rightarrow> string set \<Rightarrow> kfield list \<Rightarrow> unit result" where
  "check_fields km seen [] = Inr ()"
| "check_fields km seen (f # fs) =
     (if kf_name f = [] \<or> kf_type f = [] then fail ''kernel_event field with empty name or type''
      else if kf_name f \<in> seen then fail (''duplicate kernel_event field '' @ quote_go (kf_name f))
      else rbind (check_count km f) (\<lambda>_. check_fields km (insert (kf_name f) seen) fs))"

definition validate_schema :: "schema_spec \<Rightarrow> unit result" where
  "validate_schema s =
     (if ys_version s \<le> 0 then fail (''schema.version must be positive, got '' @ itoa (ys_version s))
      else if ys_table s = [] then fail ''empty schema.table''
      else if ys_columns s = [] then fail ''schema declares no columns''
      else rbind (check_columns {} (ys_columns s)) (\<lambda>cols. check_indexes cols {} (ys_indexes s)))"

definition validate_kernel_event :: "kernel_event_spec \<Rightarrow> unit result" where
  "validate_kernel_event ke =
     (if kv_struct ke = [] then fail ''empty kernel_event.struct''
      else if kv_fields ke = [] then fail ''kernel_event declares no fields''
      else rbind (check_constants Map.empty (kv_constants ke))
        (\<lambda>km. check_fields km {} (kv_fields ke)))"

definition validate_doc :: "abi_doc \<Rightarrow> unit result" where
  "validate_doc doc =
     (if ad_tracepoints doc = [] then fail ''no tracepoints declared''
      else rbind (check_tracepoints 0 {} {} (ad_tracepoints doc)) (\<lambda>_.
        rbind (validate_schema (ad_schema doc)) (\<lambda>_. validate_kernel_event (ad_kernel_event doc))))"

section \<open>Headers and hashes\<close>

abbreviation (input) tab :: char where "tab \<equiv> CHR 0x09"

text \<open>\<open>hex.EncodeToString\<close>.\<close>

definition hex_string :: "byte list \<Rightarrow> string" where
  "hex_string bs = concat (map (\<lambda>b. [hex_char (unat b div 16), hex_char (unat b mod 16)]) bs)"

type_synonym hasher = "string \<Rightarrow> byte list"

definition content_hash :: "hasher \<Rightarrow> string \<Rightarrow> string" where
  "content_hash sha body = hex_string (sha body)"

definition hash_prefix :: string where
  "hash_prefix = ''// sha256: ''"

definition prepend_go_header :: "hasher \<Rightarrow> (string \<Rightarrow> string option) \<Rightarrow> string \<Rightarrow> string \<Rightarrow> string result" where
  "prepend_go_header sha gofmt inp body =
     (case gofmt body of
        None \<Rightarrow> Inl (Panic (''gofmt generated body for '' @ inp))
      | Some formatted \<Rightarrow>
          Inr (''// Code generated by internal/abi/gen from '' @ inp @ ''; DO NOT EDIT.'' @ [newline] @
            hash_prefix @ content_hash sha formatted @ [newline, newline] @ formatted))"

definition prepend_c_header :: "hasher \<Rightarrow> string \<Rightarrow> string \<Rightarrow> string" where
  "prepend_c_header sha inp body =
     ''/* Code generated by internal/abi/gen from '' @ inp @ ''; DO NOT EDIT. */'' @ [newline] @
       hash_prefix @ content_hash sha body @ [newline, newline] @ body"

text \<open>\<open>bytes.SplitN\<close> at newlines into four pieces, \<open>None\<close> for fewer.\<close>

definition split_lines4 :: "string \<Rightarrow> (string \<times> string \<times> string \<times> string) option" where
  "split_lines4 s =
     (case cut_at s [newline] of
        None \<Rightarrow> None
      | Some (l0, r0) \<Rightarrow>
          (case cut_at r0 [newline] of
             None \<Rightarrow> None
           | Some (l1, r1) \<Rightarrow>
               (case cut_at r1 [newline] of
                  None \<Rightarrow> None
                | Some (l2, r2) \<Rightarrow> Some (l0, l1, l2, r2))))"

definition split_generated_header :: "string \<Rightarrow> (string \<times> string) option" where
  "split_generated_header content =
     (case split_lines4 content of
        None \<Rightarrow> None
      | Some (l0, l1, l2, body) \<Rightarrow>
          if \<not> prefix hash_prefix l1 then None
          else if trim_space l2 \<noteq> [] then None
          else Some (trim_space (drop (length hash_prefix) l1), body))"

definition em_dash :: string where
  "em_dash = [CHR 0xE2, CHR 0x80, CHR 0x94]"

fun verify_generated :: "hasher \<Rightarrow> (string \<Rightarrow> string result) \<Rightarrow> string list \<Rightarrow> unit result" where
  "verify_generated sha fs [] = Inr ()"
| "verify_generated sha fs (path # paths) =
     (case fs path of
        Inl e \<Rightarrow> Inl (wrap_err path e)
      | Inr content \<Rightarrow>
          (case split_generated_header content of
             None \<Rightarrow> fail (path @ '': missing or malformed embedded content hash'')
           | Some (want, body) \<Rightarrow>
               (let got = content_hash sha body in
                if got \<noteq> want then
                  fail (path @ '': content hash '' @ got @ '' does not match embedded '' @ want @
                    ''; file was hand-edited after generation '' @ em_dash @ '' run '' @
                    [grave] @ ''make generate'' @ [grave] @ ''/'' @ [grave] @ ''make ebpf'' @ [grave])
                else verify_generated sha fs paths)))"

section \<open>Rendering\<close>

definition tracepoint_line :: "tracepoint \<Rightarrow> string" where
  "tracepoint_line tp =
     [tab] @ ''{Group: '' @ quote_go (tp_group tp) @ '', Event: '' @ quote_go (tp_event tp) @
       '', Program: '' @ quote_go (tp_program tp) @
       (if tp_optional tp then '', Optional: true'' else []) @ ''},'' @ [newline]"

definition tracepoints_body :: "tracepoint list \<Rightarrow> string" where
  "tracepoints_body tps =
     ''package abi'' @ [newline, newline] @
     ''// TracepointSpec defines one loader-visible capture hook in the embedded BPF'' @ [newline] @
     ''// object contract.'' @ [newline] @
     ''type TracepointSpec struct {'' @ [newline] @
     [tab] @ ''Group    string'' @ [newline, tab] @ ''Event    string'' @ [newline, tab] @
     ''Program  string'' @ [newline, tab] @ ''Optional bool'' @ [newline] @ ''}'' @ [newline, newline] @
     ''// CollectorTracepoints is the tracepoint/program contract expected by the eBPF'' @ [newline] @
     ''// loader. It is generated from abi.yaml, the source of truth.'' @ [newline] @
     ''var CollectorTracepoints = []TracepointSpec{'' @ [newline] @
     concat (map tracepoint_line tps) @ ''}'' @ [newline]"

text \<open>\<open>backquote\<close>, which panics on text with a grave accent.\<close>

definition backquote :: "string \<Rightarrow> string result" where
  "backquote s =
     (if grave \<in> set s then Inl (Panic ''generated text unexpectedly contains a backtick'')
      else Inr ([grave] @ s @ [grave]))"

definition name_width :: "column list \<Rightarrow> nat" where
  "name_width cs = foldl (\<lambda>w c. if length (cl_name c) > w then length (cl_name c) else w) 0 cs"

definition doc_line :: "nat \<Rightarrow> column \<Rightarrow> string result" where
  "doc_line w c =
     (case split_fields (cl_type c) of
        [] \<Rightarrow> Inl (Panic ''index out of range'')
      | base # others \<Rightarrow>
          Inr (''  '' @ pad_right w (cl_name c) @ ''  '' @ pad_right 7 base @ ''  '' @ cl_doc c @ [newline]))"

definition index_part :: "index_spec \<Rightarrow> string" where
  "index_part ix =
     (case ix_columns ix of
        [c] \<Rightarrow> c
      | cs \<Rightarrow> ''('' @ join '', '' cs @ '')'')"

definition schema_doc_text :: "schema_spec \<Rightarrow> string result" where
  "schema_doc_text s =
     rbind (rmap (doc_line (name_width (ys_columns s))) (ys_columns s)) (\<lambda>ls.
       Inr (''Table: '' @ ys_table s @
         (if ys_table_doc s \<noteq> [] then '' ('' @ ys_table_doc s @ '')'' else []) @ [newline] @
         concat ls @ [newline] @ ''Indexes: '' @ join '', '' (map index_part (ys_indexes s))))"

definition schema_abi_body :: "schema_spec \<Rightarrow> string result" where
  "schema_abi_body s =
     rbind (schema_doc_text s) (\<lambda>doc.
     rbind (backquote doc) (\<lambda>quoted.
       Inr (''package abi'' @ [newline, newline] @
         ''const SchemaVersion = '' @ itoa (ys_version s) @ [newline, newline] @
         ''// SchemaDoc describes the queryable data model. It is shown by '' @ [grave] @ ''ltm query sql'' @
         [grave, newline] @
         ''// with no arguments and embedded in the prompt sent to a configured agent.'' @ [newline] @
         ''const SchemaDoc = '' @ quoted @ [newline])))"

fun ddl_columns :: "column list \<Rightarrow> string" where
  "ddl_columns [] = []"
| "ddl_columns (c # cs) =
     [tab] @ cl_name c @ '' '' @ cl_type c @ (if cs = [] then [] else '','') @ [newline] @ ddl_columns cs"

definition table_ddl :: "schema_spec \<Rightarrow> string" where
  "table_ddl s =
     ''CREATE TABLE IF NOT EXISTS '' @ ys_table s @ '' ('' @ [newline] @ ddl_columns (ys_columns s) @ '')''"

definition index_ddl :: "schema_spec \<Rightarrow> index_spec \<Rightarrow> string" where
  "index_ddl s ix =
     ''CREATE INDEX IF NOT EXISTS '' @ ix_name ix @ '' ON '' @ ys_table s @ ''('' @
       join '', '' (ix_columns ix) @ '')''"

definition schema_texts :: "schema_spec \<Rightarrow> string list" where
  "schema_texts s = table_ddl s # map (index_ddl s) (ys_indexes s)"

definition all_columns :: "schema_spec \<Rightarrow> string list" where
  "all_columns s = map cl_name (ys_columns s)"

definition inserted_columns :: "schema_spec \<Rightarrow> string list" where
  "inserted_columns s = map cl_name (filter inserted (ys_columns s))"

definition placeholder_text :: "schema_spec \<Rightarrow> string" where
  "placeholder_text s = trim_suffix (repeat_str ''?, '' (length (inserted_columns s))) '', ''"

definition schema_store_body :: "schema_spec \<Rightarrow> string result" where
  "schema_store_body s =
     rbind (rmap backquote (schema_texts s)) (\<lambda>stmts.
     rbind (backquote (join '', '' (all_columns s))) (\<lambda>every.
     rbind (backquote (join '', '' (inserted_columns s))) (\<lambda>ins.
     rbind (backquote (placeholder_text s)) (\<lambda>marks.
       Inr (''package storage'' @ [newline, newline] @
         ''var schemaStatements = []string{'' @ [newline] @
         concat (map (\<lambda>q. [tab] @ q @ '','' @ [newline]) stmts) @ ''}'' @ [newline, newline] @
         ''const eventColumns = '' @ every @ [newline, newline] @
         ''const insertColumns = '' @ ins @ [newline, newline] @
         ''const insertPlaceholders = '' @ marks @ [newline])))))"

definition field_line :: "kfield \<Rightarrow> string" where
  "field_line f =
     [tab] @ kf_type f @ '' '' @ kf_name f @
       (if kf_count f = [] then [] else ''['' @ kf_count f @ '']'') @ '';'' @ [newline]"

definition kernel_event_body :: "kernel_event_spec \<Rightarrow> string" where
  "kernel_event_body ke =
     ''#pragma once'' @ [newline, newline] @ ''/*'' @ [newline] @
     '' * Kernel->userspace transport ABI for ltm capture events. Field order is the'' @ [newline] @
     '' * on-wire byte order. The integer types (__u64 etc.) are provided by the'' @ [newline] @
     '' * includer (headers/common.h) before this header.'' @ [newline] @ '' */'' @ [newline, newline] @
     concat (map (\<lambda>c. ''#define '' @ kc_name c @ '' '' @ itoa (kc_value c) @ [newline]) (kv_constants ke)) @
     (if kv_constants ke \<noteq> [] then [newline] else []) @
     ''struct '' @ kv_struct ke @ '' {'' @ [newline] @
     concat (map field_line (kv_fields ke)) @ ''};'' @ [newline]"

section \<open>Running\<close>

text \<open>
  The four files in the order they are rendered and written. A panic of a renderer or an error of a
  write ends the run; the files written before stay.
\<close>

fun write_files ::
    "(string \<Rightarrow> go_error option) \<Rightarrow> (string \<times> string result) list \<Rightarrow> (string \<rightharpoonup> string) \<Rightarrow>
      (string \<rightharpoonup> string) \<times> go_error option" where
  "write_files wr [] fs = (fs, None)"
| "write_files wr ((path, text) # files) fs =
     (case text of
        Inl e \<Rightarrow> (fs, Some e)
      | Inr t \<Rightarrow>
          (case wr path of
             Some e \<Rightarrow> (fs, Some e)
           | None \<Rightarrow> write_files wr files (fs(path \<mapsto> t))))"

definition gen_files ::
    "hasher \<Rightarrow> (string \<Rightarrow> string option) \<Rightarrow> string \<Rightarrow> abi_doc \<Rightarrow> string list \<Rightarrow> (string \<times> string result) list" where
  "gen_files sha gofmt inp doc paths = zip paths
     [prepend_go_header sha gofmt inp (tracepoints_body (ad_tracepoints doc)),
      rbind (schema_abi_body (ad_schema doc)) (prepend_go_header sha gofmt inp),
      rbind (schema_store_body (ad_schema doc)) (prepend_go_header sha gofmt inp),
      Inr (prepend_c_header sha inp (kernel_event_body (ad_kernel_event doc)))]"

definition gen_run ::
    "hasher \<Rightarrow> (string \<Rightarrow> string option) \<Rightarrow> (string \<Rightarrow> abi_doc result) \<Rightarrow> (string \<Rightarrow> go_error option) \<Rightarrow>
      string \<Rightarrow> string list \<Rightarrow> (string \<rightharpoonup> string) \<Rightarrow> (string \<rightharpoonup> string) \<times> go_error option" where
  "gen_run sha gofmt parse wr inp paths fs =
     (case fs inp of
        None \<Rightarrow> (fs, Some (Err (''open '' @ inp @ '': no such file or directory'')))
      | Some raw \<Rightarrow>
          (case parse raw of
             Inl e \<Rightarrow> (fs, Some (wrap_err (''parse '' @ inp) e))
           | Inr doc \<Rightarrow>
               (case validate_doc doc of
                  Inl e \<Rightarrow> (fs, Some e)
                | Inr u \<Rightarrow> write_files wr (gen_files sha gofmt inp doc paths) fs)))"

definition read_fs :: "(string \<rightharpoonup> string) \<Rightarrow> string \<Rightarrow> string result" where
  "read_fs fs p = (case fs p of None \<Rightarrow> fail (''open '' @ p @ '': no such file or directory'') | Some t \<Rightarrow> Inr t)"

text \<open>\<open>main\<close>: the files, the exit code and the message. A panic exits with 2, as a flag error does.\<close>

definition gen_flags :: flag_set where
  "gen_flags =
     [(''in'', string_flag), (''tp-out'', string_flag), (''schema-out'', string_flag),
      (''store-out'', string_flag), (''header-out'', string_flag), (''verify'', BoolFlag)]"

definition gen_paths :: "flag_values \<Rightarrow> string list" where
  "gen_paths vals =
     [string_value ''tp-out'' ''tracepoints_gen.go'' vals,
      string_value ''schema-out'' ''schema_gen.go'' vals,
      string_value ''store-out'' ''../storage/schema_gen.go'' vals,
      string_value ''header-out'' ''kernel_event.gen.h'' vals]"

definition exit_with :: "string \<Rightarrow> go_error option \<Rightarrow> int \<times> string" where
  "exit_with what e =
     (case e of
        None \<Rightarrow> (0, [])
      | Some (Panic m) \<Rightarrow> (2, m)
      | Some e \<Rightarrow> (1, what @ '' '' @ err_text e))"

definition gen_main ::
    "hasher \<Rightarrow> (string \<Rightarrow> string option) \<Rightarrow> (string \<Rightarrow> abi_doc result) \<Rightarrow> (string \<Rightarrow> go_error option) \<Rightarrow>
      string list \<Rightarrow> (string \<rightharpoonup> string) \<Rightarrow> (string \<rightharpoonup> string) \<times> int \<times> string" where
  "gen_main sha gofmt parse wr args fs =
     (case flagset_parse gen_flags args of
        Inl e \<Rightarrow> (fs, if e = Err ''flag: help requested'' then 0 else 2, err_text e)
      | Inr (vals, others) \<Rightarrow>
          if bool_value ''verify'' False vals then
            (fs, exit_with ''abi/gen -verify:''
              (case verify_generated sha (read_fs fs) (gen_paths vals) of Inl e \<Rightarrow> Some e | Inr u \<Rightarrow> None))
          else
            (let (fs', e) = gen_run sha gofmt parse wr (string_value ''in'' ''abi.yaml'' vals) (gen_paths vals) fs
             in (fs', exit_with ''abi/gen:'' e)))"

section \<open>The document of this repository\<close>

text \<open>\<open>abi.yaml\<close> as it is decoded, and the texts of two files generated from it.\<close>

definition abi_columns :: "column list" where
  "abi_columns = [
     \<lparr>cl_name = ''id'', cl_type = ''INTEGER PRIMARY KEY AUTOINCREMENT'', cl_doc = ''row id, insertion order'',
       cl_insert = Some False\<rparr>,
     \<lparr>cl_name = ''ts'', cl_type = ''INTEGER NOT NULL'', cl_doc = (''unix nanoseconds; format with datetime(ts/1e9,'' @ [quote_sq] @ ''unixepoch'' @ [quote_sq] @ '')''),
       cl_insert = None\<rparr>,
     \<lparr>cl_name = ''category'', cl_type = (''TEXT NOT NULL DEFAULT '' @ [quote_sq] @ [quote_sq]), cl_doc = ''process | file | network | memory | block'',
       cl_insert = None\<rparr>,
     \<lparr>cl_name = ''action'', cl_type = (''TEXT NOT NULL DEFAULT '' @ [quote_sq] @ [quote_sq]), cl_doc = ''exec, exit, fork, clone, open, read, write, rename, unlink, bind, connect, listen, ...'',
       cl_insert = None\<rparr>,
     \<lparr>cl_name = ''pid'', cl_type = ''INTEGER NOT NULL DEFAULT 0'', cl_doc = ''process id'',
       cl_insert = None\<rparr>,
     \<lparr>cl_name = ''ppid'', cl_type = ''INTEGER NOT NULL DEFAULT 0'', cl_doc = ''parent process id'',
       cl_insert = None\<rparr>,
     \<lparr>cl_name = ''uid'', cl_type = ''INTEGER NOT NULL DEFAULT 0'', cl_doc = ''user id'',
       cl_insert = None\<rparr>,
     \<lparr>cl_name = ''comm'', cl_type = (''TEXT NOT NULL DEFAULT '' @ [quote_sq] @ [quote_sq]), cl_doc = ''process name'',
       cl_insert = None\<rparr>,
     \<lparr>cl_name = ''exe'', cl_type = (''TEXT NOT NULL DEFAULT '' @ [quote_sq] @ [quote_sq]), cl_doc = ''resolved executable path'',
       cl_insert = None\<rparr>,
     \<lparr>cl_name = ''container_id'', cl_type = (''TEXT NOT NULL DEFAULT '' @ [quote_sq] @ [quote_sq]), cl_doc = ''container id'',
       cl_insert = None\<rparr>,
     \<lparr>cl_name = ''cgroup_path'', cl_type = (''TEXT NOT NULL DEFAULT '' @ [quote_sq] @ [quote_sq]), cl_doc = ''cgroup path'',
       cl_insert = None\<rparr>,
     \<lparr>cl_name = ''path'', cl_type = (''TEXT NOT NULL DEFAULT '' @ [quote_sq] @ [quote_sq]), cl_doc = ''file path'',
       cl_insert = None\<rparr>,
     \<lparr>cl_name = ''old_path'', cl_type = (''TEXT NOT NULL DEFAULT '' @ [quote_sq] @ [quote_sq]), cl_doc = ''rename source path'',
       cl_insert = None\<rparr>,
     \<lparr>cl_name = ''local_addr'', cl_type = (''TEXT NOT NULL DEFAULT '' @ [quote_sq] @ [quote_sq]), cl_doc = ''local address'',
       cl_insert = None\<rparr>,
     \<lparr>cl_name = ''local_port'', cl_type = ''INTEGER NOT NULL DEFAULT 0'', cl_doc = ''local port'',
       cl_insert = None\<rparr>,
     \<lparr>cl_name = ''remote_addr'', cl_type = (''TEXT NOT NULL DEFAULT '' @ [quote_sq] @ [quote_sq]), cl_doc = ''remote address'',
       cl_insert = None\<rparr>,
     \<lparr>cl_name = ''remote_port'', cl_type = ''INTEGER NOT NULL DEFAULT 0'', cl_doc = ''remote port'',
       cl_insert = None\<rparr>,
     \<lparr>cl_name = ''remote_host'', cl_type = (''TEXT NOT NULL DEFAULT '' @ [quote_sq] @ [quote_sq]), cl_doc = ''resolved remote hostname'',
       cl_insert = None\<rparr>,
     \<lparr>cl_name = ''target_pid'', cl_type = ''INTEGER NOT NULL DEFAULT 0'', cl_doc = ''signal/ptrace target pid'',
       cl_insert = None\<rparr>,
     \<lparr>cl_name = ''exit_code'', cl_type = ''INTEGER NOT NULL DEFAULT 0'', cl_doc = ''process exit code'',
       cl_insert = None\<rparr>,
     \<lparr>cl_name = ''dropped_before'', cl_type = ''INTEGER NOT NULL DEFAULT 0'', cl_doc = ''events lost immediately before this row'',
       cl_insert = None\<rparr>,
     \<lparr>cl_name = ''metadata'', cl_type = (''TEXT NOT NULL DEFAULT '' @ [quote_sq] @ ''{}'' @ [quote_sq]), cl_doc = (''JSON object; query with json_extract(metadata, '' @ [quote_sq] @ ''$.key'' @ [quote_sq] @ '')''),
       cl_insert = None\<rparr>,
     \<lparr>cl_name = ''raw'', cl_type = (''TEXT NOT NULL DEFAULT '' @ [quote_sq] @ ''{}'' @ [quote_sq]), cl_doc = ''JSON object; raw source event'',
       cl_insert = None\<rparr>]"

definition abi_schema :: schema_spec where
  "abi_schema = \<lparr>ys_version = 1, ys_table = ''events'', ys_table_doc = ''one row per collected event'',
     ys_columns = abi_columns,
     ys_indexes = [
     \<lparr>ix_name = ''idx_events_ts'', ix_columns = [''ts'']\<rparr>,
     \<lparr>ix_name = ''idx_events_pid_ts'', ix_columns = [''pid'', ''ts'']\<rparr>,
     \<lparr>ix_name = ''idx_events_path'', ix_columns = [''path'']\<rparr>,
     \<lparr>ix_name = ''idx_events_cat_action_ts'', ix_columns = [''category'', ''action'', ''ts'']\<rparr>]\<rparr>"

definition abi_kernel_event :: kernel_event_spec where
  "abi_kernel_event = \<lparr>kv_struct = ''ltm_kernel_event'',
     kv_constants = [
     \<lparr>kc_name = ''LTM_PATH_MAX_LEN'', kc_value = 128\<rparr>,
     \<lparr>kc_name = ''LTM_COMM_LEN'', kc_value = 16\<rparr>,
     \<lparr>kc_name = ''LTM_LABEL_LEN'', kc_value = 16\<rparr>],
     kv_fields = [
     \<lparr>kf_name = ''ts_ns'', kf_type = ''__u64'', kf_count = []\<rparr>,
     \<lparr>kf_name = ''bytes'', kf_type = ''__u64'', kf_count = []\<rparr>,
     \<lparr>kf_name = ''pid'', kf_type = ''__u32'', kf_count = []\<rparr>,
     \<lparr>kf_name = ''uid'', kf_type = ''__u32'', kf_count = []\<rparr>,
     \<lparr>kf_name = ''local_port'', kf_type = ''__u16'', kf_count = []\<rparr>,
     \<lparr>kf_name = ''remote_port'', kf_type = ''__u16'', kf_count = []\<rparr>,
     \<lparr>kf_name = ''local_ip4'', kf_type = ''__u32'', kf_count = []\<rparr>,
     \<lparr>kf_name = ''remote_ip4'', kf_type = ''__u32'', kf_count = []\<rparr>,
     \<lparr>kf_name = ''comm'', kf_type = ''char'', kf_count = ''LTM_COMM_LEN''\<rparr>,
     \<lparr>kf_name = ''category'', kf_type = ''char'', kf_count = ''LTM_LABEL_LEN''\<rparr>,
     \<lparr>kf_name = ''action'', kf_type = ''char'', kf_count = ''LTM_LABEL_LEN''\<rparr>,
     \<lparr>kf_name = ''path'', kf_type = ''char'', kf_count = ''LTM_PATH_MAX_LEN''\<rparr>,
     \<lparr>kf_name = ''old_path'', kf_type = ''char'', kf_count = ''LTM_PATH_MAX_LEN''\<rparr>,
     \<lparr>kf_name = ''syscall_nr'', kf_type = ''__u32'', kf_count = []\<rparr>,
     \<lparr>kf_name = ''fd'', kf_type = ''__s32'', kf_count = []\<rparr>,
     \<lparr>kf_name = ''aux'', kf_type = ''__u32'', kf_count = []\<rparr>]\<rparr>"

definition abi_document :: abi_doc where
  "abi_document = \<lparr>ad_tracepoints = collector_tracepoints, ad_schema = abi_schema,
     ad_kernel_event = abi_kernel_event\<rparr>"

definition schema_doc_lines :: "string list" where
  "schema_doc_lines = [
      ''Table: events (one row per collected event)'',
      ''  id              INTEGER  row id, insertion order'',
      (''  ts              INTEGER  unix nanoseconds; format with datetime(ts/1e9,'' @ [quote_sq] @ ''unixepoch'' @ [quote_sq] @ '')''),
      ''  category        TEXT     process | file | network | memory | block'',
      ''  action          TEXT     exec, exit, fork, clone, open, read, write, rename, unlink, bind, connect, listen, ...'',
      ''  pid             INTEGER  process id'',
      ''  ppid            INTEGER  parent process id'',
      ''  uid             INTEGER  user id'',
      ''  comm            TEXT     process name'',
      ''  exe             TEXT     resolved executable path'',
      ''  container_id    TEXT     container id'',
      ''  cgroup_path     TEXT     cgroup path'',
      ''  path            TEXT     file path'',
      ''  old_path        TEXT     rename source path'',
      ''  local_addr      TEXT     local address'',
      ''  local_port      INTEGER  local port'',
      ''  remote_addr     TEXT     remote address'',
      ''  remote_port     INTEGER  remote port'',
      ''  remote_host     TEXT     resolved remote hostname'',
      ''  target_pid      INTEGER  signal/ptrace target pid'',
      ''  exit_code       INTEGER  process exit code'',
      ''  dropped_before  INTEGER  events lost immediately before this row'',
      (''  metadata        TEXT     JSON object; query with json_extract(metadata, '' @ [quote_sq] @ ''$.key'' @ [quote_sq] @ '')''),
      ''  raw             TEXT     JSON object; raw source event'',
      [],
      ''Indexes: ts, (pid, ts), path, (category, action, ts)'']"

definition schema_doc :: string where
  "schema_doc = join [newline] schema_doc_lines"

definition kernel_event_h :: string where
  "kernel_event_h = join [newline] [
      ''#pragma once'',
      [],
      ''/*'',
      '' * Kernel->userspace transport ABI for ltm capture events. Field order is the'',
      '' * on-wire byte order. The integer types (__u64 etc.) are provided by the'',
      '' * includer (headers/common.h) before this header.'',
      '' */'',
      [],
      ''#define LTM_PATH_MAX_LEN 128'',
      ''#define LTM_COMM_LEN 16'',
      ''#define LTM_LABEL_LEN 16'',
      [],
      ''struct ltm_kernel_event {'',
      [tab] @ ''__u64 ts_ns;'',
      [tab] @ ''__u64 bytes;'',
      [tab] @ ''__u32 pid;'',
      [tab] @ ''__u32 uid;'',
      [tab] @ ''__u16 local_port;'',
      [tab] @ ''__u16 remote_port;'',
      [tab] @ ''__u32 local_ip4;'',
      [tab] @ ''__u32 remote_ip4;'',
      [tab] @ ''char comm[LTM_COMM_LEN];'',
      [tab] @ ''char category[LTM_LABEL_LEN];'',
      [tab] @ ''char action[LTM_LABEL_LEN];'',
      [tab] @ ''char path[LTM_PATH_MAX_LEN];'',
      [tab] @ ''char old_path[LTM_PATH_MAX_LEN];'',
      [tab] @ ''__u32 syscall_nr;'',
      [tab] @ ''__s32 fd;'',
      [tab] @ ''__u32 aux;'',
      ''};'',
      []]"

end
