(* ===== verification/AbiProps.thy ===== *)
theory AbiProps imports AbiGen begin

text \<open>
  The properties of the generator: what \<open>validate\<close> accepts, that generated files pass \<open>-verify\<close> and
  edited ones do not, and that the constants the rest of the development models are the ones the
  generator renders from this repository's \<open>abi.yaml\<close>.
\<close>

section \<open>What is accepted\<close>

definition tracepoints_wf :: "tracepoint list \<Rightarrow> bool" where
  "tracepoints_wf tps \<longleftrightarrow>
     (\<forall>tp \<in> set tps. tp_group tp \<noteq> [] \<and> tp_event tp \<noteq> [] \<and> tp_program tp \<noteq> []) \<and>
     distinct (map tp_program tps) \<and> distinct (map group_event tps)"

definition schema_wf :: "schema_spec \<Rightarrow> bool" where
  "schema_wf s \<longleftrightarrow>
     ys_version s > 0 \<and> ys_table s \<noteq> [] \<and> ys_columns s \<noteq> [] \<and>
     (\<forall>c \<in> set (ys_columns s). cl_name c \<noteq> [] \<and> cl_type c \<noteq> []) \<and>
     distinct (map cl_name (ys_columns s)) \<and>
     (\<forall>ix \<in> set (ys_indexes s). ix_name ix \<noteq> [] \<and> ix_columns ix \<noteq> [] \<and>
        set (ix_columns ix) \<subseteq> cl_name ` set (ys_columns s)) \<and>
     distinct (map ix_name (ys_indexes s))"

definition constant_map :: "kernel_event_spec \<Rightarrow> string \<rightharpoonup> int" where
  "constant_map ke = map_of (map (\<lambda>c. (kc_name c, kc_value c)) (kv_constants ke))"

definition field_count :: "(string \<rightharpoonup> int) \<Rightarrow> kfield \<Rightarrow> int option" where
  "field_count km f =
     (if kf_count f = [] then Some 1
      else case km (kf_count f) of Some v \<Rightarrow> Some v | None \<Rightarrow> atoi (kf_count f))"

definition kernel_event_wf :: "kernel_event_spec \<Rightarrow> bool" where
  "kernel_event_wf ke \<longleftrightarrow>
     kv_struct ke \<noteq> [] \<and> kv_fields ke \<noteq> [] \<and>
     (\<forall>c \<in> set (kv_constants ke). kc_name c \<noteq> []) \<and> distinct (map kc_name (kv_constants ke)) \<and>
     (\<forall>f \<in> set (kv_fields ke). kf_name f \<noteq> [] \<and> kf_type f \<noteq> [] \<and>
        (\<exists>n > 0. field_count (constant_map ke) f = Some n)) \<and>
     distinct (map kf_name (kv_fields ke))"

lemma fail_not_ok [simp]: "fail m \<noteq> Inr x"
  by (simp add: fail_def)

lemma check_tracepoints_ok:
  "check_tracepoints i programs events tps = Inr () \<longleftrightarrow>
    tracepoints_wf tps \<and> tp_program ` set tps \<inter> programs = {} \<and> group_event ` set tps \<inter> events = {}"
  by (induction tps arbitrary: i programs events) (auto simp: tracepoints_wf_def)

lemma check_columns_ok:
  "check_columns cols cs = Inr cols' \<longleftrightarrow>
    (\<forall>c \<in> set cs. cl_name c \<noteq> [] \<and> cl_type c \<noteq> []) \<and> distinct (map cl_name cs) \<and>
    cl_name ` set cs \<inter> cols = {} \<and> cols' = cols \<union> cl_name ` set cs"
  by (induction cs arbitrary: cols) auto

lemma check_index_columns_ok: "check_index_columns cols name cs = Inr () \<longleftrightarrow> set cs \<subseteq> cols"
  by (induction cs) auto

lemma check_indexes_ok:
  "check_indexes cols seen ixs = Inr () \<longleftrightarrow>
    (\<forall>ix \<in> set ixs. ix_name ix \<noteq> [] \<and> ix_columns ix \<noteq> [] \<and> set (ix_columns ix) \<subseteq> cols) \<and>
    distinct (map ix_name ixs) \<and> ix_name ` set ixs \<inter> seen = {}"
  by (induction ixs arbitrary: seen) (auto simp: check_index_columns_ok)

lemma validate_schema_ok: "validate_schema s = Inr () \<longleftrightarrow> schema_wf s"
  by (auto simp: validate_schema_def schema_wf_def check_columns_ok check_indexes_ok)

lemma check_constants_ok:
  "check_constants km cs = Inr km' \<longleftrightarrow>
    (\<forall>c \<in> set cs. kc_name c \<noteq> [] \<and> km (kc_name c) = None) \<and> distinct (map kc_name cs) \<and>
    km' = km ++ map_of (map (\<lambda>c. (kc_name c, kc_value c)) cs)"
proof (induction cs arbitrary: km)
  case (Cons c cs)
  let ?m = "map_of (map (\<lambda>c. (kc_name c, kc_value c)) cs)"
  have eq: "km(kc_name c \<mapsto> kc_value c) ++ ?m = km ++ ?m(kc_name c \<mapsto> kc_value c)"
    if "kc_name c \<notin> kc_name ` set cs"
    using that by (simp add: map_add_upd_left dom_map_of_conv_image_fst image_image)
  have other: "(\<forall>d \<in> set cs. (km(kc_name c \<mapsto> kc_value c)) (kc_name d) = None) \<longleftrightarrow>
      kc_name c \<notin> kc_name ` set cs \<and> (\<forall>d \<in> set cs. km (kc_name d) = None)"
    by (force simp: image_iff)
  show ?case
  proof (cases "kc_name c \<in> kc_name ` set cs")
    case True
    then show ?thesis using other by (auto simp: Cons.IH)
  next
    case False
    then have "(km(kc_name c \<mapsto> kc_value c)) (kc_name d) = km (kc_name d)" if "d \<in> set cs" for d
      by (metis fun_upd_other image_eqI that)
    then show ?thesis
      using eq [OF False] False by (auto simp: Cons.IH simp del: fun_upd_apply map_add_upd)
  qed
qed auto

lemma check_count_ok:
  "check_count km f = Inr () \<longleftrightarrow> (\<exists>n > 0. field_count km f = Some n)"
  by (auto simp: check_count_def field_count_def Let_def split: option.splits)

lemma check_fields_ok:
  "check_fields km seen fs = Inr () \<longleftrightarrow>
    (\<forall>f \<in> set fs. kf_name f \<noteq> [] \<and> kf_type f \<noteq> [] \<and> (\<exists>n > 0. field_count km f = Some n)) \<and>
    distinct (map kf_name fs) \<and> kf_name ` set fs \<inter> seen = {}"
  by (induction fs arbitrary: seen) (auto simp: check_count_ok)

lemma validate_kernel_event_ok: "validate_kernel_event ke = Inr () \<longleftrightarrow> kernel_event_wf ke"
  by (auto simp: validate_kernel_event_def kernel_event_wf_def check_constants_ok check_fields_ok
      constant_map_def)

text \<open>
  C34: \<open>validate\<close> accepts exactly the well-formed documents: tracepoints with distinct programs and
  distinct hooks, a versioned schema whose columns and indexes are named, distinct and consistent,
  and a kernel event whose fields have a type and a positive count, given by a constant or a number.
\<close>

theorem validate_accepts_well_formed:
  "validate_doc doc = Inr () \<longleftrightarrow>
    ad_tracepoints doc \<noteq> [] \<and> tracepoints_wf (ad_tracepoints doc) \<and>
    schema_wf (ad_schema doc) \<and> kernel_event_wf (ad_kernel_event doc)"
  by (auto simp: validate_doc_def check_tracepoints_ok validate_schema_ok validate_kernel_event_ok)

section \<open>This repository's document\<close>

lemma distinct_reversed: "distinct (map rev xs) \<Longrightarrow> distinct xs"
  by (simp add: distinct_map)

lemma hooks_distinct:
  "distinct (map tp_program collector_tracepoints)" "distinct (map group_event collector_tracepoints)"
proof -
  have "distinct (map rev (map tp_event collector_tracepoints))" by code_simp
  then have ev: "distinct (map tp_event collector_tracepoints)" by (rule distinct_reversed)
  have "map tp_program collector_tracepoints = map (\<lambda>e. ''trace_'' @ e) (map tp_event collector_tracepoints)"
    by (simp add: collector_tracepoints_def)
  with ev show "distinct (map tp_program collector_tracepoints)"
    by (simp only:) (rule distinct_map [THEN iffD2], simp add: inj_on_def)
  have "distinct (map rev (map group_event collector_tracepoints))" by code_simp
  then show "distinct (map group_event collector_tracepoints)" by (rule distinct_reversed)
qed

lemma abi_document_valid: "validate_doc abi_document = Inr ()"
proof -
  have "check_tracepoints 0 {} {} collector_tracepoints = Inr ()"
    by (simp add: check_tracepoints_ok tracepoints_wf_def hooks_distinct)
      (simp add: collector_tracepoints_def)
  moreover have "collector_tracepoints \<noteq> []" by (simp add: collector_tracepoints_def)
  moreover have "validate_schema abi_schema = Inr ()" by code_simp
  moreover have "validate_kernel_event abi_kernel_event = Inr ()" by code_simp
  ultimately show ?thesis by (simp add: validate_doc_def abi_document_def)
qed

lemma rmap_map_Inr: "map f xs = map Inr ys \<Longrightarrow> rmap f xs = Inr ys"
  by (induction xs arbitrary: ys) auto

lemma type_fields:
  "split_fields ''INTEGER PRIMARY KEY AUTOINCREMENT'' = [''INTEGER'', ''PRIMARY'', ''KEY'', ''AUTOINCREMENT'']"
  "split_fields ''INTEGER NOT NULL'' = [''INTEGER'', ''NOT'', ''NULL'']"
  "split_fields ''INTEGER NOT NULL DEFAULT 0'' = [''INTEGER'', ''NOT'', ''NULL'', ''DEFAULT'', ''0'']"
  "split_fields ''TEXT NOT NULL'' = [''TEXT'', ''NOT'', ''NULL'']"
  "split_fields (''TEXT NOT NULL DEFAULT '' @ [quote_sq] @ [quote_sq]) = [''TEXT'', ''NOT'', ''NULL'', ''DEFAULT'', [quote_sq, quote_sq]]"
  "split_fields (''TEXT NOT NULL DEFAULT '' @ [quote_sq] @ ''{}'' @ [quote_sq]) = [''TEXT'', ''NOT'', ''NULL'', ''DEFAULT'', [quote_sq] @ ''{}'' @ [quote_sq]]"
  by code_simp+

lemma abi_schema_doc: "schema_doc_text abi_schema = Inr schema_doc"
proof -
  let ?ls = "map (\<lambda>l. l @ [newline]) (take 23 (drop 1 schema_doc_lines))"
  have "map (doc_line 14) abi_columns = map Inr ?ls"
    using type_fields by (simp add: abi_columns_def doc_line_def pad_right_def schema_doc_lines_def eval_nat_numeral)
  then have ls: "rmap (doc_line 14) abi_columns = Inr ?ls" by (rule rmap_map_Inr)
  have w: "name_width abi_columns = 14" by code_simp
  have parts: "''Table: '' @ ys_table abi_schema @ '' ('' @ ys_table_doc abi_schema @ '')'' @ [newline] @
      concat ?ls @ [newline] @ ''Indexes: '' @ join '', '' (map index_part (ys_indexes abi_schema)) =
    schema_doc" by code_simp
  have "ys_columns abi_schema = abi_columns" "ys_table_doc abi_schema \<noteq> []"
    by (simp_all add: abi_schema_def)
  with ls w parts show ?thesis by (simp add: schema_doc_text_def)
qed

lemma no_grave_quoted: "grave \<notin> set s \<Longrightarrow> backquote s = Inr ([grave] @ s @ [grave])"
  by (simp add: backquote_def)

lemma abi_schema_texts: "schema_texts abi_schema = schema_statements"
  by code_simp

lemma abi_bodies:
  "\<exists>a b. schema_abi_body abi_schema = Inr a \<and> schema_store_body abi_schema = Inr b"
proof -
  have doc: "grave \<notin> set schema_doc" by code_simp
  have "\<forall>q \<in> set (schema_texts abi_schema). grave \<notin> set q"
    by (simp add: abi_schema_texts schema_statements_def create_table_sql_def)
  then have "rmap backquote (schema_texts abi_schema) =
      Inr (map (\<lambda>q. [grave] @ q @ [grave]) (schema_texts abi_schema))"
    by (intro rmap_all_Inr no_grave_quoted) blast
  moreover have "grave \<notin> set (join '', '' (all_columns abi_schema))" by code_simp
  moreover have "grave \<notin> set (join '', '' (inserted_columns abi_schema))" by code_simp
  moreover have "grave \<notin> set (placeholder_text abi_schema)" by code_simp
  ultimately have "\<exists>b. schema_store_body abi_schema = Inr b"
    by (simp add: schema_store_body_def no_grave_quoted)
  then show ?thesis using abi_schema_doc doc by (simp add: schema_abi_body_def no_grave_quoted)
qed

section \<open>Generate, then verify\<close>

lemma hex_char_solid: "d < 16 \<Longrightarrow> \<not> space_byte (hex_char d) \<and> byte_val (hex_char d) > 32"
  by (auto simp: hex_char_def space_byte_def ascii_space_def in_bytes_def)

lemma nibbles: "unat (b :: byte) div 16 < 16" "unat (b :: byte) mod 16 < 16"
  using unat_byte_lt [of b] by simp_all

lemma hex_string_solid:
  assumes "c \<in> set (hex_string bs)"
  shows "\<not> space_byte c" and "c \<noteq> newline"
proof -
  have "\<not> space_byte c \<and> byte_val c > 32"
    using assms nibbles hex_char_solid by (auto simp: hex_string_def)
  then show "\<not> space_byte c" and "c \<noteq> newline" by (auto simp: byte_val_def)
qed

lemma hex_char_inject: "d < 16 \<Longrightarrow> e < 16 \<Longrightarrow> hex_char d = hex_char e \<longleftrightarrow> d = e"
  by (auto simp: hex_char_def dest!: arg_cong [where f = byte_val] split: if_splits)

lemma hex_string_inject: "hex_string as = hex_string bs \<longleftrightarrow> as = bs"
proof (induction as arbitrary: bs)
  case Nil
  then show ?case by (cases bs) (auto simp: hex_string_def)
next
  case (Cons a as)
  show ?case
  proof (cases bs)
    case Nil
    then show ?thesis by (simp add: hex_string_def)
  next
    case (Cons b bs')
    have "a = b" if "unat a div 16 = unat b div 16" "unat a mod 16 = unat b mod 16"
      using that by (metis div_mult_mod_eq unsigned_word_eqI)
    then show ?thesis
      using Cons Cons.IH [of bs'] nibbles by (auto simp: hex_string_def hex_char_inject)
  qed
qed

lemma trim_space_hash: "trim_space (content_hash sha body) = content_hash sha body"
proof (cases "content_hash sha body = []")
  case False
  then have "\<not> space_byte (hd (content_hash sha body))" "\<not> space_byte (last (content_hash sha body))"
    by (simp_all add: content_hash_def hex_string_solid(1) [OF hd_in_set] hex_string_solid(1) [OF last_in_set])
  with False show ?thesis by (simp add: trim_space_solid)
qed simp

lemma split_generated:
  assumes "newline \<notin> set first"
  shows "split_generated_header (first @ [newline] @ hash_prefix @ content_hash sha b @
      [newline, newline] @ body) = Some (content_hash sha b, body)"
proof -
  have "newline \<notin> set (hash_prefix @ content_hash sha b)"
    using hex_string_solid(2) by (auto simp: hash_prefix_def content_hash_def)
  then have "split_lines4 (first @ [newline] @ hash_prefix @ content_hash sha b @ [newline, newline] @ body) =
      Some (first, hash_prefix @ content_hash sha b, [], body)"
    using cut_at_char_absent [OF assms, of "hash_prefix @ content_hash sha b @ [newline, newline] @ body"]
      cut_at_char_absent [of newline "hash_prefix @ content_hash sha b" "newline # body"]
      cut_at_char_absent [of newline "[]" body]
    by (simp add: split_lines4_def)
  then show ?thesis by (simp add: split_generated_header_def trim_space_hash)
qed

definition self_hashed :: "hasher \<Rightarrow> string \<Rightarrow> bool" where
  "self_hashed sha t \<longleftrightarrow> (\<exists>body. split_generated_header t = Some (content_hash sha body, body))"

lemma c_header_hashed: "newline \<notin> set inp \<Longrightarrow> self_hashed sha (prepend_c_header sha inp body)"
  using split_generated [of "''/* Code generated by internal/abi/gen from '' @ inp @ ''; DO NOT EDIT. */''"
      sha body body]
  by (auto simp: self_hashed_def prepend_c_header_def)

lemma go_header_hashed:
  "newline \<notin> set inp \<Longrightarrow> prepend_go_header sha gofmt inp body = Inr t \<Longrightarrow> self_hashed sha t"
  using split_generated [of "''// Code generated by internal/abi/gen from '' @ inp @ ''; DO NOT EDIT.''" sha]
  by (auto simp: self_hashed_def prepend_go_header_def split: option.splits)

lemma gen_files_hashed:
  "newline \<notin> set inp \<Longrightarrow> (p, Inr t) \<in> set (gen_files sha gofmt inp doc paths) \<Longrightarrow> self_hashed sha t"
  unfolding gen_files_def
  by (drule set_zip_rightD) (auto simp: c_header_hashed dest!: sym [of "Inr t"] dest: go_header_hashed)

lemma write_files_kept: "p \<notin> fst ` set ps \<Longrightarrow> fst (write_files wr ps fs) p = fs p"
  by (induction wr ps fs rule: write_files.induct) (auto split: sum.splits option.splits)

lemma write_files_written:
  "write_files wr ps fs = (fs', None) \<Longrightarrow> distinct (map fst ps) \<Longrightarrow> (p, r) \<in> set ps \<Longrightarrow>
    \<exists>t. r = Inr t \<and> fs' p = Some t"
proof (induction wr ps fs rule: write_files.induct)
  case (2 wr path r1 ps fs)
  then obtain t where t: "r1 = Inr t" and "wr path = None"
    by (auto split: sum.splits option.splits)
  with 2(2) have run: "write_files wr ps (fs(path \<mapsto> t)) = (fs', None)" by simp
  show ?case
  proof (cases "(p, r) \<in> set ps")
    case True
    with 2(1) [OF t \<open>wr path = None\<close> run] 2(3) show ?thesis by simp
  next
    case False
    with 2(3,4) have "p = path" "r = r1" by auto
    moreover have "fs' path = Some t"
      using write_files_kept [of path ps wr "fs(path \<mapsto> t)"] run 2(3) by simp
    ultimately show ?thesis using t by simp
  qed
qed simp

lemma verify_all_hashed:
  "\<forall>p \<in> set paths. \<exists>t. fs p = Inr t \<and> self_hashed sha t \<Longrightarrow> verify_generated sha fs paths = Inr ()"
  by (induction paths) (auto simp: self_hashed_def)

text \<open>
  What the generator writes passes \<open>-verify\<close>: after a run that reports no error, with four
  different output paths and an input name without a newline, every file's embedded hash is that of
  its body, whatever the hash function and the formatter are.
\<close>

theorem generated_files_verify:
  assumes "gen_run sha gofmt parse wr inp paths fs = (fs', None)"
    and "distinct paths" and "length paths = 4" and "newline \<notin> set inp"
  shows "verify_generated sha (read_fs fs') paths = Inr ()"
proof (rule verify_all_hashed, rule ballI)
  fix p assume p: "p \<in> set paths"
  obtain doc where run: "write_files wr (gen_files sha gofmt inp doc paths) fs = (fs', None)"
    using assms(1) by (auto simp: gen_run_def split: option.splits sum.splits)
  have fst: "map fst (gen_files sha gofmt inp doc paths) = paths"
    using assms(3) by (simp add: gen_files_def)
  with p have "p \<in> set (map fst (gen_files sha gofmt inp doc paths))" by simp
  then obtain r where r: "(p, r) \<in> set (gen_files sha gofmt inp doc paths)" by auto
  from write_files_written [OF run _ r] fst assms(2) obtain t where "r = Inr t" "fs' p = Some t" by auto
  with gen_files_hashed [OF assms(4)] r show "\<exists>t. read_fs fs' p = Inr t \<and> self_hashed sha t"
    by (auto simp: read_fs_def)
qed

definition demo_hash :: hasher where
  "demo_hash s = [word_of_nat (length s)]"

definition demo_run :: "(string \<rightharpoonup> string) \<times> go_error option" where
  "demo_run = gen_run demo_hash Some (\<lambda>raw. Inr abi_document) (\<lambda>p. None) ''abi.yaml''
     [''a'', ''b'', ''c'', ''d''] [''abi.yaml'' \<mapsto> ''raw'']"

theorem generated_files_verify_witness:
  "\<exists>fs'. demo_run = (fs', None) \<and>
     verify_generated demo_hash (read_fs fs') [''a'', ''b'', ''c'', ''d''] = Inr ()"
proof -
  obtain a b where ab: "schema_abi_body abi_schema = Inr a" "schema_store_body abi_schema = Inr b"
    using abi_bodies by blast
  have "snd demo_run = None"
    by (simp add: demo_run_def gen_run_def abi_document_valid gen_files_def)
      (simp add: abi_document_def ab prepend_go_header_def)
  then obtain fs' where run: "demo_run = (fs', None)" by (metis prod.collapse)
  have paths: "distinct [''a'', ''b'', ''c'', ''d'']" "length [''a'', ''b'', ''c'', ''d''] = 4"
    "newline \<notin> set ''abi.yaml''" by simp_all
  from generated_files_verify [OF run [unfolded demo_run_def] paths] run show ?thesis by blast
qed



section \<open>The generated contract\<close>


text \<open>The bytes of a C type, and of a field.\<close>

definition c_size :: "string \<Rightarrow> nat" where
  "c_size t = (if t = ''__u64'' then 8 else if t = ''__u32'' \<or> t = ''__s32'' then 4
     else if t = ''__u16'' then 2 else 1)"

definition field_bytes :: "kernel_event_spec \<Rightarrow> kfield \<Rightarrow> nat" where
  "field_bytes ke f =
     c_size (kf_type f) * (case field_count (constant_map ke) f of None \<Rightarrow> 0 | Some n \<Rightarrow> nat n)"

text \<open>
  The layout the decoder reads is the one \<open>abi.yaml\<close> declares: field by field, the bytes of an
  event are as many as the type and the count of the declared field, in the declared order.
\<close>

theorem decoder_reads_declared_layout:
  assumes "event_shape e"
  shows "map length (event_parts e) = map (field_bytes abi_kernel_event) (kv_fields abi_kernel_event)"
proof -
  have "map (field_bytes abi_kernel_event) (kv_fields abi_kernel_event) =
      [8, 8, 4, 4, 2, 2, 4, 4, 16, 16, 16, 128, 128, 4, 4, 4]" by code_simp
  with assms show ?thesis by (simp add: event_parts_def event_shape_def)
qed

theorem decoder_reads_declared_layout_witness:
  "\<exists>e. event_shape e \<and> sum_list (map (field_bytes abi_kernel_event) (kv_fields abi_kernel_event)) =
     length (encode_event e)"
proof -
  let ?e = "\<lparr>ke_ts_ns = 7, ke_bytes = 0, ke_pid = 42, ke_uid = 0, ke_local_port = 0,
     ke_remote_port = 0, ke_local_ip4 = 0, ke_remote_ip4 = 0, ke_comm = replicate 16 1,
     ke_category = replicate 16 2, ke_action = replicate 16 3, ke_path = replicate 128 4,
     ke_old_path = replicate 128 0, ke_syscall_nr = 59, ke_fd = 0, ke_aux = 0\<rparr>"
  have e: "event_shape ?e" by (simp add: event_shape_def)
  have "length (encode_event ?e) = sum_list (map length (event_parts ?e))"
    by (simp add: encode_event_def length_concat)
  with decoder_reads_declared_layout [OF e] e show ?thesis by metis
qed

text \<open>
  A column whose type is blank is accepted by the checks, and the rendering of the schema text then
  stops with a panic.
\<close>

lemma blank_type_panics:
  "\<exists>s. validate_schema s = Inr () \<and> schema_doc_text s = Inl (Panic ''index out of range'')"
proof (intro exI conjI)
  let ?s = "\<lparr>ys_version = 1, ys_table = ''t'', ys_table_doc = [],
     ys_columns = [\<lparr>cl_name = ''a'', cl_type = '' '', cl_doc = [], cl_insert = None\<rparr>], ys_indexes = []\<rparr>"
  show "validate_schema ?s = Inr ()" by code_simp
  show "schema_doc_text ?s = Inl (Panic ''index out of range'')" by code_simp
qed

end
