(* ===== verification/Flags.thy ===== *)
theory Flags imports PathFilter begin

text \<open>
  Configuration and global flags of the command line: \<open>internal/cli/flags.go\<close> and the parts of
  \<open>cli.go\<close> around them. The parser consumes global flags at the head of the arguments and hands
  the rest to the command; \<open>daemonArgs\<close> writes the flags with which \<open>start\<close> launches the recorder.
  The home directory is a parameter.
\<close>

section \<open>Configuration\<close>

record config =
  cf_db_path :: string
  cf_pid_file :: string
  cf_json :: bool
  cf_ignore_paths :: "string list"

text \<open>\<open>filepath.Join\<close>.\<close>

definition path_join :: "string list \<Rightarrow> string" where
  "path_join elems =
     (let parts = filter (\<lambda>e. e \<noteq> []) elems in
      if parts = [] then [] else path_clean (join ''/'' parts))"

definition default_config :: "string \<Rightarrow> config" where
  "default_config home0 =
     (let home = (if home0 = [] then ''.'' else home0) in
      \<lparr>cf_db_path = path_join [home, ''.local'', ''share'', ''ltm'', ''ltm.db''],
       cf_pid_file = path_join [home, ''.local'', ''run'', ''ltm.pid''],
       cf_json = False,
       cf_ignore_paths = [''/proc'', ''/sys'', ''/dev'', path_join [home, ''.cache''],
         path_join [home, ''Library'', ''Caches'']]\<rparr>)"

section \<open>Parsing\<close>

text \<open>\<open>splitFlag\<close>: name, value and whether there is a value; an empty name if it is no flag.\<close>

definition split_flag :: "string \<Rightarrow> string \<times> string \<times> bool" where
  "split_flag arg0 =
     (let arg = (if prefix ''--'' arg0 then drop 2 arg0
                 else if prefix ''-'' arg0 \<and> arg0 \<noteq> ''-'' then drop 1 arg0
                 else []) in
      if arg = [] then ([], [], False)
      else case cut_at arg ''='' of
        Some (before, after) \<Rightarrow> (before, after, True)
      | None \<Rightarrow> (arg, [], False))"

text \<open>\<open>flagValue\<close>: the value and the arguments left.\<close>

definition flag_value :: "string \<Rightarrow> string \<Rightarrow> bool \<Rightarrow> string list \<Rightarrow> (string \<times> string list) result" where
  "flag_value name inline has_inline others =
     (if has_inline then Inr (inline, others)
      else case others of
        [] \<Rightarrow> Inl (Err (''flag needs an argument: -'' @ name))
      | v # others' \<Rightarrow> Inr (v, others'))"

lemma flag_value_shorter: "flag_value n v h others = Inr (x, others') \<Longrightarrow> length others' \<le> length others"
  by (auto simp: flag_value_def split: if_splits list.splits)

text \<open>\<open>parseGlobalFlags\<close>: the arguments left and the configuration.\<close>

function (sequential) parse_global_flags :: "string list \<Rightarrow> config \<Rightarrow> (string list \<times> config) result" where
  "parse_global_flags [] cfg = Inr ([], cfg)"
| "parse_global_flags (a # others) cfg =
     (case split_flag a of
        (name, value, has_value) \<Rightarrow>
          if name = ''json'' then
            (if has_value then
               (case parse_bool value of
                  None \<Rightarrow> Inl (Err (''invalid boolean value '' @ quote_go value @ '' for -json''))
                | Some b \<Rightarrow> parse_global_flags others (cfg\<lparr>cf_json := b\<rparr>))
             else parse_global_flags others (cfg\<lparr>cf_json := True\<rparr>))
          else if name = ''db'' then
            (case flag_value name value has_value others of
               Inl e \<Rightarrow> Inl e
             | Inr (v, others') \<Rightarrow> parse_global_flags others' (cfg\<lparr>cf_db_path := v\<rparr>))
          else if name = ''pidfile'' then
            (case flag_value name value has_value others of
               Inl e \<Rightarrow> Inl e
             | Inr (v, others') \<Rightarrow> parse_global_flags others' (cfg\<lparr>cf_pid_file := v\<rparr>))
          else if name = ''ignore-path'' then
            (case flag_value name value has_value others of
               Inl e \<Rightarrow> Inl e
             | Inr (v, others') \<Rightarrow>
                 parse_global_flags others' (cfg\<lparr>cf_ignore_paths := cf_ignore_paths cfg @ [v]\<rparr>))
          else Inr (a # others, cfg))"
  by pat_completeness auto

termination
  by (relation "measure (\<lambda>(args, cfg). length args)") (auto dest!: flag_value_shorter)

declare parse_global_flags.simps(2) [simp del]

text \<open>\<open>newPassthroughCmd\<close>: a command's own arguments may start with global flags too.\<close>

definition passthrough :: "(config \<Rightarrow> string list \<Rightarrow> 'a result) \<Rightarrow> config \<Rightarrow> string list \<Rightarrow> 'a result" where
  "passthrough run cfg args =
     rbind (parse_global_flags args cfg) (\<lambda>(others, local). run local others)"

text \<open>\<open>Execute\<close>, with cobra's dispatch to a command as a parameter, and the exit of \<open>main\<close>.\<close>

definition execute :: "(config \<Rightarrow> string list \<Rightarrow> 'a result) \<Rightarrow> string \<Rightarrow> string list \<Rightarrow> 'a result" where
  "execute root_cmd home args =
     rbind (parse_global_flags args (default_config home)) (\<lambda>(others, cfg). root_cmd cfg others)"

definition main_exit :: "'a result \<Rightarrow> int \<times> string" where
  "main_exit r = (case r of Inl e \<Rightarrow> (1, ''ltm: '' @ err_text e) | Inr out \<Rightarrow> (0, []))"

section \<open>Repeatable flags\<close>

definition multi_string_set :: "string list \<Rightarrow> string \<Rightarrow> string list" where
  "multi_string_set values v = values @ [v]"

definition multi_string_text :: "string list \<Rightarrow> string" where
  "multi_string_text values = join '','' values"

definition multi_int_set :: "int list \<Rightarrow> string \<Rightarrow> int list result" where
  "multi_int_set values v =
     (case atoi v of None \<Rightarrow> Inl (num_error ''Atoi'' v) | Some n \<Rightarrow> Inr (values @ [n]))"

definition multi_int_text :: "int list \<Rightarrow> string" where
  "multi_int_text values = join '','' (map itoa values)"

section \<open>The recorder's arguments\<close>

text \<open>\<open>sliceToSet\<close>; a nil map has no members.\<close>

definition slice_to_set :: "string list \<Rightarrow> string set" where
  "slice_to_set items = set items"

definition custom_ignore_paths :: "string \<Rightarrow> string list \<Rightarrow> string list" where
  "custom_ignore_paths home paths =
     (let default_set = slice_to_set (cf_ignore_paths (default_config home))
      in filter (\<lambda>p. p \<notin> default_set) paths)"

definition daemon_args :: "string \<Rightarrow> config \<Rightarrow> string list" where
  "daemon_args home cfg =
     [''--db'', cf_db_path cfg, ''--pidfile'', cf_pid_file cfg] @
     concat (map (\<lambda>p. [''--ignore-path'', p]) (custom_ignore_paths home (cf_ignore_paths cfg))) @
     [''daemon'', ''--foreground'']"

section \<open>One flag\<close>

lemma split_flag_long:
  "name \<noteq> [] \<Longrightarrow> CHR ''='' \<notin> set name \<Longrightarrow> split_flag (''--'' @ name) = (name, [], False)"
  by (simp add: split_flag_def Let_def)

lemma split_flag_short:
  "name \<noteq> [] \<Longrightarrow> CHR ''='' \<notin> set name \<Longrightarrow> hd name \<noteq> CHR ''-'' \<Longrightarrow>
    split_flag (''-'' @ name) = (name, [], False)"
  by (cases name) (simp_all add: split_flag_def Let_def)

lemma split_flag_long_value:
  "name \<noteq> [] \<Longrightarrow> CHR ''='' \<notin> set name \<Longrightarrow> split_flag (''--'' @ name @ ''='' @ v) = (name, v, True)"
  using cut_at_char_absent [of "CHR ''=''" name v] by (simp add: split_flag_def Let_def)

lemma split_flag_short_value:
  "name \<noteq> [] \<Longrightarrow> CHR ''='' \<notin> set name \<Longrightarrow> hd name \<noteq> CHR ''-'' \<Longrightarrow>
    split_flag (''-'' @ name @ ''='' @ v) = (name, v, True)"
  using cut_at_char_absent [of "CHR ''=''" name v] by (cases name) (simp_all add: split_flag_def Let_def)

lemma parse_db: "parse_global_flags (''--db'' # v # others) cfg =
    parse_global_flags others (cfg\<lparr>cf_db_path := v\<rparr>)"
  using split_flag_long [of "''db''"] by (simp add: parse_global_flags.simps(2) flag_value_def)

lemma parse_pidfile: "parse_global_flags (''--pidfile'' # v # others) cfg =
    parse_global_flags others (cfg\<lparr>cf_pid_file := v\<rparr>)"
  using split_flag_long [of "''pidfile''"] by (simp add: parse_global_flags.simps(2) flag_value_def)

lemma parse_ignore: "parse_global_flags (''--ignore-path'' # v # others) cfg =
    parse_global_flags others (cfg\<lparr>cf_ignore_paths := cf_ignore_paths cfg @ [v]\<rparr>)"
  using split_flag_long [of "''ignore-path''"] by (simp add: parse_global_flags.simps(2) flag_value_def)

lemma parse_stops:
  "fst (split_flag a) \<notin> {''json'', ''db'', ''pidfile'', ''ignore-path''} \<Longrightarrow>
    parse_global_flags (a # others) cfg = Inr (a # others, cfg)"
  by (cases "split_flag a") (auto simp: parse_global_flags.simps(2))

lemma parse_ignores:
  "parse_global_flags (concat (map (\<lambda>p. [''--ignore-path'', p]) ps) @ others) cfg =
    parse_global_flags others (cfg\<lparr>cf_ignore_paths := cf_ignore_paths cfg @ ps\<rparr>)"
  by (induction ps arbitrary: cfg) (simp_all add: parse_ignore)

text \<open>Parsing never drops an ignore path.\<close>

lemma parse_keeps_ignores:
  assumes "parse_global_flags args cfg = Inr (others, cfg')"
  shows "set (cf_ignore_paths cfg) \<subseteq> set (cf_ignore_paths cfg')"
proof -
  define keeps where "keeps c \<longleftrightarrow> set (cf_ignore_paths cfg) \<subseteq> set (cf_ignore_paths c)" for c :: config
  have keeps_simps: "keeps cfg" "keeps (c\<lparr>cf_json := b\<rparr>) = keeps c" "keeps (c\<lparr>cf_db_path := v\<rparr>) = keeps c"
    "keeps (c\<lparr>cf_pid_file := v\<rparr>) = keeps c"
    "keeps c \<Longrightarrow> keeps (c\<lparr>cf_ignore_paths := cf_ignore_paths c @ [v]\<rparr>)" for c b v
    by (auto simp: keeps_def)
  have "parse_global_flags args c = Inr (others, cfg') \<Longrightarrow> keeps c \<Longrightarrow> keeps cfg'" for c
  proof (induction "length args" arbitrary: args c rule: less_induct)
    case less
    show ?case
    proof (cases args)
      case (Cons a rest)
      have IH: "parse_global_flags xs d = Inr (others, cfg') \<Longrightarrow> length xs \<le> length rest \<Longrightarrow>
          keeps d \<Longrightarrow> keeps cfg'" for xs d
        using less.hyps [of xs d] Cons by simp
      from less.prems show ?thesis
        unfolding Cons parse_global_flags.simps(2)
        by (auto simp: keeps_simps split: prod.splits if_splits option.splits sum.splits
            dest: flag_value_shorter IH)
    qed (use less.prems in simp)
  qed
  from this [OF assms keeps_simps(1)] show ?thesis by (simp add: keeps_def)
qed

text \<open>A flag with its value, however it is spelled.\<close>

lemma parse_inline:
  "split_flag a = (name, v, True) \<Longrightarrow> name \<in> {''db'', ''pidfile'', ''ignore-path''} \<Longrightarrow>
    parse_global_flags (a # others) cfg = parse_global_flags ((''--'' @ name) # v # others) cfg"
  by (auto simp: parse_db parse_pidfile parse_ignore parse_global_flags.simps(2) [of a] flag_value_def)

lemma parse_next:
  "split_flag a = (name, [], False) \<Longrightarrow> name \<in> {''db'', ''pidfile'', ''ignore-path''} \<Longrightarrow>
    parse_global_flags (a # v # others) cfg = parse_global_flags ((''--'' @ name) # v # others) cfg"
  by (auto simp: parse_db parse_pidfile parse_ignore parse_global_flags.simps(2) [of a] flag_value_def)

end
