(* ===== verification/FlagsProps.thy ===== *)
theory FlagsProps imports Flags begin

text \<open>The properties of the command line's flags.\<close>

text \<open>
  \<open>start\<close> and the recorder it launches agree: parsing the arguments \<open>daemonArgs\<close> writes, from the
  defaults, gives back the storage path and the pid file of the parent, whatever characters they
  contain, leaves exactly \<open>daemon --foreground\<close> as the command, and gives ignore rules that decide
  every path as the parent's would.
\<close>

lemma daemon_args_round_trip:
  assumes "set (cf_ignore_paths (default_config home)) \<subseteq> set (cf_ignore_paths cfg)"
  shows "\<exists>cfg'. parse_global_flags (daemon_args home cfg) (default_config home) =
      Inr ([''daemon'', ''--foreground''], cfg') \<and>
    cf_db_path cfg' = cf_db_path cfg \<and> cf_pid_file cfg' = cf_pid_file cfg \<and>
    (\<forall>p. should_ignore_path (new_ignore_rules (cf_ignore_paths cfg')) p \<longleftrightarrow>
      should_ignore_path (new_ignore_rules (cf_ignore_paths cfg)) p)"
proof -
  let ?d = "default_config home"
  let ?cfg = "?d\<lparr>cf_db_path := cf_db_path cfg, cf_pid_file := cf_pid_file cfg,
    cf_ignore_paths := cf_ignore_paths ?d @ custom_ignore_paths home (cf_ignore_paths cfg)\<rparr>"
  have stop: "parse_global_flags [''daemon'', ''--foreground''] c = Inr ([''daemon'', ''--foreground''], c)" for c
    by (rule parse_stops) code_simp
  have "parse_global_flags (daemon_args home cfg) ?d = Inr ([''daemon'', ''--foreground''], ?cfg)"
    by (simp add: daemon_args_def parse_db parse_pidfile parse_ignores stop)
  moreover have "set (cf_ignore_paths ?cfg) = set (cf_ignore_paths cfg)"
    using assms by (auto simp: custom_ignore_paths_def slice_to_set_def)
  then have "should_ignore_path (new_ignore_rules (cf_ignore_paths ?cfg)) p \<longleftrightarrow>
      should_ignore_path (new_ignore_rules (cf_ignore_paths cfg)) p" for p
    by (rule should_ignore_set_cong)
  ultimately show ?thesis by auto
qed

text \<open>
  The four spellings of a global flag with a value mean the same, one dash or two, the value
  after an equals sign or as the next argument; and the first argument that is no global flag ends
  the parsing, everything from it on being passed through unchanged.
\<close>

theorem flag_spellings_agree:
  assumes "name \<in> {''db'', ''pidfile'', ''ignore-path''}" and "dash \<in> {''-'', ''--''}"
    and "fst (split_flag a) \<notin> {''json'', ''db'', ''pidfile'', ''ignore-path''}"
  shows "parse_global_flags ((dash @ name @ ''='' @ v) # others) cfg =
      parse_global_flags ((''--'' @ name) # v # others) cfg \<and>
    parse_global_flags ((dash @ name) # v # others) cfg =
      parse_global_flags ((''--'' @ name) # v # others) cfg \<and>
    parse_global_flags (a # others) cfg = Inr (a # others, cfg)"
proof -
  have n: "name \<noteq> []" "CHR ''='' \<notin> set name" "hd name \<noteq> CHR ''-''" using assms(1) by auto
  have "split_flag (dash @ name) = (name, [], False)"
    using assms(2) split_flag_long [OF n(1,2)] split_flag_short [OF n] by auto
  moreover have "split_flag (dash @ name @ ''='' @ v) = (name, v, True)"
    using assms(2) split_flag_long_value [OF n(1,2)] split_flag_short_value [OF n] by auto
  ultimately show ?thesis using parse_next parse_inline parse_stops [OF assms(3)] assms(1) by blast
qed

theorem flag_spellings_agree_witness:
  "parse_global_flags [''-db=/x'', ''query''] (default_config ''/r'') =
    parse_global_flags [''--db'', ''/x'', ''query''] (default_config ''/r'')"
proof -
  have "fst (split_flag ''query'') \<notin> {''json'', ''db'', ''pidfile'', ''ignore-path''}" by code_simp
  from flag_spellings_agree [of "''db''" "''-''", OF _ _ this] show ?thesis by simp
qed

end
