(* ===== verification/RootCommand.thy ===== *)
theory RootCommand imports FlagsProps begin

text \<open>
  \<open>newRootCmd\<close> of \<open>internal/cli/cli.go\<close>: the table of the commands and what each of them runs, under
  \<open>Execute\<close>. Which command cobra chooses for the arguments, and the root's own flags it finds on the
  way, are a parameter; what the commands do is a parameter here and defined in \<open>Commands\<close>.
\<close>

section \<open>The commands\<close>

datatype command =
    StartCmd | StopCmd | StatusCmd | TimelineCmd | WatchCmd | DiffCmd | QueryCmd | BenchmarkCmd
  | DaemonCmd | SQLCmd | PruneCmd

text \<open>Name, short help and what runs, in the order in which they are added.\<close>

definition passthrough_commands :: "(string \<times> string \<times> command) list" where
  "passthrough_commands =
     [(''start'', ''begin recording (eBPF; requires root)'', StartCmd),
      (''stop'', ''stop recording'', StopCmd),
      (''status'', ''show recorder status'', StatusCmd),
      (''timeline'', ''show filtered event timeline'', TimelineCmd),
      (''watch'', ''tail new events'', WatchCmd),
      (''diff'', ''summarize machine-state changes'', DiffCmd),
      (''query'', ''run plain-English or SQL queries'', QueryCmd),
      (''benchmark'', ''write synthetic demo events'', BenchmarkCmd),
      (''daemon'', ''run recorder in foreground'', DaemonCmd),
      (''sql'', ''run read-only SQL'', SQLCmd),
      (''prune'', ''delete old events and vacuum'', PruneCmd)]"

text \<open>The flags cobra found: values for the variables bound to them, in the order of the flags.\<close>

record root_flags =
  rf_db :: "string option"
  rf_pidfile :: "string option"
  rf_json :: "bool option"
  rf_ignore :: "string list"
  rf_version :: bool

definition no_flags :: root_flags where
  "no_flags = \<lparr>rf_db = None, rf_pidfile = None, rf_json = None, rf_ignore = [], rf_version = False\<rparr>"

datatype cobra_choice =
    ChooseRoot root_flags
  | ChooseVersion root_flags
  | ChooseCommand string root_flags "string list"
  | CobraError go_error

text \<open>The bound variables; \<open>ignore\<close> starts with the configuration's paths, and \<open>PersistentPreRun\<close>
  writes it back.\<close>

definition bind_flags :: "root_flags \<Rightarrow> config \<Rightarrow> config" where
  "bind_flags f cfg =
     (let ignore = foldl multi_string_set (cf_ignore_paths cfg) (rf_ignore f)
      in cfg\<lparr>cf_db_path := case_option (cf_db_path cfg) id (rf_db f),
           cf_pid_file := case_option (cf_pid_file cfg) id (rf_pidfile f),
           cf_json := case_option (cf_json cfg) id (rf_json f),
           cf_ignore_paths := ignore\<rparr>)"

definition new_root_cmd ::
    "(command \<Rightarrow> config \<Rightarrow> string list \<Rightarrow> 'a result) \<Rightarrow> (bool \<Rightarrow> 'a result) \<Rightarrow> 'a result \<Rightarrow>
      (string list \<Rightarrow> cobra_choice) \<Rightarrow> config \<Rightarrow> string list \<Rightarrow> 'a result" where
  "new_root_cmd run version help cobra cfg args =
     (case cobra args of
        CobraError e \<Rightarrow> Inl e
      | ChooseRoot f \<Rightarrow> if rf_version f then version (cf_json (bind_flags f cfg)) else help
      | ChooseVersion f \<Rightarrow> version (cf_json (bind_flags f cfg))
      | ChooseCommand name f cmd_args \<Rightarrow>
          (case map_of passthrough_commands name of
             None \<Rightarrow> Inl (Err (''unknown command '' @ quote_go name @ '' for '' @ quote_go ''ltm''))
           | Some (short, c) \<Rightarrow> passthrough (run c) (bind_flags f cfg) cmd_args))"

text \<open>What cobra documents of a command with \<open>DisableFlagParsing\<close>: named first, it gets everything
  behind its name as its arguments, no flag among them parsed.\<close>

definition hands_on :: "(string list \<Rightarrow> cobra_choice) \<Rightarrow> bool" where
  "hands_on cobra \<longleftrightarrow> (\<forall>(name, short, c) \<in> set passthrough_commands. \<forall>others.
     cobra (name # others) = ChooseCommand name no_flags others)"

section \<open>Where the global flags stand\<close>

lemma flag_value_append:
  "flag_value n v h others = Inr (x, others') \<Longrightarrow> flag_value n v h (others @ ys) = Inr (x, others' @ ys)"
  by (auto simp: flag_value_def split: if_splits list.splits)

lemma parse_append:
  assumes "parse_global_flags xs cfg = Inr ([], cfg')"
  shows "parse_global_flags (xs @ ys) cfg = parse_global_flags ys cfg'"
  using assms
proof (induction "length xs" arbitrary: xs cfg rule: less_induct)
  case less
  show ?case
  proof (cases xs)
    case (Cons a others)
    obtain name v h where a: "split_flag a = (name, v, h)" by (metis prod_cases3)
    have next_flag: "parse_global_flags (os @ ys) c = parse_global_flags ys cfg'"
      if "parse_global_flags os c = Inr ([], cfg')" "length os \<le> length others" for os c
      using less.hyps [of os c] that Cons by simp
    show ?thesis
    proof (cases "flag_value name v h others")
      case (Inl e)
      with less.prems show ?thesis
        unfolding Cons append_Cons parse_global_flags.simps(2) a
        by (auto split: if_splits option.splits intro: next_flag)
    next
      case (Inr r)
      then obtain x os where fv: "flag_value name v h others = Inr (x, os)" by (cases r) simp
      note fv flag_value_append [OF fv, of ys] flag_value_shorter [OF fv]
      with less.prems show ?thesis
        unfolding Cons append_Cons parse_global_flags.simps(2) a
        by (auto split: if_splits option.splits intro: next_flag)
    qed
  qed (use less.prems in simp)
qed

lemma bind_no_flags [simp]: "bind_flags no_flags cfg = cfg"
  by (simp add: bind_flags_def no_flags_def)

lemma command_names:
  "\<forall>(name, short, c) \<in> set passthrough_commands. split_flag name = ([], [], False) \<and>
    map_of passthrough_commands name = Some (short, c)"
  by code_simp


definition sample_cobra :: "string list \<Rightarrow> cobra_choice" where
  "sample_cobra args =
     (case args of
        [] \<Rightarrow> ChooseRoot no_flags
      | name # others \<Rightarrow> ChooseCommand name no_flags others)"


end
