(* ===== verification/Demo.thy ===== *)
theory Demo imports StoreReads StoreGuard begin

text \<open>
  The synthetic events of \<open>internal/storage/demo.go\<close> that \<open>ltm benchmark\<close> writes: a scenario of
  six kinds of event, 750 milliseconds apart.
\<close>

definition demo_paths :: "string list" where
  "demo_paths = [''/tmp/ltm-demo.txt'', ''/tmp/ltm-demo.yaml'']"

definition demo_base :: "gotime \<Rightarrow> string \<Rightarrow> string \<Rightarrow> int \<Rightarrow> int \<Rightarrow> string \<Rightarrow> event" where
  "demo_base ts category action pid ppid comm = empty_event\<lparr>ev_schema_version := schema_version,
     ev_timestamp := ts, ev_category := category, ev_action := action, ev_pid := pid,
     ev_ppid := ppid, ev_uid := 0, ev_comm := comm\<rparr>"

definition demo_event :: "gotime \<Rightarrow> nat \<Rightarrow> event" where
  "demo_event start i =
     (let ts = start + wrap64 (int i * 750 * 10 ^ 6); k = i mod 6 in
      if k = 0 then
        (demo_base ts ''process'' ''exec'' (4200 + int i) 1 (''demo-worker-'' @ itoa (int i)))
          \<lparr>ev_exe := ''/usr/bin/demo-worker'', ev_path := ''/usr/bin/demo-worker'',
           ev_metadata := Some [(''scenario'', AString ''demo'')]\<rparr>
      else if k = 1 then
        (demo_base ts ''file'' ''write'' (4200 + int i - 1) 1 (''demo-worker-'' @ itoa (int i - 1)))
          \<lparr>ev_path := demo_paths ! (i mod length demo_paths),
           ev_metadata := Some [(''bytes'', AInt 128)]\<rparr>
      else if k = 2 then
        (demo_base ts ''network'' ''listen'' 4300 1 ''demo-web'')
          \<lparr>ev_local_addr := ''127.0.0.1'', ev_local_port := 18080\<rparr>
      else if k = 3 then
        (demo_base ts ''network'' ''connect'' 4310 4300 ''curl'')
          \<lparr>ev_uid := 1000, ev_remote_addr := ''127.0.0.1'', ev_remote_port := 18080,
           ev_remote_host := ''localhost''\<rparr>
      else if k = 4 then
        (demo_base ts ''file'' ''rename'' 4300 1 ''demo-web'')
          \<lparr>ev_path := ''/tmp/ltm-demo.txt'', ev_old_path := ''/tmp/ltm-demo.txt.bak''\<rparr>
      else
        (demo_base ts ''process'' ''exit'' 4300 1 ''demo-web'')
          \<lparr>ev_exe := ''/usr/bin/demo-web'', ev_exit_code := 0\<rparr>)"

definition generate_demo_events :: "gotime \<Rightarrow> int \<Rightarrow> event list" where
  "generate_demo_events start n =
     (if n \<le> 0 then [] else map (demo_event start) [0 ..< nat n])"

lemma demo_event_simps [simp]:
  "ev_dropped_before (demo_event start i) = 0"
  "ev_timestamp (demo_event start i) = start + wrap64 (int i * 750 * 10 ^ 6)"
  "go_map (ev_metadata (demo_event start i))"
  by (simp_all add: demo_event_def demo_base_def empty_event_def Let_def go_map_def)

lemma length_demo_events [simp]: "length (generate_demo_events start n) = nat n"
  by (simp add: generate_demo_events_def)

lemma demo_batch_ok: "batch_ok (generate_demo_events start n)"
  by (simp add: batch_ok_def generate_demo_events_def)

lemma demo_batch_drops: "batch_drops (generate_demo_events start n) = 0"
proof -
  have "batch_drops (map (demo_event start) is) = 0" for "is"
    by (induction "is") (simp_all add: batch_drops_simps)
  then show ?thesis by (simp add: generate_demo_events_def batch_drops_simps)
qed

end
