(* ===== verification/Commands.thy ===== *)
theory Commands imports QueryEngine Diff Agent Demo Flags GoFlag Service AbiGen begin

text \<open>
  The commands of \<open>internal/cli\<close> (\<open>commands_query.go\<close>, \<open>commands_runtime.go\<close>) and their output
  (\<open>output.go\<close>): each parses its flags, opens the store and runs one operation. \<open>cli_env\<close> gathers what
  they ask of the machine and of the time package. Printed output is its lines; JSON output and
  the aligned table are the values handed to the encoder and to \<open>tabwriter\<close>.
\<close>

section \<open>The environment\<close>

record cli_env =
  ce_exec :: engine
  ce_open :: open_env
  ce_now :: gotime
  ce_parse_duration :: "string \<Rightarrow> int option"
  ce_show_duration :: "int \<Rightarrow> string"
  ce_parse_layout :: "string \<Rightarrow> string \<Rightarrow> gotime option"
  ce_columns :: "string \<Rightarrow> string list"
  ce_agent_spec :: string
  ce_look_path :: "string \<Rightarrow> bool"
  ce_run_cmd :: "string list \<Rightarrow> go_error option \<times> string \<times> string"
  ce_schema_doc :: string
  ce_keys :: "(string \<rightharpoonup> event list) \<Rightarrow> string list"
  ce_tx :: tx_env

datatype cli_output =
    Lines "string list"
  | JsonEvents "event list"
  | JsonRows "(string \<rightharpoonup> sqlval) list"
  | JsonAgentRows string string string "(string \<rightharpoonup> sqlval) list"
  | JsonReport diff_report
  | JsonAnswer query_result
  | JsonStatus int bool status
  | Table "string list"
  | Text string
  | JsonFields "(string \<times> string) list"

definition time_layouts :: "string list" where
  "time_layouts = [''2006-01-02 15:04'', ''2006-01-02 15:04:05'', ''2006-01-02T15:04:05Z07:00'',
     ''2006-01-02T15:04:05.999999999Z07:00'']"

fun first_layout :: "(string \<Rightarrow> string \<Rightarrow> gotime option) \<Rightarrow> string list \<Rightarrow> string \<Rightarrow> gotime result" where
  "first_layout parse [] input = Inl (Err (''unable to parse time '' @ quote_go input))"
| "first_layout parse (l # ls) input =
     (case parse l input of Some t \<Rightarrow> Inr t | None \<Rightarrow> first_layout parse ls input)"

definition parse_duration_or_time :: "cli_env \<Rightarrow> string \<Rightarrow> gotime result" where
  "parse_duration_or_time env input =
     (if input = [] then Inl (Err ''empty time'')
      else if input = ''now'' then Inr (ce_now env)
      else case ce_parse_duration env input of
        Some d \<Rightarrow> Inr (ce_now env + wrap64 (- d))
      | None \<Rightarrow> first_layout (ce_parse_layout env) time_layouts input)"

section \<open>Output\<close>

definition format_event :: "event \<Rightarrow> string" where
  "format_event ev =
     (let l0 = rfc3339 (ev_timestamp ev) @ '' '' @ pad_right 8 (ev_category ev) @ '' '' @
            pad_right 8 (ev_action ev) @ '' pid='' @ itoa (ev_pid ev) @ '' ppid='' @ itoa (ev_ppid ev) @
            '' uid='' @ itoa (ev_uid ev) @ '' comm='' @ ev_comm ev;
          l1 = (if ev_path ev \<noteq> [] then l0 @ '' path='' @ ev_path ev else l0);
          l2 = (if ev_old_path ev \<noteq> [] then l1 @ '' old_path='' @ ev_old_path ev else l1);
          l3 = (if ev_local_port ev \<noteq> 0
                then l2 @ '' local='' @ ev_local_addr ev @ '':'' @ itoa (ev_local_port ev) else l2)
      in if ev_remote_port ev \<noteq> 0
         then l3 @ '' remote='' @ ev_remote_addr ev @ '':'' @ itoa (ev_remote_port ev) else l3)"

definition print_events :: "event list \<Rightarrow> cli_output" where
  "print_events evs = Lines (map format_event evs)"

definition print_query_result :: "query_result \<Rightarrow> cli_output" where
  "print_query_result r = Lines (qr_title r # map (\<lambda>row. ''- '' @ row) (qr_rows r))"

definition count_of :: "'a list \<Rightarrow> string" where
  "count_of xs = itoa (int (length xs))"

definition file_line :: "file_change \<Rightarrow> string" where
  "file_line f = ''  '' @ rfc3339 (fc_timestamp f) @ '' path='' @ fc_path f @ '' count='' @
     itoa (fc_count f) @ '' action='' @ fc_action f"

definition process_line :: "process_change \<Rightarrow> string" where
  "process_line p = ''  '' @ rfc3339 (pc_timestamp p) @ '' pid='' @ itoa (pc_pid p) @ '' comm='' @
     pc_comm p @ '' path='' @ pc_path p @ '' action='' @ pc_action p"

definition socket_line :: "socket_change \<Rightarrow> string" where
  "socket_line s = ''  '' @ rfc3339 (sc_timestamp s) @ '' pid='' @ itoa (sc_pid s) @ '' comm='' @
     sc_comm s @ '' socket='' @ sc_socket s @ '' action='' @ sc_action s"

definition writer_line :: "hot_writer \<Rightarrow> string" where
  "writer_line h = ''  '' @ rfc3339 (hw_timestamp h) @ '' pid='' @ itoa (hw_pid h) @ '' comm='' @
     hw_comm h @ '' path='' @ hw_path h @ '' count='' @ itoa (hw_count h)"

definition restart_line :: "process_restart \<Rightarrow> string" where
  "restart_line r = ''  '' @ rfc3339 (prs_timestamp r) @ '' pid='' @ itoa (prs_pid r) @ '' comm='' @ prs_comm r"

definition section_lines :: "string \<Rightarrow> ('a \<Rightarrow> string) \<Rightarrow> 'a list \<Rightarrow> string list" where
  "section_lines title line xs = (if length xs > 0 then title # map line xs else [])"

definition print_diff :: "diff_report \<Rightarrow> cli_output" where
  "print_diff r = Lines (
     [''Diff '' @ rfc3339 (dr_from r) @ '' -> '' @ rfc3339 (dr_to r),
      ''new processes: '' @ count_of (dr_new_processes r) @ '' exited: '' @ count_of (dr_exited_processes r) @
        '' modified files: '' @ count_of (dr_modified_files r) @ '' deleted files: '' @ count_of (dr_deleted_files r),
      ''new listeners: '' @ count_of (dr_new_listeners r) @ '' outbound connections: '' @
        count_of (dr_outbound r) @ '' hot writers: '' @ count_of (dr_hot_writers r) @ '' restarts: '' @
        count_of (dr_restarts r)] @
     section_lines ''modified files:'' file_line (dr_modified_files r) @
     section_lines ''new processes:'' process_line (dr_new_processes r) @
     section_lines ''new listeners:'' socket_line (dr_new_listeners r) @
     section_lines ''outbound connections:'' socket_line (dr_outbound r) @
     section_lines ''hot writers:'' writer_line (dr_hot_writers r) @
     section_lines ''restarts:'' restart_line (dr_restarts r))"

text \<open>\<open>sqlSchemaHelp\<close>: the usage of \<open>query sql\<close> around the schema's documentation.\<close>

definition sql_schema_help :: string where
  "sql_schema_help =
     ''ltm query sql - run read-only SQL against the events table.'' @ [newline] @
     [newline] @
     ''Usage:'' @ [newline] @
     ''  ltm query sql '' @ [quote_dq] @ ''<SELECT ...>'' @ [quote_dq] @ [newline] @
     ''  ltm query --json sql '' @ [quote_dq] @ ''<SELECT ...>'' @ [quote_dq] @ [newline] @
     [newline] @
     schema_doc @
     [newline, newline] @
     ''Examples:'' @ [newline] @
     ''  ltm query sql '' @ [quote_dq] @ ''SELECT comm, count(*) n FROM events GROUP BY comm ORDER BY n DESC LIMIT 10'' @ [quote_dq] @ [newline] @
     ''  ltm query sql '' @ [quote_dq] @ ''SELECT datetime(ts/1e9,'' @ [quote_sq] @ ''unixepoch'' @ [quote_sq] @ '') ts, path, comm FROM events WHERE category='' @ [quote_sq] @ ''file'' @ [quote_sq] @ '' AND action='' @ [quote_sq] @ ''write'' @ [quote_sq] @ '' AND path LIKE '' @ [quote_sq] @ ''/etc/%'' @ [quote_sq] @ [quote_dq] @ [newline] @
     ''  ltm query sql '' @ [quote_dq] @ ''SELECT * FROM events WHERE pid = 1234 ORDER BY ts'' @ [quote_dq] @ [newline] @
     ''  ltm query sql '' @ [quote_dq] @ ''SELECT comm, remote_addr, remote_port FROM events WHERE category='' @ [quote_sq] @ ''network'' @ [quote_sq] @ '' AND action='' @ [quote_sq] @ ''connect'' @ [quote_sq] @ '' AND ts > (unixepoch()-3600)*1000000000'' @ [quote_dq] @ [newline] @
     [newline] @
     ''The connection runs with PRAGMA query_only=ON: INSERT/UPDATE/DELETE/DDL will fail.'' @ [newline]"

text \<open>\<open>printVersion\<close>, with what the build and the runtime say of themselves.\<close>

record build_info =
  bi_version :: string
  bi_commit :: string
  bi_date :: string
  bi_go :: string
  bi_os :: string
  bi_arch :: string

definition print_version :: "build_info \<Rightarrow> bool \<Rightarrow> cli_output" where
  "print_version b json =
     (if json then
        JsonFields [(''version'', bi_version b), (''commit'', bi_commit b), (''date'', bi_date b),
          (''go'', bi_go b), (''os'', bi_os b), (''arch'', bi_arch b)]
      else Lines [''ltm '' @ bi_version b, ''  commit:  '' @ bi_commit b, ''  built:   '' @ bi_date b,
        ''  go:      '' @ bi_go b, ''  platform: '' @ bi_os b @ ''/'' @ bi_arch b])"

text \<open>
  A cell of a result as the driver scans it: nothing, bytes, or one of the two kinds of value the
  store's engine gives. The lines are given to \<open>tabwriter\<close>, their cells separated by tabs.
\<close>

datatype sql_cell = NilCell | BytesCell string | ValueCell sqlval

fun format_sql_value :: "sql_cell \<Rightarrow> string" where
  "format_sql_value NilCell = []"
| "format_sql_value (BytesCell b) = b"
| "format_sql_value (ValueCell (VInt n)) = itoa n"
| "format_sql_value (ValueCell (VText t)) = t"

definition print_sql_table :: "string list \<Rightarrow> sqlval list list \<Rightarrow> cli_output" where
  "print_sql_table cols rows =
     Table (join [CHR 0x09] cols # map (\<lambda>row. join [CHR 0x09] (map (\<lambda>v. format_sql_value (ValueCell v)) row)) rows)"

section \<open>SQL\<close>

text \<open>\<open>rowsToMaps\<close>: \<open>m[c] = row[i]\<close> for every column; a later column of the same name wins, a row
  that is too short panics.\<close>

fun row_map :: "string list \<Rightarrow> sqlval list \<Rightarrow> (string \<rightharpoonup> sqlval) \<Rightarrow> (string \<rightharpoonup> sqlval) result" where
  "row_map [] row m = Inr m"
| "row_map (c # cols) [] m = Inl (Panic ''index out of range'')"
| "row_map (c # cols) (v # row) m = row_map cols row (m(c \<mapsto> v))"

definition rows_to_maps :: "string list \<Rightarrow> sqlval list list \<Rightarrow> (string \<rightharpoonup> sqlval) list result" where
  "rows_to_maps cols rows = rmap (\<lambda>row. row_map cols row Map.empty) rows"

definition exec_read_only_sql :: "cli_env \<Rightarrow> config \<Rightarrow> string \<Rightarrow> bool \<Rightarrow> cli_output result" where
  "exec_read_only_sql env cfg q json =
     rbind (open_read_only (ce_open env) (cf_db_path cfg)) (\<lambda>st.
     rbind (snd (raw_sql (ce_exec env) (ce_columns env) st q)) (\<lambda>(cols, rows).
       if json then rbind (rows_to_maps cols rows) (\<lambda>ms. Inr (JsonRows ms))
       else Inr (print_sql_table cols rows)))"

definition run_sql :: "cli_env \<Rightarrow> config \<Rightarrow> string list \<Rightarrow> cli_output result" where
  "run_sql env cfg args =
     rbind (flagset_parse [(''json'', BoolFlag)] args) (\<lambda>(vals, others).
       let q = trim_space (join '' '' others) in
       if q = [] then Inr (Text sql_schema_help)
       else exec_read_only_sql env cfg q (bool_value ''json'' (cf_json cfg) vals))"

text \<open>\<open>runAgentQuery\<close>, with the store's table afterwards, as far as a store was opened.\<close>

definition run_agent_query ::
    "cli_env \<Rightarrow> config \<Rightarrow> agent \<Rightarrow> string \<Rightarrow> bool \<Rightarrow> store option \<times> cli_output result" where
  "run_agent_query env cfg a question json =
     (case generate_sql (ce_run_cmd env) (ce_schema_doc env) a question of
        Inl e \<Rightarrow> (None, Inl e)
      | Inr sql \<Rightarrow>
          (case open_read_only (ce_open env) (cf_db_path cfg) of
             Inl e \<Rightarrow> (None, Inl e)
           | Inr st \<Rightarrow>
               (case raw_sql (ce_exec env) (ce_columns env) st sql of
                  (st', Inl e) \<Rightarrow>
                    (Some st', Inl (Err (''agent '' @ agent_name a @ '' produced invalid SQL ('' @
                      err_text e @ ''): '' @ sql)))
                | (st', Inr (cols, rows)) \<Rightarrow>
                    (Some st',
                     if json then
                       rbind (rows_to_maps cols rows) (\<lambda>ms. Inr (JsonAgentRows question (agent_name a) sql ms))
                     else Inr (print_sql_table cols rows)))))"

definition run_question :: "cli_env \<Rightarrow> config \<Rightarrow> string \<Rightarrow> bool \<Rightarrow> cli_output result" where
  "run_question env cfg question json =
     rbind (open_read_only (ce_open env) (cf_db_path cfg)) (\<lambda>st.
     rbind (execute_question (ce_exec env) json_unmarshal st question) (\<lambda>r.
       Inr (if json then JsonAnswer r else print_query_result r)))"

definition run_query :: "cli_env \<Rightarrow> config \<Rightarrow> string list \<Rightarrow> cli_output result" where
  "run_query env cfg args =
     rbind (flagset_parse [(''json'', BoolFlag), (''agent'', string_flag)] args) (\<lambda>(vals, others).
       let json = bool_value ''json'' (cf_json cfg) vals in
       if others \<noteq> [] \<and> hd others = ''sql'' then
         (let q = trim_space (join '' '' (tl others)) in
          if q = [] then Inr (Text sql_schema_help) else exec_read_only_sql env cfg q json)
       else
         (let question = trim_space (join '' '' others) in
          if question = [] then
            Inl (Err (''query requires a question or: query sql '' @ quote_go ''<SELECT ...>''))
          else
            rbind (resolve (ce_look_path env) (string_value ''agent'' (ce_agent_spec env) vals)) (\<lambda>found.
              case found of
                None \<Rightarrow> run_question env cfg question json
              | Some a \<Rightarrow>
                  (case snd (run_agent_query env cfg a question json) of
                     Inr out \<Rightarrow> Inr out
                   | Inl e \<Rightarrow> run_question env cfg question json))))"

definition run_diff :: "cli_env \<Rightarrow> config \<Rightarrow> string list \<Rightarrow> cli_output result" where
  "run_diff env cfg args =
     rbind (flagset_parse [(''from'', string_flag), (''to'', string_flag), (''json'', BoolFlag)] args)
       (\<lambda>(vals, others).
     rbind (open_read_only (ce_open env) (cf_db_path cfg)) (\<lambda>st.
     rbind (parse_duration_or_time env (string_value ''from'' ''1h'' vals)) (\<lambda>from_t.
     rbind (parse_duration_or_time env (string_value ''to'' ''now'' vals)) (\<lambda>to_t.
     rbind (diff_engine (ce_exec env) json_unmarshal (ce_keys env) st from_t to_t) (\<lambda>report.
       Inr (if bool_value ''json'' (cf_json cfg) vals then JsonReport report else print_diff report))))))"

section \<open>Timeline\<close>

text \<open>The loop that reverses the events in place.\<close>

function reverse_loop :: "nat \<Rightarrow> nat \<Rightarrow> 'a list \<Rightarrow> 'a list" where
  "reverse_loop i j xs =
     (if i < j then reverse_loop (i + 1) (j - 1) (xs[i := xs ! j, j := xs ! i]) else xs)"
  by pat_completeness auto

termination by (relation "measure (\<lambda>(i, j, xs). j - i)") auto

declare reverse_loop.simps [simp del]

definition int_set_flag :: flag_kind where
  "int_set_flag = ValueFlag (\<lambda>v. case multi_int_set [] v of Inl e \<Rightarrow> Some (err_text e) | Inr ns \<Rightarrow> None)"

definition timeline_flags :: flag_set where
  "timeline_flags =
     [(''since'', string_flag), (''until'', string_flag), (''limit'', int_flag), (''json'', BoolFlag),
      (''path'', string_flag), (''exe'', string_flag), (''pid'', int_set_flag),
      (''uid'', int_set_flag), (''category'', string_flag), (''action'', string_flag),
      (''comm'', string_flag)]"

definition int_values :: "string \<Rightarrow> flag_values \<Rightarrow> int list" where
  "int_values name vals = List.map_filter atoi (flag_values_of name vals)"

definition timeline_filter :: "flag_values \<Rightarrow> gotime \<Rightarrow> gotime \<Rightarrow> event_filter" where
  "timeline_filter vals since_t until_t = empty_filter\<lparr>
     f_from := since_t, f_to := until_t, f_pids := int_values ''pid'' vals,
     f_uids := int_values ''uid'' vals, f_categories := flag_values_of ''category'' vals,
     f_actions := flag_values_of ''action'' vals, f_comms := flag_values_of ''comm'' vals,
     f_path_like := string_value ''path'' [] vals, f_exe_like := string_value ''exe'' [] vals,
     f_limit := int_value ''limit'' 200 vals\<rparr>"

text \<open>The events of the timeline, and the command.\<close>

definition timeline_events :: "cli_env \<Rightarrow> store \<Rightarrow> event_filter \<Rightarrow> event list result" where
  "timeline_events env st f =
     rbind (store_query (ce_exec env) json_unmarshal st f) (\<lambda>events.
       Inr (reverse_loop 0 (length events - 1) events))"

definition run_timeline :: "cli_env \<Rightarrow> config \<Rightarrow> string list \<Rightarrow> cli_output result" where
  "run_timeline env cfg args =
     rbind (flagset_parse timeline_flags args) (\<lambda>(vals, others).
     rbind (open_read_only (ce_open env) (cf_db_path cfg)) (\<lambda>st.
     rbind (parse_duration_or_time env (string_value ''since'' ''1h'' vals)) (\<lambda>since_t.
     rbind (parse_duration_or_time env (string_value ''until'' ''now'' vals)) (\<lambda>until_t.
     rbind (timeline_events env st (timeline_filter vals since_t until_t)) (\<lambda>events.
       Inr (if bool_value ''json'' (cf_json cfg) vals then JsonEvents events
            else print_events events))))))"

section \<open>Watch\<close>

definition watch_predicate :: "string list \<Rightarrow> string list \<Rightarrow> int list \<Rightarrow> event \<Rightarrow> bool" where
  "watch_predicate categories comms pids ev \<longleftrightarrow>
     (let cat_set = slice_to_set categories; comm_set = slice_to_set comms; pid_set = set pids in
      if cat_set \<noteq> {} \<and> ev_category ev \<notin> cat_set then False
      else if comm_set \<noteq> {} \<and> ev_comm ev \<notin> comm_set then False
      else if pid_set \<noteq> {} \<and> ev_pid ev \<notin> pid_set then False
      else True)"

text \<open>
  \<open>watchStep\<close>: the new high-water id, the lines written so far and the error. The writer is asked
  with what was written and the next line.
\<close>

type_synonym writer = "string list \<Rightarrow> string \<Rightarrow> go_error option"

fun watch_print ::
    "(event \<Rightarrow> bool) \<Rightarrow> writer \<Rightarrow> event list \<Rightarrow> int \<Rightarrow> string list \<Rightarrow> int \<times> string list \<times> go_error option" where
  "watch_print matching wr [] last_id out = (last_id, out, None)"
| "watch_print matching wr (ev # evs) last_id out =
     (let advanced = (if ev_id ev > last_id then ev_id ev else last_id) in
      if matching ev then
        (case wr out (format_event ev) of
           Some e \<Rightarrow> (last_id, out, Some e)
         | None \<Rightarrow> watch_print matching wr evs advanced (out @ [format_event ev]))
      else watch_print matching wr evs advanced out)"

definition watch_step ::
    "engine \<Rightarrow> store \<Rightarrow> (event \<Rightarrow> bool) \<Rightarrow> writer \<Rightarrow> int \<Rightarrow> int \<Rightarrow> string list \<Rightarrow>
      int \<times> string list \<times> go_error option" where
  "watch_step exec st matching wr limit last_id out =
     (case events_after_id exec json_unmarshal st last_id limit of
        Inl e \<Rightarrow> (last_id, out, Some e)
      | Inr events \<Rightarrow> watch_print matching wr events last_id out)"

text \<open>The backfill of \<open>--since\<close>, whose lines are printed without looking at errors.\<close>

fun backfill_loop :: "(event \<Rightarrow> bool) \<Rightarrow> event list \<Rightarrow> int \<Rightarrow> string list \<Rightarrow> int \<times> string list" where
  "backfill_loop matching [] last_id out = (last_id, out)"
| "backfill_loop matching (ev # evs) last_id out =
     backfill_loop matching evs (if ev_id ev > last_id then ev_id ev else last_id)
       (if matching ev then out @ [format_event ev] else out)"

definition watch_flags :: "cli_env \<Rightarrow> flag_set" where
  "watch_flags env =
     [(''interval'', ValueFlag (\<lambda>v. if ce_parse_duration env v = None then Some ''parse error'' else None)),
      (''since'', string_flag), (''limit'', int_flag), (''comm'', string_flag), (''pid'', int_set_flag),
      (''category'', string_flag)]"

definition watch_interval :: "cli_env \<Rightarrow> flag_values \<Rightarrow> int" where
  "watch_interval env vals =
     last (10 ^ 9 # List.map_filter (ce_parse_duration env) (flag_values_of ''interval'' vals))"

definition watch_backfill ::
    "cli_env \<Rightarrow> store \<Rightarrow> (event \<Rightarrow> bool) \<Rightarrow> string \<Rightarrow> int \<Rightarrow> (int \<times> string list) result" where
  "watch_backfill env st matching since limit =
     (if since = [] then Inr (0, [])
      else
        rbind (parse_duration_or_time env since) (\<lambda>start.
        rbind (store_query (ce_exec env) json_unmarshal st
            (empty_filter\<lparr>f_from := start, f_to := ce_now env, f_order_asc := True, f_limit := limit\<rparr>))
          (\<lambda>events. Inr (backfill_loop matching events 0 []))))"

text \<open>\<open>runWatch\<close> up to its ticker: the predicate, the limit, the id to go on from, the lines.\<close>

definition watch_start ::
    "cli_env \<Rightarrow> config \<Rightarrow> string list \<Rightarrow> ((event \<Rightarrow> bool) \<times> int \<times> int \<times> string list) result" where
  "watch_start env cfg args =
     rbind (flagset_parse (watch_flags env) args) (\<lambda>(vals, others).
       if watch_interval env vals \<le> 0 then
         Inl (Err (''watch --interval must be positive, got '' @ ce_show_duration env (watch_interval env vals)))
       else
         rbind (open_read_only (ce_open env) (cf_db_path cfg)) (\<lambda>st.
         let matching = watch_predicate (flag_values_of ''category'' vals) (flag_values_of ''comm'' vals)
               (int_values ''pid'' vals);
             limit = int_value ''limit'' 500 vals
         in rbind (watch_backfill env st matching (string_value ''since'' [] vals) limit)
              (\<lambda>(last_id, out).
                if last_id = 0 then
                  rbind (latest_event_id (ce_exec env) st) (\<lambda>i. Inr (matching, limit, i, out))
                else Inr (matching, limit, last_id, out))))"

text \<open>The ticks: what the store holds at each, until an error.\<close>

fun watch_ticks ::
    "engine \<Rightarrow> (event \<Rightarrow> bool) \<Rightarrow> writer \<Rightarrow> int \<Rightarrow> store list \<Rightarrow> int \<Rightarrow> string list \<Rightarrow>
      int \<times> string list \<times> go_error option" where
  "watch_ticks exec matching wr limit [] last_id out = (last_id, out, None)"
| "watch_ticks exec matching wr limit (st # sts) last_id out =
     (case watch_step exec st matching wr limit last_id out of
        (last_id', out', Some e) \<Rightarrow> (last_id', out', Some e)
      | (last_id', out', None) \<Rightarrow> watch_ticks exec matching wr limit sts last_id' out')"

section \<open>Writing commands\<close>

text \<open>\<open>runBenchmark\<close>, without the line of timings it prints.\<close>

definition run_benchmark :: "cli_env \<Rightarrow> config \<Rightarrow> string list \<Rightarrow> (store \<times> insert_stats) result" where
  "run_benchmark env cfg args =
     rbind (flagset_parse [(''count'', int_flag)] args) (\<lambda>(vals, others).
       let n = int_value ''count'' 1000 vals in
       if n < 0 then Inl (Err ''benchmark count must be >= 0'')
       else
         rbind (open_store (ce_exec env) (ce_open env) (cf_db_path cfg)) (\<lambda>st.
           case insert_events (ce_exec env) json_marshal (ce_tx env) st
               (generate_demo_events (ce_now env) n) of
             (st', stats, Some e) \<Rightarrow> Inl e
           | (st', stats, None) \<Rightarrow> Inr (st', stats)))"

definition run_prune :: "cli_env \<Rightarrow> config \<Rightarrow> string list \<Rightarrow> (store \<times> cli_output) result" where
  "run_prune env cfg args =
     rbind (flagset_parse [(''older-than'', string_flag), (''vacuum'', BoolFlag)] args) (\<lambda>(vals, others).
     rbind (open_store (ce_exec env) (ce_open env) (cf_db_path cfg)) (\<lambda>st.
     rbind (parse_duration_or_time env (string_value ''older-than'' ''720h'' vals)) (\<lambda>cutoff.
       case prune_events (ce_exec env) st cutoff (bool_value ''vacuum'' False vals) of
         (st', n, Some e) \<Rightarrow> Inl e
       | (st', n, None) \<Rightarrow>
           Inr (st', Lines [''pruned '' @ itoa n @ '' events older than '' @ rfc3339 cutoff]))))"

section \<open>Starting and stopping the recorder\<close>

text \<open>
  What the commands ask of the operating system, and the part of its state they share: the files, so
  that a pid file one command writes is read by the next, and the processes that run. \<open>os_spawn\<close>
  gives the pid of the detached process.
\<close>

record os_env =
  os_mkdir_all :: "string \<Rightarrow> go_error option"
  os_executable :: "string result"
  os_spawn :: "string \<Rightarrow> string list \<Rightarrow> int result"
  os_write_file :: "string \<Rightarrow> go_error option"
  os_signal :: "int \<Rightarrow> go_error option"
  os_probe :: "int \<Rightarrow> go_error option"

record host =
  h_files :: "string \<rightharpoonup> string"
  h_running :: "int set"

text \<open>\<open>filepath.Dir\<close>.\<close>

definition path_dir :: "string \<Rightarrow> string" where
  "path_dir p = path_clean (rev (dropWhile (\<lambda>c. c \<noteq> CHR ''/'') (rev p)))"

definition opt_error :: "go_error option \<Rightarrow> unit result" where
  "opt_error e = (case e of None \<Rightarrow> Inr () | Some e \<Rightarrow> Inl e)"

text \<open>\<open>runStart\<close>; a recorder whose pid cannot be written down is killed.\<close>

definition run_start :: "os_env \<Rightarrow> string \<Rightarrow> config \<Rightarrow> string list \<Rightarrow> host \<Rightarrow> host \<times> cli_output result" where
  "run_start os home cfg args h =
     (case rbind (flagset_parse [] args) (\<lambda>p.
           rbind (opt_error (os_mkdir_all os (path_dir (cf_pid_file cfg)))) (\<lambda>u.
           rbind (opt_error (os_mkdir_all os (path_dir (cf_db_path cfg)))) (\<lambda>u.
           rbind (os_executable os) (\<lambda>exe. os_spawn os exe (daemon_args home cfg))))) of
        Inl e \<Rightarrow> (h, Inl e)
      | Inr pid \<Rightarrow>
          let spawned = h\<lparr>h_running := insert pid (h_running h)\<rparr> in
          (case os_write_file os (cf_pid_file cfg) of
             Some e \<Rightarrow> (spawned\<lparr>h_running := h_running spawned - {pid}\<rparr>, Inl e)
           | None \<Rightarrow>
               (spawned\<lparr>h_files := (h_files spawned)(cf_pid_file cfg \<mapsto> itoa pid)\<rparr>,
                Inr (Lines [''ltm started pid='' @ itoa pid @ '' db='' @ cf_db_path cfg]))))"

text \<open>
  \<open>readPIDFile\<close> returns a number with its error, which \<open>runStatus\<close> looks at: 0, or for a number that
  is out of range the nearest one.
\<close>

definition atoi_value :: "string \<Rightarrow> int" where
  "atoi_value s =
     (case atoi s of
        Some n \<Rightarrow> n
      | None \<Rightarrow> if \<not> int_syntax s then 0 else if hd s = CHR ''-'' then - (2 ^ 63) else 2 ^ 63 - 1)"

definition read_pid_file :: "host \<Rightarrow> string \<Rightarrow> int \<times> go_error option" where
  "read_pid_file h path =
     (case h_files h path of
        None \<Rightarrow> (0, Some (Err (''open '' @ path @ '': no such file or directory'')))
      | Some data \<Rightarrow>
          let s = trim_space data
          in (atoi_value s, if atoi s = None then Some (num_error ''Atoi'' s) else None))"

text \<open>\<open>runStop\<close>: the pid that got SIGTERM, with the output.\<close>

definition run_stop :: "os_env \<Rightarrow> config \<Rightarrow> string list \<Rightarrow> host \<Rightarrow> (int \<times> cli_output) result" where
  "run_stop os cfg args h =
     (if length args > 0 then Inl (Err ''stop takes no arguments'')
      else
        (case read_pid_file h (cf_pid_file cfg) of
           (pid, Some e) \<Rightarrow> Inl e
         | (pid, None) \<Rightarrow>
             rbind (opt_error (os_signal os pid)) (\<lambda>u.
               Inr (pid, Lines [''ltm stopped pid='' @ itoa pid]))))"

text \<open>\<open>processAlive\<close>: signal 0 arrives, or is refused because the process is another user's.\<close>

definition eperm :: go_error where
  "eperm = Err ''operation not permitted''"

definition process_alive :: "os_env \<Rightarrow> int \<Rightarrow> bool" where
  "process_alive os pid \<longleftrightarrow> os_probe os pid = None \<or> os_probe os pid = Some eperm"

definition bool_text :: "bool \<Rightarrow> string" where
  "bool_text b = (if b then ''true'' else ''false'')"

definition run_status :: "cli_env \<Rightarrow> os_env \<Rightarrow> config \<Rightarrow> string list \<Rightarrow> host \<Rightarrow> cli_output result" where
  "run_status env os cfg args h =
     rbind (flagset_parse [(''json'', BoolFlag)] args) (\<lambda>(vals, others).
     rbind (open_read_only (ce_open env) (cf_db_path cfg)) (\<lambda>st.
     rbind (store_status (ce_exec env) st) (\<lambda>s.
       let pid = fst (read_pid_file h (cf_pid_file cfg));
           alive = (pid > 0 \<and> process_alive os pid)
       in Inr (if bool_value ''json'' (cf_json cfg) vals then JsonStatus pid alive s
               else Lines [''daemon: alive='' @ bool_text alive @ '' pid='' @ itoa pid,
                 ''events='' @ itoa (status_event_count s) @ '' dropped='' @
                 itoa (status_dropped_events s) @ '' last_event='' @ rfc3339 (status_last_event_time s)]))))"

text \<open>\<open>runDaemon\<close> up to \<open>svc.Run\<close>: the service at its start, over the store it has opened.\<close>

definition run_daemon :: "cli_env \<Rightarrow> config \<Rightarrow> string list \<Rightarrow> store service result" where
  "run_daemon env cfg args =
     rbind (flagset_parse
         [(''foreground'', BoolFlag), (''db'', string_flag), (''pidfile'', string_flag)] args)
       (\<lambda>(vals, others).
       if \<not> bool_value ''foreground'' False vals then Inl (Err ''daemon requires --foreground'')
       else
         let cfg' = cfg\<lparr>cf_db_path := string_value ''db'' (cf_db_path cfg) vals,
               cf_pid_file := string_value ''pidfile'' (cf_pid_file cfg) vals\<rparr>
         in rbind (open_store (ce_exec env) (ce_open env) (cf_db_path cfg')) (\<lambda>st.
              Inr (start_service
                \<lparr>sc_ignore_paths = cf_ignore_paths cfg', sc_batch_size = 0, sc_flush_period = 0\<rparr> st)))"

end
