(* ===== verification/CommandsProps.thy ===== *)
theory CommandsProps imports Commands StoreHistory FlagsProps begin

text \<open>The properties of the commands: timeline, watch, benchmark, start and stop.\<close>

section \<open>Timeline\<close>

lemma reverse_loop_nth:
  "i + j + 1 = length xs \<Longrightarrow> i \<le> j + 1 \<Longrightarrow>
    reverse_loop i j xs =
      map (\<lambda>k. if i \<le> k \<and> k \<le> j then xs ! (length xs - 1 - k) else xs ! k) [0 ..< length xs]"
proof (induction i j xs rule: reverse_loop.induct)
  case (1 i j xs)
  show ?case
  proof (cases "i < j")
    case True
    let ?ys = "xs[i := xs ! j, j := xs ! i]"
    have "reverse_loop i j xs = reverse_loop (i + 1) (j - 1) ?ys"
      using True by (simp add: reverse_loop.simps [of i j])
    also have "\<dots> = map (\<lambda>k. if i + 1 \<le> k \<and> k \<le> j - 1 then ?ys ! (length ?ys - 1 - k) else ?ys ! k)
        [0 ..< length ?ys]"
      by (rule 1(1) [OF True]) (use 1(2) True in auto)
    also have "\<dots> = map (\<lambda>k. if i \<le> k \<and> k \<le> j then xs ! (length xs - 1 - k) else xs ! k) [0 ..< length xs]"
    proof (rule nth_equalityI)
      fix k assume "k < length (map (\<lambda>k. if i + 1 \<le> k \<and> k \<le> j - 1 then ?ys ! (length ?ys - 1 - k) else ?ys ! k)
        [0 ..< length ?ys])"
      then have k: "k < length xs" by simp
      have n: "length xs - 1 - i = j" "length xs - 1 - j = i" "i < length xs" "j < length xs"
        using 1(2) by auto
      consider "k = i" | "k = j" | "i < k \<and> k < j" | "k < i \<or> j < k" by linarith
      then show "map (\<lambda>k. if i + 1 \<le> k \<and> k \<le> j - 1 then ?ys ! (length ?ys - 1 - k) else ?ys ! k)
          [0 ..< length ?ys] ! k =
        map (\<lambda>k. if i \<le> k \<and> k \<le> j then xs ! (length xs - 1 - k) else xs ! k) [0 ..< length xs] ! k"
        by cases (use k n True 1(2) in \<open>auto simp: nth_list_update\<close>)
    qed simp
    finally show ?thesis .
  next
    case False
    have mid: "length xs - Suc i = i" if "i = j" using that 1(2) by simp
    have "reverse_loop i j xs = xs" using False by (simp add: reverse_loop.simps [of i j])
    also have "\<dots> = map (\<lambda>k. if i \<le> k \<and> k \<le> j then xs ! (length xs - 1 - k) else xs ! k) [0 ..< length xs]"
      using False 1(2,3) mid by (intro nth_equalityI) (auto simp: le_less)
    finally show ?thesis .
  qed
qed

lemma reverse_loop_rev: "reverse_loop 0 (length xs - 1) xs = rev xs"
proof (cases "xs = []")
  case True
  then show ?thesis by (simp add: reverse_loop.simps)
next
  case False
  then have "reverse_loop 0 (length xs - 1) xs =
      map (\<lambda>k. if 0 \<le> k \<and> k \<le> length xs - 1 then xs ! (length xs - 1 - k) else xs ! k) [0 ..< length xs]"
    by (intro reverse_loop_nth) auto
  also have "\<dots> = rev xs"
    by (rule nth_equalityI) (auto simp: rev_nth)
  finally show ?thesis .
qed


definition sample_cli :: cli_env where
  "sample_cli = \<lparr>ce_exec = fragment_exec, ce_open = sample_open_env, ce_now = 5000,
     ce_parse_duration = (\<lambda>s. None), ce_show_duration = itoa, ce_parse_layout = (\<lambda>l s. None),
     ce_columns = (\<lambda>q. []), ce_agent_spec = [], ce_look_path = (\<lambda>c. False),
     ce_run_cmd = (\<lambda>argv. (None, [], [])), ce_schema_doc = [], ce_keys = (\<lambda>m. []),
     ce_tx = sample_env\<rparr>"

lemma sample_cli_exec: "sql_engine_total (ce_exec sample_cli)"
  using frag.sql_engine_total_axioms by (simp add: sample_cli_def)


section \<open>Watch\<close>

definition event_range :: "int \<Rightarrow> int \<Rightarrow> event list \<Rightarrow> event list" where
  "event_range lo hi evs = filter (\<lambda>ev. lo < ev_id ev \<and> ev_id ev \<le> hi) evs"

abbreviation (input) ids_sorted :: "event list \<Rightarrow> bool" where
  "ids_sorted \<equiv> sorted_wrt (\<lambda>a b. ev_id a < ev_id b)"

definition page_size :: "int \<Rightarrow> nat" where
  "page_size limit = nat (if limit \<le> 0 then 500 else limit)"

definition high_water :: "int \<Rightarrow> event list \<Rightarrow> int" where
  "high_water a evs = (if evs = [] then a else ev_id (last evs))"

lemma store_ids_sorted: "store_inv um st \<Longrightarrow> ids_sorted (store_events um st)"
  by (auto simp: store_events_def store_inv_def table_inv_def sorted_wrt_map split: option.splits)

lemma watch_print_result:
  assumes "ids_sorted evs" and "\<forall>ev \<in> set evs. a < ev_id ev" and "\<forall>ls l. wr ls l = None"
  shows "watch_print matching wr evs a out =
    (high_water a evs, out @ map format_event (filter matching evs), None)"
  using assms(1,2)
proof (induction evs arbitrary: a out)
  case (Cons ev evs)
  have "high_water (ev_id ev) evs = high_water a (ev # evs)" by (simp add: high_water_def)
  with Cons assms(3) show ?case by (auto simp: Let_def)
qed (simp add: high_water_def)

lemma ids_le_last: "ids_sorted evs \<Longrightarrow> x \<in> set evs \<Longrightarrow> ev_id x \<le> ev_id (last evs)"
  by (induction evs) (auto simp: less_imp_le)

lemma take_is_range:
  assumes "ids_sorted evs" and "n > 0" and "new = take n (filter (\<lambda>ev. ev_id ev > a) evs)"
  shows "new = event_range a (high_water a new) evs"
proof (cases "filter (\<lambda>ev. ev_id ev > a) evs = []")
  case True
  then show ?thesis by (auto simp: assms(3) event_range_def high_water_def filter_empty_conv)
next
  case False
  let ?ys = "filter (\<lambda>ev. ev_id ev > a) evs"
  have ne: "new \<noteq> []" using False assms(2,3) by simp
  have "ids_sorted (new @ drop n ?ys)" using sorted_wrt_filter_sub [OF assms(1)] by (simp add: assms(3))
  then have parts: "ids_sorted new" "\<forall>x \<in> set new. \<forall>y \<in> set (drop n ?ys). ev_id x < ev_id y"
    by (auto simp: sorted_wrt_append)
  have le: "\<forall>x \<in> set new. ev_id x \<le> ev_id (last new)" using ids_le_last [OF parts(1)] by blast
  have "event_range a (high_water a new) evs = filter (\<lambda>ev. ev_id ev \<le> ev_id (last new)) ?ys"
    using ne by (simp add: event_range_def high_water_def conj_commute)
  also have "?ys = new @ drop n ?ys" by (simp add: assms(3))
  also have "filter (\<lambda>ev. ev_id ev \<le> ev_id (last new)) (new @ drop n ?ys) = new"
  proof -
    have "filter (\<lambda>ev. ev_id ev \<le> ev_id (last new)) new = new" using le by (simp add: filter_id_conv)
    moreover have "filter (\<lambda>ev. ev_id ev \<le> ev_id (last new)) (drop n ?ys) = []"
      using parts(2) last_in_set [OF ne] by (fastforce simp: filter_empty_conv)
    ultimately show ?thesis by simp
  qed
  finally show ?thesis by simp
qed

lemma range_split:
  "ids_sorted evs \<Longrightarrow> a \<le> b \<Longrightarrow> b \<le> c \<Longrightarrow> event_range a b evs @ event_range b c evs = event_range a c evs"
proof (induction evs)
  case (Cons ev evs)
  have "event_range a b evs = []" if "b < ev_id ev"
    using Cons.prems(1) that by (auto simp: event_range_def filter_empty_conv)
  with Cons show ?case by (auto simp: event_range_def)
qed (simp add: event_range_def)

lemma range_prefix:
  assumes "ids_sorted (evs @ later_evs)" and "b = a \<or> b \<in> ev_id ` set evs"
  shows "event_range a b (evs @ later_evs) = event_range a b evs"
proof -
  have "b \<noteq> a \<longrightarrow> (\<forall>x \<in> set later_evs. b < ev_id x)"
    using assms by (auto simp: sorted_wrt_append)
  then show ?thesis by (fastforce simp: event_range_def filter_empty_conv)
qed

definition grows :: "store \<Rightarrow> store \<Rightarrow> bool" where
  "grows a b \<longleftrightarrow> prefix (store_events json_unmarshal a) (store_events json_unmarshal b)"

definition newer :: "int \<Rightarrow> store \<Rightarrow> event list" where
  "newer a st = filter (\<lambda>ev. ev_id ev > a) (store_events json_unmarshal st)"

definition page_after :: "int \<Rightarrow> int \<Rightarrow> store \<Rightarrow> event list" where
  "page_after limit a st = take (page_size limit) (newer a st)"

lemma page_size_pos: "page_size limit > 0"
  by (simp add: page_size_def)

lemma watch_step_page:
  assumes "sql_engine_total exec" and "store_ready st" and "store_inv json_unmarshal st"
    and "\<forall>ls l. wr ls l = None"
  shows "watch_step exec st matching wr limit a out =
    (high_water a (page_after limit a st),
     out @ map format_event (filter matching (page_after limit a st)), None)"
proof -
  let ?page = "page_after limit a st"
  have page: "events_after_id exec json_unmarshal st a limit = Inr ?page"
    using event_store_total.events_after_total [OF event_store_total_json [OF assms(1)] assms(2,3)]
    by (simp add: after_spec_def page_after_def newer_def page_size_def)
  have "ids_sorted ?page"
    using sorted_wrt_filter_sub [OF store_ids_sorted [OF assms(3)]]
    by (simp add: page_after_def newer_def sorted_wrt_take)
  moreover have "\<forall>ev \<in> set ?page. a < ev_id ev"
    by (auto simp: page_after_def newer_def dest: in_set_takeD)
  ultimately show ?thesis using watch_print_result assms(4) by (simp add: watch_step_def page)
qed

lemma high_water_page:
  assumes "b = high_water a (page_after limit a st)"
  shows "a \<le> b" and "b = a \<or> b \<in> ev_id ` set (store_events json_unmarshal st)"
proof -
  have "page_after limit a st \<noteq> [] \<Longrightarrow> last (page_after limit a st) \<in> set (newer a st)"
    by (metis page_after_def in_set_takeD last_in_set)
  then show "a \<le> b" and "b = a \<or> b \<in> ev_id ` set (store_events json_unmarshal st)"
    using assms by (auto simp: high_water_def newer_def)
qed

lemma filter_above_split:
  "ids_sorted evs \<Longrightarrow> a \<le> b \<Longrightarrow>
    filter (\<lambda>ev. ev_id ev > a) evs = event_range a b evs @ filter (\<lambda>ev. ev_id ev > b) evs"
proof (induction evs)
  case (Cons ev evs)
  have "event_range a b evs = []" if "b < ev_id ev"
    using Cons.prems(1) that by (auto simp: event_range_def filter_empty_conv)
  with Cons show ?case by (auto simp: event_range_def)
qed (simp add: event_range_def)

text \<open>How many of the newer events are left after a page.\<close>

lemma newer_after_page:
  assumes "store_inv json_unmarshal st" and "grows st st'"
    and "b = high_water a (page_after limit a st)"
  shows "length (newer a st) \<le> length (page_after limit a st) + length (newer b st')"
proof -
  have "page_after limit a st = event_range a b (store_events json_unmarshal st)"
    using take_is_range [OF store_ids_sorted [OF assms(1)] page_size_pos refl]
    by (simp add: assms(3) page_after_def newer_def)
  moreover have "newer a st = event_range a b (store_events json_unmarshal st) @ newer b st"
    using filter_above_split [OF store_ids_sorted [OF assms(1)] high_water_page(1) [OF assms(3)]]
    by (simp add: newer_def)
  moreover have "length (newer b st) \<le> length (newer b st')"
    using assms(2) by (auto simp: grows_def newer_def prefix_def)
  ultimately show ?thesis by simp
qed

definition readable :: "store \<Rightarrow> bool" where
  "readable st \<longleftrightarrow> store_ready st \<and> store_inv json_unmarshal st"

definition shown_range :: "int \<Rightarrow> int \<Rightarrow> store \<Rightarrow> event list" where
  "shown_range lo hi st = event_range lo hi (store_events json_unmarshal st)"

lemma page_is_range:
  assumes "readable st" and "b = high_water a (page_after limit a st)"
  shows "page_after limit a st = shown_range a b st"
  using take_is_range [OF store_ids_sorted page_size_pos refl] assms
  by (simp add: readable_def page_after_def newer_def shown_range_def)

lemma range_in_grown:
  assumes "readable st'" and "prefix (store_events json_unmarshal st) (store_events json_unmarshal st')"
    and "b = a \<or> b \<in> ev_id ` set (store_events json_unmarshal st)"
  shows "shown_range a b st' = shown_range a b st"
proof -
  obtain more_evs where "store_events json_unmarshal st' = store_events json_unmarshal st @ more_evs"
    using assms(2) by (auto simp: prefix_def)
  then show ?thesis
    using range_prefix [of "store_events json_unmarshal st" more_evs b a] assms(1,3)
      store_ids_sorted [of json_unmarshal st']
    by (simp add: readable_def shown_range_def)
qed

lemma grows_to_last:
  "successively grows (st # sts) \<Longrightarrow>
    prefix (store_events json_unmarshal st) (store_events json_unmarshal (last (st # sts)))"
proof (induction sts arbitrary: st)
  case (Cons st' sts)
  then show ?case by (auto simp: grows_def successively_Cons intro: prefix_order.trans)
qed simp

text \<open>What a run of ticks has shown, and how far it has come.\<close>

lemma watch_ticks_ranges:
  assumes "sql_engine_total exec" and "\<forall>ls l. wr ls l = None"
  shows "\<forall>s \<in> set (st # sts). readable s \<Longrightarrow> successively grows (st # sts) \<Longrightarrow>
    \<exists>b. watch_ticks exec matching wr limit (st # sts) a out =
        (b, out @ map format_event (filter matching (shown_range a b (last (st # sts)))), None) \<and>
      a \<le> b \<and>
      min (page_size limit * length (st # sts)) (length (newer a st)) \<le>
        length (shown_range a b (last (st # sts)))"
proof (induction sts arbitrary: st a out)
  case Nil
  let ?b = "high_water a (page_after limit a st)"
  have "watch_step exec st matching wr limit a out =
      (?b, out @ map format_event (filter matching (shown_range a ?b st)), None)"
    using watch_step_page [OF assms(1) _ _ assms(2)] page_is_range [OF _ refl] Nil.prems(1)
    by (simp add: readable_def)
  moreover have "length (shown_range a ?b st) = min (length (newer a st)) (page_size limit)"
    using page_is_range [OF _ refl, of st limit a] Nil.prems(1)
    by (simp add: page_after_def flip: page_is_range [OF _ refl])
  ultimately show ?case using high_water_page(1) [OF refl] by auto
next
  case (Cons st' sts)
  define b1 where "b1 = high_water a (page_after limit a st)"
  define final where "final = last (st' # sts)"
  have grown: "successively grows (st' # sts)" "grows st st'"
    using Cons.prems(2) by (simp_all add: successively_Cons)
  have ready: "readable st" "readable final"
    using Cons.prems(1) by (auto simp: final_def)
  have page: "page_after limit a st = shown_range a b1 final"
    using page_is_range [OF ready(1) b1_def] range_in_grown [OF ready(2)] high_water_page(2) [OF b1_def]
      grows_to_last [OF Cons.prems(2)] by (simp add: final_def)
  have step: "watch_step exec st matching wr limit a out =
      (b1, out @ map format_event (filter matching (shown_range a b1 final)), None)"
    using watch_step_page [OF assms(1) _ _ assms(2)] ready(1) page by (simp add: readable_def b1_def)
  obtain b where b: "watch_ticks exec matching wr limit (st' # sts) b1
        (out @ map format_event (filter matching (shown_range a b1 final))) =
      (b, (out @ map format_event (filter matching (shown_range a b1 final))) @
        map format_event (filter matching (shown_range b1 b final)), None)" "b1 \<le> b"
      "min (page_size limit * length (st' # sts)) (length (newer b1 st')) \<le> length (shown_range b1 b final)"
    using Cons.IH [OF _ grown(1)] Cons.prems(1) unfolding final_def by (metis list.set_intros(2))
  have split: "shown_range a b final = shown_range a b1 final @ shown_range b1 b final"
    using range_split [OF store_ids_sorted high_water_page(1) [OF b1_def] b(2)] ready(2)
    by (simp add: shown_range_def readable_def)
  have "length (shown_range a b1 final) = min (length (newer a st)) (page_size limit)"
    using page by (simp add: page_after_def flip: page)
  then have "min (page_size limit * length (st # st' # sts)) (length (newer a st)) \<le>
      length (shown_range a b final)"
    using b(3) split newer_after_page [OF _ grown(2) b1_def] ready(1) page
    by (simp add: readable_def min_def split: if_splits)
  moreover have "a \<le> b" using high_water_page(1) [OF b1_def] b(2) by simp
  moreover have "last (st # st' # sts) = final" by (simp add: final_def)
  ultimately show ?case using b(1) split step by simp
qed

text \<open>
  C15: Watching a growing store prints every matching new event once, in the order of its id: after
  any number of ticks the lines are those of the matching events between the id it started from and
  the id it has come to, and each tick comes a page further as long as there are events left.
\<close>

theorem watch_shows_each_event_once:
  assumes "sql_engine_total exec" and "\<forall>ls l. wr ls l = None"
    and "\<forall>s \<in> set (st # sts). store_ready s \<and> store_inv json_unmarshal s"
    and "successively grows (st # sts)"
    and "final = last (st # sts)"
  shows "\<exists>b. watch_ticks exec matching wr limit (st # sts) a [] =
        (b, map format_event (filter matching (event_range a b (store_events json_unmarshal final))), None) \<and>
      a \<le> b \<and>
      min (page_size limit * length (st # sts))
        (length (filter (\<lambda>ev. ev_id ev > a) (store_events json_unmarshal st))) \<le>
        length (event_range a b (store_events json_unmarshal final))"
  using watch_ticks_ranges [OF assms(1,2) _ assms(4), of matching limit a "[]"] assms(3)
  by (simp add: readable_def shown_range_def newer_def assms(5))

text \<open>What the recorder does to the store between two ticks is such a growth.\<close>

lemma written_grows:
  assumes "sql_engine exec" and "store_ready st" and "store_inv json_unmarshal st" and "batch_ok evs"
    and "insert_events exec json_marshal env st evs = (st', stats, e)"
  shows "grows st st'"
proof (cases "st' = st")
  case False
  from insert_changes [OF assms(5) this] assms(5)
  have "insert_events exec json_marshal env st evs = (st', stats, None)" and "evs \<noteq> []" by auto
  from event_store.insert_events_appends(1) [OF event_store_json [OF assms(1)] this assms(2-4)]
  show ?thesis by (simp add: grows_def)
qed (simp add: grows_def)

theorem watch_shows_each_event_once_witness:
  "\<exists>b. watch_ticks fragment_exec (watch_predicate [] [] []) (\<lambda>ls l. None) 1 [sample_store, filled_store] 0 [] =
      (b, map format_event (filter (watch_predicate [] [] [])
        (event_range 0 b (store_events json_unmarshal filled_store))), None)"
proof -
  have "grows sample_store filled_store"
    by (rule written_grows [OF frag.sql_engine_axioms sample_store_inv(2,1) sample_batch_ok sample_insert_eq])
  then have "\<exists>b. watch_ticks fragment_exec (watch_predicate [] [] []) (\<lambda>ls l. None) 1
        (sample_store # [filled_store]) 0 [] =
      (b, map format_event (filter (watch_predicate [] [] [])
        (event_range 0 b (store_events json_unmarshal filled_store))), None) \<and> 0 \<le> b \<and>
      min (page_size 1 * length (sample_store # [filled_store]))
        (length (filter (\<lambda>ev. ev_id ev > 0) (store_events json_unmarshal sample_store))) \<le>
        length (event_range 0 b (store_events json_unmarshal filled_store))"
    by (intro watch_shows_each_event_once)
      (use filled_store_inv sample_store_inv frag.sql_engine_total_axioms in auto)
  then show ?thesis by auto
qed

section \<open>Benchmark\<close>

lemma open_store_writable:
  assumes "sql_engine exec" and "open_store exec env path = Inr st"
  shows "\<exists>db. st_db st = Some db \<and> db_table db \<noteq> None \<and> \<not> db_query_only db \<and> \<not> st_read_only st"
proof -
  obtain p db db' where c: "connect env p False = Inr db"
    and r: "run_schema exec db schema_statements = Inr db'"
    and st: "st = \<lparr>st_db = Some db', st_read_only = False\<rparr>"
    using assms(2) by (auto simp: open_store_def split: if_splits sum.splits option.splits)
  have "\<not> db_query_only db" using c by (auto simp: connect_def dsn_pragmas_def split: option.splits)
  then show ?thesis
    using st by (simp add: sql_engine.run_schema_result [OF assms(1) r])
qed

text \<open>
  \<open>benchmark\<close> appends exactly the number of demo events asked for, as generated, and reports no
  drop; a negative number is refused before the store is opened.
\<close>

theorem benchmark_appends_demo_events:
  assumes "sql_engine_total (ce_exec env)" and "tx_fine (ce_tx env)"
    and "flagset_parse [(''count'', int_flag)] args = Inr (vals, others)"
    and "n = int_value ''count'' 1000 vals"
    and "open_store (ce_exec env) (ce_open env) (cf_db_path cfg) = Inr st"
    and "store_inv json_unmarshal st"
  shows "if n < 0 then run_benchmark env cfg args = Inl (Err ''benchmark count must be >= 0'')
    else \<exists>st' stats. run_benchmark env cfg args = Inr (st', stats) \<and> is_dropped stats = 0 \<and>
      store_events json_unmarshal st' = store_events json_unmarshal st @
        stored_batch stored_metadata (ce_tx env) 0 (store_seq st) (generate_demo_events (ce_now env) n) \<and>
      length (store_events json_unmarshal st') = length (store_events json_unmarshal st) + nat n"
proof -
  note eng = sql_engine_total.axioms(1) [OF assms(1)]
  obtain db where db: "st_db st = Some db" "db_table db \<noteq> None" "\<not> db_query_only db" "\<not> st_read_only st"
    using open_store_writable [OF eng assms(5)] by blast
  let ?evs = "generate_demo_events (ce_now env) n"
  obtain st' stats where run: "insert_events (ce_exec env) json_marshal (ce_tx env) st ?evs = (st', stats, None)"
    using event_store_total.insert_events_returns [OF event_store_total_json [OF assms(1)] db assms(2)] by blast
  have ready: "store_ready st" using db by (simp add: store_ready_def store_table_def)
  have stored: "is_dropped stats = 0 \<and> store_events json_unmarshal st' = store_events json_unmarshal st @
      stored_batch stored_metadata (ce_tx env) 0 (store_seq st) ?evs"
  proof (cases "?evs = []")
    case True
    then show ?thesis using run by (auto simp: insert_events_def empty_stats_def)
  next
    case False
    show ?thesis
      using event_store.insert_events_appends(1,3) [OF event_store_json [OF eng] run False ready assms(6)
          demo_batch_ok] by (simp add: demo_batch_drops wrap64_def)
  qed
  then have "run_benchmark env cfg args = Inr (st', stats)" if "\<not> n < 0"
    using that run assms(3-5) by (simp add: run_benchmark_def)
  with stored assms(3,4) show ?thesis by (auto simp: run_benchmark_def)
qed

definition sample_config :: config where
  "sample_config = \<lparr>cf_db_path = ''/x'', cf_pid_file = ''/p'', cf_json = False, cf_ignore_paths = []\<rparr>"

theorem benchmark_appends_demo_events_witness:
  "\<exists>st' stats. run_benchmark sample_cli sample_config [''--count'', ''3''] = Inr (st', stats) \<and>
    length (store_events json_unmarshal st') = 3"
proof -
  have vals: "flagset_parse [(''count'', int_flag)] [''--count'', ''3''] = Inr ([(''count'', ''3'')], [])"
    by code_simp
  have n: "3 = int_value ''count'' 1000 [(''count'', ''3'')]" by code_simp
  have "isl (open_store fragment_exec sample_open_env ''/x'') = False" by code_simp
  then obtain st where st: "open_store fragment_exec sample_open_env ''/x'' = Inr st"
    by (cases "open_store fragment_exec sample_open_env ''/x''") auto
  have inv: "store_inv json_unmarshal st" and nil: "store_events json_unmarshal st = []"
    using sql_engine.open_store_result(1) [OF frag.sql_engine_axioms st]
    by (auto simp: store_inv_def table_inv_def store_events_def sample_open_env_def)
  have exec: "sql_engine_total (ce_exec sample_cli)" and tx: "tx_fine (ce_tx sample_cli)"
    and open_ok: "open_store (ce_exec sample_cli) (ce_open sample_cli) (cf_db_path sample_config) = Inr st"
    using sample_env_fine frag.sql_engine_total_axioms st by (simp_all add: sample_cli_def sample_config_def)
  show ?thesis
    using benchmark_appends_demo_events [OF exec tx vals n open_ok inv] nil by auto
qed

section \<open>JSON rows\<close>

lemma row_map_zip:
  "length row = length cols \<Longrightarrow> row_map cols row m = Inr (m ++ map_of (rev (zip cols row)))"
proof (induction cols row m rule: row_map.induct)
  case (3 c cols v row m)
  have "m ++ map_of (rev (zip (c # cols) (v # row))) = (m(c \<mapsto> v)) ++ map_of (rev (zip cols row))"
    by (rule ext) (simp add: map_add_def split: option.splits)
  with 3 show ?case by (simp del: fun_upd_apply)
qed simp_all

text \<open>
  A column name that occurs twice, as in a join or with two equal aliases, loses its first value in
  JSON output; the table keeps both.
\<close>

theorem json_rows_keep_last_column:
  "row_map [''pid'', ''pid''] [VInt 1, VInt 2] Map.empty = Inr [''pid'' \<mapsto> VInt 2]"
  by (simp add: row_map_zip)

section \<open>Starting and stopping\<close>

lemma itoa_no_space: "c \<in> set (itoa n) \<Longrightarrow> \<not> space_byte c"
  using itoa_chars [of c n] by (auto simp: space_byte_def is_digit_def in_bytes_def ascii_space_def byte_val_def)

lemma trim_space_itoa: "trim_space (itoa n) = itoa n"
  using itoa_no_space [OF hd_in_set [OF itoa_nonempty]] itoa_no_space [OF last_in_set [OF itoa_nonempty]]
  by (intro trim_space_solid) simp_all


definition sample_os :: os_env where
  "sample_os = \<lparr>os_mkdir_all = (\<lambda>p. None), os_executable = Inr ''/usr/bin/ltm'',
     os_spawn = (\<lambda>exe args. Inr 77), os_write_file = (\<lambda>p. None), os_signal = (\<lambda>pid. None),
     os_probe = (\<lambda>pid. None)\<rparr>"


text \<open>
  C36: The recorder runs with the configuration of the command that started it: the arguments \<open>start\<close>
  gives it make \<open>daemon --foreground\<close> open the storage path of the parent and start the pipeline
  with rules that ignore the same paths.
\<close>

theorem recorder_gets_the_configuration:
  assumes "set (cf_ignore_paths (default_config home)) \<subseteq> set (cf_ignore_paths cfg)"
  shows "\<exists>cfg'. parse_global_flags (daemon_args home cfg) (default_config home) =
      Inr ([''daemon'', ''--foreground''], cfg') \<and>
    passthrough (run_daemon env) cfg' [''--foreground''] =
      rbind (open_store (ce_exec env) (ce_open env) (cf_db_path cfg)) (\<lambda>st.
        Inr (start_service
          \<lparr>sc_ignore_paths = cf_ignore_paths cfg', sc_batch_size = 0, sc_flush_period = 0\<rparr> st)) \<and>
    (\<forall>(st :: store) p. should_ignore_path (col_rules (sv_col (start_service
        \<lparr>sc_ignore_paths = cf_ignore_paths cfg', sc_batch_size = 0, sc_flush_period = 0\<rparr> st))) p \<longleftrightarrow>
      should_ignore_path (new_ignore_rules (cf_ignore_paths cfg)) p)"
proof -
  obtain cfg' where cfg': "parse_global_flags (daemon_args home cfg) (default_config home) =
        Inr ([''daemon'', ''--foreground''], cfg')"
      "cf_db_path cfg' = cf_db_path cfg"
      "\<forall>p. should_ignore_path (new_ignore_rules (cf_ignore_paths cfg')) p \<longleftrightarrow>
        should_ignore_path (new_ignore_rules (cf_ignore_paths cfg)) p"
    using daemon_args_round_trip [OF assms] by auto
  have "parse_global_flags [''--foreground''] cfg' = Inr ([''--foreground''], cfg')"
    by (rule parse_stops) code_simp
  moreover have "flagset_parse [(''foreground'', BoolFlag), (''db'', string_flag), (''pidfile'', string_flag)]
      [''--foreground''] = Inr ([(''foreground'', ''true'')], [])" by code_simp
  moreover have "bool_value ''foreground'' False [(''foreground'', ''true'')]" by code_simp
  moreover have "string_value name dflt [(''foreground'', ''true'')] = dflt" if "name \<noteq> ''foreground''" for name dflt
    using that by (simp add: string_value_def flag_values_of_def)
  ultimately show ?thesis
    using cfg' by (auto simp: passthrough_def run_daemon_def start_service_def new_service_config_def
        new_collector_def Let_def)
qed

theorem recorder_gets_the_configuration_witness:
  "\<exists>cfg cfg'. parse_global_flags [''--ignore-path'', ''/mnt'', ''start''] (default_config ''/root'') =
      Inr ([''start''], cfg) \<and>
    parse_global_flags (daemon_args ''/root'' cfg) (default_config ''/root'') =
      Inr ([''daemon'', ''--foreground''], cfg')"
proof -
  have "parse_global_flags [''start''] c = Inr ([''start''], c)" for c
    by (rule parse_stops) code_simp
  then obtain cfg where cfg: "parse_global_flags [''--ignore-path'', ''/mnt'', ''start''] (default_config ''/root'') =
      Inr ([''start''], cfg)" by (simp add: parse_ignore)
  obtain cfg' where "parse_global_flags (daemon_args ''/root'' cfg) (default_config ''/root'') =
      Inr ([''daemon'', ''--foreground''], cfg')"
    using recorder_gets_the_configuration [OF parse_keeps_ignores [OF cfg], of sample_cli] by (elim exE conjE)
  with cfg show ?thesis by (intro exI conjI)
qed

end
