(* ===== verification/Signals.thy ===== *)
theory Signals imports Prelude begin

text \<open>
  \<open>signalContext\<close> of \<open>internal/cli/commands_runtime.go\<close>: a context that a signal cancels, with a
  stop function. The goroutine that waits for the signal, the stop function (under \<open>sync.Once\<close>) and
  the arriving signals run concurrently; each line of theirs is a step.
\<close>

section \<open>State\<close>

text \<open>The goroutine selects, has received a signal, or has ended; the body of the stop function is
  at one of its lines.\<close>

datatype waiter = Selecting | Received | Ended

datatype stop_phase = NotStopped | Detached | Closed | Stopped

text \<open>\<open>sg_pending\<close> is what the channel \<open>ch\<close>, of capacity 1, holds; \<open>sg_closes\<close> counts the closings
  of \<open>done\<close>, the second of which would panic; \<open>sg_arrived\<close> says that a signal came while \<open>ch\<close> was
  registered.\<close>

record signal_ctx =
  sg_cancelled :: bool
  sg_pending :: nat
  sg_notified :: bool
  sg_closes :: nat
  sg_waiter :: waiter
  sg_phase :: stop_phase
  sg_arrived :: bool

definition signal_context :: signal_ctx where
  "signal_context = \<lparr>sg_cancelled = False, sg_pending = 0, sg_notified = True, sg_closes = 0,
     sg_waiter = Selecting, sg_phase = NotStopped, sg_arrived = False\<rparr>"

section \<open>Steps\<close>

text \<open>The goroutine, and the lines of the stop function after its first.\<close>

inductive internal_step :: "signal_ctx \<Rightarrow> signal_ctx \<Rightarrow> bool" where
  receive: "sg_waiter s = Selecting \<Longrightarrow> 0 < sg_pending s \<Longrightarrow>
    internal_step s (s\<lparr>sg_pending := sg_pending s - 1, sg_waiter := Received\<rparr>)"
| cancel: "sg_waiter s = Received \<Longrightarrow> internal_step s (s\<lparr>sg_cancelled := True, sg_waiter := Ended\<rparr>)"
| see_done: "sg_waiter s = Selecting \<Longrightarrow> 0 < sg_closes s \<Longrightarrow> internal_step s (s\<lparr>sg_waiter := Ended\<rparr>)"
| close_done: "sg_phase s = Detached \<Longrightarrow>
    internal_step s (s\<lparr>sg_closes := sg_closes s + 1, sg_phase := Closed\<rparr>)"
| stop_cancel: "sg_phase s = Closed \<Longrightarrow> internal_step s (s\<lparr>sg_cancelled := True, sg_phase := Stopped\<rparr>)"

text \<open>The signals, which a full channel discards, and the calls of the stop function: the first one
  begins with \<open>signalStop\<close>, later ones find \<open>once\<close> done.\<close>

inductive outside_step :: "signal_ctx \<Rightarrow> signal_ctx \<Rightarrow> bool" where
  signal: "sg_notified s \<Longrightarrow> outside_step s (s\<lparr>sg_pending := min 1 (sg_pending s + 1), sg_arrived := True\<rparr>)"
| stop: "sg_phase s = NotStopped \<Longrightarrow> outside_step s (s\<lparr>sg_notified := False, sg_phase := Detached\<rparr>)"
| stop_again: "sg_phase s = Stopped \<Longrightarrow> outside_step s s"

inductive signal_run :: "signal_ctx \<Rightarrow> bool" where
  begins: "signal_run signal_context"
| inside: "signal_run s \<Longrightarrow> internal_step s s' \<Longrightarrow> signal_run s'"
| outside: "signal_run s \<Longrightarrow> outside_step s s' \<Longrightarrow> signal_run s'"

inductive_simps internal_step_iff: "internal_step s s'"

section \<open>Its guarantees\<close>

definition signal_inv :: "signal_ctx \<Rightarrow> bool" where
  "signal_inv s \<longleftrightarrow>
     sg_closes s = (if sg_phase s \<in> {Closed, Stopped} then 1 else 0) \<and>
     (sg_notified s \<longleftrightarrow> sg_phase s = NotStopped) \<and>
     (sg_phase s = Stopped \<longrightarrow> sg_cancelled s) \<and>
     (sg_cancelled s \<longrightarrow> sg_arrived s \<or> sg_phase s = Stopped) \<and>
     (sg_waiter s = Received \<or> 0 < sg_pending s \<longrightarrow> sg_arrived s) \<and>
     (sg_waiter s = Ended \<longrightarrow> sg_cancelled s \<or> sg_phase s \<in> {Closed, Stopped}) \<and>
     (sg_arrived s \<longrightarrow> 0 < sg_pending s \<or> sg_waiter s \<noteq> Selecting)"

lemma internal_step_inv: "internal_step s s' \<Longrightarrow> signal_inv s \<Longrightarrow> signal_inv s'"
  by (induction rule: internal_step.induct) (simp_all add: signal_inv_def split: if_splits)

lemma outside_step_inv: "outside_step s s' \<Longrightarrow> signal_inv s \<Longrightarrow> signal_inv s'"
  by (induction rule: outside_step.induct) (auto simp: signal_inv_def)

lemma signal_run_inv: "signal_run s \<Longrightarrow> signal_inv s"
proof (induction rule: signal_run.induct)
  case begins
  then show ?case by (simp add: signal_inv_def signal_context_def)
qed (auto intro: internal_step_inv outside_step_inv)

definition waiter_left :: "waiter \<Rightarrow> nat" where
  "waiter_left w = (case w of Selecting \<Rightarrow> 2 | Received \<Rightarrow> 1 | Ended \<Rightarrow> 0)"

definition stop_left :: "stop_phase \<Rightarrow> nat" where
  "stop_left p = (case p of NotStopped \<Rightarrow> 3 | Detached \<Rightarrow> 2 | Closed \<Rightarrow> 1 | Stopped \<Rightarrow> 0)"

lemma internal_steps_end: "wfP (\<lambda>s' s. internal_step s s')"
  unfolding wfp_def
  by (rule wf_subset [OF wf_measure [of "\<lambda>s. waiter_left (sg_waiter s) + stop_left (sg_phase s)"]])
    (auto simp: waiter_left_def stop_left_def elim!: internal_step.cases)

text \<open>
  C39: \<open>signalContext\<close> is sound under every interleaving of signals, its goroutine and calls of the
  stop function: \<open>done\<close> is never closed twice, nothing cancels the context but a signal or the stop
  function, its own steps come to an end, and when they have, a signal has cancelled the context,
  and after a stop the context is cancelled, the goroutine has ended and no signal is delivered.
\<close>

theorem signal_context_settles:
  assumes "signal_run s"
  shows "sg_closes s \<le> 1 \<and> (sg_cancelled s \<longrightarrow> sg_arrived s \<or> sg_phase s = Stopped) \<and>
    wfP (\<lambda>s' s. internal_step s s') \<and>
    ((\<nexists>s'. internal_step s s') \<longrightarrow>
      (sg_arrived s \<longrightarrow> sg_cancelled s) \<and>
      (sg_phase s \<noteq> NotStopped \<longrightarrow> sg_cancelled s \<and> sg_waiter s = Ended \<and> \<not> sg_notified s))"
proof -
  have inv: "signal_inv s" by (rule signal_run_inv [OF assms])
  have settled: "sg_waiter s \<noteq> Received \<and> (sg_waiter s = Selecting \<longrightarrow> sg_pending s = 0 \<and> sg_closes s = 0) \<and>
      sg_phase s \<noteq> Detached \<and> sg_phase s \<noteq> Closed" if "\<nexists>s'. internal_step s s'"
    using that internal_step.intros [of s] by (metis neq0_conv)
  have first: "sg_closes s \<le> 1 \<and> (sg_cancelled s \<longrightarrow> sg_arrived s \<or> sg_phase s = Stopped)"
    using inv by (simp add: signal_inv_def)
  have "sg_arrived s \<longrightarrow> sg_cancelled s" and
    "sg_phase s \<noteq> NotStopped \<longrightarrow> sg_cancelled s \<and> sg_waiter s = Ended \<and> \<not> sg_notified s"
    if "\<nexists>s'. internal_step s s'"
    using settled [OF that] inv unfolding signal_inv_def
    by (cases "sg_waiter s"; cases "sg_phase s"; simp)+
  with first internal_steps_end show ?thesis by blast
qed

theorem signal_context_settles_witness:
  "\<exists>s. signal_run s \<and> sg_arrived s \<and> sg_phase s = Stopped \<and> sg_closes s \<le> 1"
proof -
  let ?s1 = "signal_context\<lparr>sg_pending := 1, sg_arrived := True\<rparr>"
  let ?s2 = "?s1\<lparr>sg_notified := False, sg_phase := Detached\<rparr>"
  let ?s3 = "?s2\<lparr>sg_closes := 1, sg_phase := Closed\<rparr>"
  let ?s4 = "?s3\<lparr>sg_cancelled := True, sg_phase := Stopped\<rparr>"
  have "outside_step signal_context ?s1"
    using signal [of signal_context] by (simp add: signal_context_def)
  from signal_run.outside [OF begins this] have "signal_run ?s1" .
  moreover have "outside_step ?s1 ?s2" using stop [of ?s1] by (simp add: signal_context_def)
  ultimately have "signal_run ?s2" by (rule signal_run.outside)
  moreover have "internal_step ?s2 ?s3" using close_done [of ?s2] by (simp add: signal_context_def)
  ultimately have "signal_run ?s3" by (rule inside)
  moreover have "internal_step ?s3 ?s4" using stop_cancel [of ?s3] by simp
  ultimately have "signal_run ?s4" by (rule inside)
  from signal_context_settles [OF this] have "sg_closes ?s4 \<le> 1" by (rule conjunct1)
  with \<open>signal_run ?s4\<close> show ?thesis by (intro exI [of _ ?s4]) simp
qed

end
